theory Spec2Isabelle
  imports Main "HOL-Library.Word" "HOL-Library.Signed_Division"
begin

unbundle bit_operations_syntax

section \<open>MiniVHD sector I/O (minivhd\_io.c)\<close>

text \<open>
  A shallow embedding of \<^verbatim>\<open>src/src/minivhd_io.c\<close>. C \<^verbatim>\<open>int\<close> and \<^verbatim>\<open>int64_t\<close>
  values are mathematical integers. Signed overflow is undefined behaviour in C and has
  no meaning in the model, so the model and the code compute the same values exactly
  where no \<^verbatim>\<open>int\<close> operation of the code overflows; the statements about requests, counts
  and capacities carry the bounds (\<open>is_int\<close> and the like) that keep every \<^verbatim>\<open>int\<close> value on
  their way within 32 bits. \<^verbatim>\<open>uint32_t\<close> values are \<open>32 word\<close>, so unsigned arithmetic
  wraps; \<^verbatim>\<open>/\<close> and \<^verbatim>\<open>%\<close> on \<^verbatim>\<open>int\<close> truncate towards zero (\<open>sdiv\<close>, \<open>smod\<close>).
  Memory buffers and file contents are maps from byte index to byte. Array accesses
  outside an array are undefined behaviour in C; the theorems below state the index
  ranges they rely on.
\<close>

text \<open>The values of the C type \<^verbatim>\<open>int\<close> (32 bits, two's complement).\<close>

definition is_int :: "int \<Rightarrow> bool" where
  "is_int x \<longleftrightarrow> - (2 ^ 31) \<le> x \<and> x < 2 ^ 31"

subsection \<open>Bytes, buffers and the stdio stream\<close>

type_synonym byte = "8 word"
type_synonym buffer = "nat \<Rightarrow> byte"

text \<open>
  A stdio stream opened for update: the bytes of the file, its length and the file
  position. Bytes at or beyond \<open>fsize\<close> are not part of the file.
\<close>

record FILE =
  content :: buffer
  fsize :: nat
  fpos :: nat

datatype whence = SEEK_SET | SEEK_CUR | SEEK_END

text \<open>Conversion of a C \<^verbatim>\<open>int\<close> to \<^verbatim>\<open>size_t\<close> (64 bit): reduction modulo \<open>2^64\<close>.\<close>

definition size_t :: "int \<Rightarrow> nat" where
  "size_t x = nat (x mod 2 ^ 64)"

text \<open>\<^verbatim>\<open>fseeko64\<close> fails, leaving the position alone, when the target is negative.\<close>

definition fseeko64 :: "FILE \<Rightarrow> int \<Rightarrow> whence \<Rightarrow> FILE" where
  "fseeko64 fl off w =
     (let base = (case w of SEEK_SET \<Rightarrow> 0 | SEEK_CUR \<Rightarrow> int (fpos fl) | SEEK_END \<Rightarrow> int (fsize fl));
          p = base + off
      in if p < 0 then fl else fl\<lparr>fpos := nat p\<rparr>)"

definition ftello64 :: "FILE \<Rightarrow> int" where
  "ftello64 fl = int (fpos fl)"

text \<open>
  The transfer of a read: copies the bytes that the file still has, at most \<open>size * nmemb\<close>,
  to the address \<open>boff\<close> inside \<open>buf\<close>, and advances the position.
\<close>

definition stream_read :: "buffer \<Rightarrow> nat \<Rightarrow> nat \<Rightarrow> nat \<Rightarrow> FILE \<Rightarrow> buffer \<times> FILE" where
  "stream_read buf boff sz nmemb fl =
     (let n = min (sz * nmemb) (fsize fl - fpos fl)
      in (\<lambda>i. if boff \<le> i \<and> i < boff + n then content fl (fpos fl + (i - boff)) else buf i,
          fl\<lparr>fpos := fpos fl + n\<rparr>))"

text \<open>
  The transfer of a write: overwrites or appends \<open>size * nmemb\<close> bytes at the position; a
  gap between the old end of file and the position reads as zero.
\<close>

definition stream_write :: "buffer \<Rightarrow> nat \<Rightarrow> nat \<Rightarrow> nat \<Rightarrow> FILE \<Rightarrow> FILE" where
  "stream_write buf boff sz nmemb fl =
     (let n = sz * nmemb
      in if n = 0 then fl
         else fl\<lparr>content := (\<lambda>i. if fpos fl \<le> i \<and> i < fpos fl + n then buf (boff + (i - fpos fl))
                                else if fsize fl \<le> i \<and> i < fpos fl then 0
                                else content fl i),
                  fsize := max (fsize fl) (fpos fl + n),
                  fpos := fpos fl + n\<rparr>)"

text \<open>
  \<^verbatim>\<open>fread(ptr, size, nmemb, f)\<close> and \<^verbatim>\<open>fwrite(ptr, size, nmemb, f)\<close>, with \<open>ptr\<close> the address
  \<open>boff\<close> inside \<open>buf\<close>. A request of more than \<open>SSIZE_MAX\<close> bytes is refused by the read
  or write call underneath: nothing is transferred and the position stays where it is.
  The code arrives at such a request only by converting a negative \<^verbatim>\<open>int\<close> to \<^verbatim>\<open>size_t\<close>; its
  other requests are below \<open>2^40\<close> bytes. Any other request is carried out.
\<close>

definition SSIZE_MAX :: nat where
  "SSIZE_MAX = 9223372036854775807"

definition fread :: "buffer \<Rightarrow> nat \<Rightarrow> nat \<Rightarrow> nat \<Rightarrow> FILE \<Rightarrow> buffer \<times> FILE" where
  "fread buf boff sz nmemb fl =
     (if SSIZE_MAX < sz * nmemb then (buf, fl) else stream_read buf boff sz nmemb fl)"

definition fwrite :: "buffer \<Rightarrow> nat \<Rightarrow> nat \<Rightarrow> nat \<Rightarrow> FILE \<Rightarrow> FILE" where
  "fwrite buf boff sz nmemb fl =
     (if SSIZE_MAX < sz * nmemb then fl else stream_write buf boff sz nmemb fl)"

definition memset :: "buffer \<Rightarrow> nat \<Rightarrow> byte \<Rightarrow> nat \<Rightarrow> buffer" where
  "memset buf boff c n = (\<lambda>i. if boff \<le> i \<and> i < boff + n then c else buf i)"

subsection \<open>Declarations of minivhd\_internal.h\<close>

text \<open>
  Modelled from the spec: \<^verbatim>\<open>minivhd_internal.h\<close> is not among the sources. The sector
  size is the 512 of the spec's scenarios; the footer is the "fixed-size trailing record"
  (512 bytes in the VHD format); the BAT holds 4-byte entries and "unallocated slots hold
  a fixed sentinel value" (all bits set in the VHD format); the disk types are
  fixed, dynamic and differencing.
\<close>

definition MVHD_SECTOR_SIZE :: int where
  "MVHD_SECTOR_SIZE = 512"

definition MVHD_FOOTER_SIZE :: int where
  "MVHD_FOOTER_SIZE = 512"

definition MVHD_SPARSE_BLK :: "32 word" where
  "MVHD_SPARSE_BLK = 0xffffffff"

datatype MVHDType = MVHD_TYPE_FIXED | MVHD_TYPE_DYNAMIC | MVHD_TYPE_DIFF

record MVHDGeom =
  cyl :: nat
  heads :: nat
  spt :: nat

record MVHDFooter =
  geom :: MVHDGeom
  disk_type :: MVHDType

record MVHDSparseHeader =
  bat_offset :: nat
  block_sz :: nat

record MVHDSectorBitmap =
  curr_bitmap :: buffer
  sector_count :: int
  curr_block :: int

text \<open>
  The image handle. The \<^verbatim>\<open>parent\<close> pointer is not a field: a differencing chain is the
  list of handles from the child to the root. \<open>alloc_log\<close> is a ghost field with no
  counterpart in the C struct: the blocks that \<^verbatim>\<open>mvhd_create_block\<close> was called for, in
  order.
\<close>

record MVHDMeta =
  f :: FILE
  footer :: MVHDFooter
  sparse :: MVHDSparseHeader
  block_offset :: "32 word list"
  sect_per_block :: int
  bitmap :: MVHDSectorBitmap
  alloc_log :: "int list"

subsection \<open>Bit array macros\<close>

definition bit_mask :: "int \<Rightarrow> byte" where
  "bit_mask k = drop_bit (nat (k smod 8)) (0x80 :: byte)"

definition VHD_SETBIT :: "buffer \<Rightarrow> int \<Rightarrow> buffer" where
  "VHD_SETBIT A k = A(nat (k sdiv 8) := A (nat (k sdiv 8)) OR bit_mask k)"

definition VHD_TESTBIT :: "buffer \<Rightarrow> int \<Rightarrow> bool" where
  "VHD_TESTBIT A k = (A (nat (k sdiv 8)) AND bit_mask k \<noteq> 0)"

subsection \<open>Sector bounds checker\<close>

text \<open>
  Returns \<open>(transfer_sect, trunc_sect)\<close>. The two subtractions are \<^verbatim>\<open>int\<close> subtractions in
  the code and subtractions of integers here: the results are those of the code when
  \<open>total_sectors - offset\<close> and \<open>num_sectors - transfer_sect\<close> are \<^verbatim>\<open>int\<close> values. Likewise
  \<open>total_sectors\<close>, the product \<^verbatim>\<open>cyl * heads * spt\<close> that every read and write function
  stores in an \<^verbatim>\<open>int\<close>, is the value of the code when it is below \<open>2^31\<close>.
\<close>

definition mvhd_check_sectors :: "int \<Rightarrow> int \<Rightarrow> int \<Rightarrow> int \<times> int" where
  "mvhd_check_sectors offset num_sectors total_sectors =
     (if total_sectors - offset < num_sectors
      then (total_sectors - offset, num_sectors - (total_sectors - offset))
      else (num_sectors, 0))"

definition total_sectors :: "MVHDMeta \<Rightarrow> int" where
  "total_sectors vhdm =
     int (cyl (geom (footer vhdm))) * int (heads (geom (footer vhdm))) * int (spt (geom (footer vhdm)))"

subsection \<open>Zero-sector writer\<close>

text \<open>The \<^verbatim>\<open>for\<close> loop of \<^verbatim>\<open>mvhd_write_empty_sectors\<close>, from counter \<open>i\<close>.\<close>

function write_empty_loop :: "FILE \<Rightarrow> int \<Rightarrow> int \<Rightarrow> FILE" where
  "write_empty_loop fl i n =
     (if i < n then write_empty_loop (fwrite (\<lambda>_. 0) 0 (nat MVHD_SECTOR_SIZE) 1 fl) (i + 1) n
      else fl)"
  by pat_completeness auto
termination
  by (relation "measure (\<lambda>(fl, i, n). nat (n - i))") auto

declare write_empty_loop.simps [simp del]

definition mvhd_write_empty_sectors :: "FILE \<Rightarrow> int \<Rightarrow> FILE" where
  "mvhd_write_empty_sectors fl n = write_empty_loop fl 0 n"

subsection \<open>Sector bitmap cache\<close>

definition mvhd_read_sect_bitmap :: "MVHDMeta \<Rightarrow> int \<Rightarrow> MVHDMeta" where
  "mvhd_read_sect_bitmap vhdm blk =
     (let vhdm1 =
        (if block_offset vhdm ! nat blk \<noteq> MVHD_SPARSE_BLK then
           (let fl = fseeko64 (f vhdm)
                       (uint (block_offset vhdm ! nat blk * word_of_int MVHD_SECTOR_SIZE)) SEEK_SET;
                (bm, fl1) = fread (curr_bitmap (bitmap vhdm)) 0
                              (size_t (sector_count (bitmap vhdm) * MVHD_SECTOR_SIZE)) 1 fl
            in vhdm\<lparr>f := fl1, bitmap := (bitmap vhdm)\<lparr>curr_bitmap := bm\<rparr>\<rparr>)
         else
           vhdm\<lparr>bitmap := (bitmap vhdm)\<lparr>curr_bitmap :=
                   memset (curr_bitmap (bitmap vhdm)) 0 0
                     (size_t (sector_count (bitmap vhdm) * MVHD_SECTOR_SIZE))\<rparr>\<rparr>)
      in vhdm1\<lparr>bitmap := (bitmap vhdm1)\<lparr>curr_block := blk\<rparr>\<rparr>)"

definition mvhd_write_curr_sect_bitmap :: "MVHDMeta \<Rightarrow> MVHDMeta" where
  "mvhd_write_curr_sect_bitmap vhdm =
     (if curr_block (bitmap vhdm) \<ge> 0 then
        (let abs_offset = uint (block_offset vhdm ! nat (curr_block (bitmap vhdm))
                                  * word_of_int MVHD_SECTOR_SIZE);
             fl = fseeko64 (f vhdm) abs_offset SEEK_SET
         in vhdm\<lparr>f := fwrite (curr_bitmap (bitmap vhdm)) 0 (nat MVHD_SECTOR_SIZE)
                          (size_t (sector_count (bitmap vhdm))) fl\<rparr>)
      else vhdm)"

subsection \<open>BAT entry writer\<close>

text \<open>
  Modelled from the spec: \<^verbatim>\<open>bswap.h\<close> is not among the sources. \<^verbatim>\<open>cpu_to_be32\<close> followed
  by \<^verbatim>\<open>fwrite\<close> of the four bytes of the result puts the value into the file in "the
  file's required byte order", big-endian: the most significant byte first.
\<close>

definition be32_bytes :: "32 word \<Rightarrow> buffer" where
  "be32_bytes v = (\<lambda>i. ucast (drop_bit (8 * (3 - i)) v))"

definition mvhd_write_bat_entry :: "MVHDMeta \<Rightarrow> int \<Rightarrow> MVHDMeta" where
  "mvhd_write_bat_entry vhdm blk =
     (let table_offset = (bat_offset (sparse vhdm) + size_t blk * 4) mod 2 ^ 64;
          offset = be32_bytes (block_offset vhdm ! nat blk);
          fl = fseeko64 (f vhdm) (int table_offset) SEEK_SET
      in vhdm\<lparr>f := fwrite offset 0 4 1 fl\<rparr>)"

subsection \<open>Block allocator\<close>

text \<open>
  Modelled from the spec: \<^verbatim>\<open>mvhd_is_conectix_str\<close> is declared in \<^verbatim>\<open>minivhd_util.h\<close> and
  its body is not among the sources. The footer is "validated by a magic string": the
  eight bytes that open a VHD footer.
\<close>

definition mvhd_is_conectix_str :: "buffer \<Rightarrow> bool" where
  "mvhd_is_conectix_str buffer = (map buffer [0..<8] = map of_char ''conectix'')"

text \<open>The padding loop of \<^verbatim>\<open>mvhd_create_block\<close>: one zero byte per round.\<close>

function write_padding_loop :: "FILE \<Rightarrow> int \<Rightarrow> int \<Rightarrow> FILE" where
  "write_padding_loop fl i padding_amount =
     (if i < padding_amount then write_padding_loop (fwrite (\<lambda>_. 0) 0 1 1 fl) (i + 1) padding_amount
      else fl)"
  by pat_completeness auto
termination
  by (relation "measure (\<lambda>(fl, i, n). nat (n - i))") auto

declare write_padding_loop.simps [simp del]

text \<open>
  The local array \<^verbatim>\<open>footer\<close> is uninitialised in C; it starts as zeros here. The cast of
  \<^verbatim>\<open>abs_offset / MVHD_SECTOR_SIZE\<close> to \<^verbatim>\<open>int\<close> and the store into the \<^verbatim>\<open>uint32_t\<close> slot
  keep the low 32 bits.
\<close>

definition mvhd_create_block :: "MVHDMeta \<Rightarrow> int \<Rightarrow> MVHDMeta" where
  "mvhd_create_block vhdm blk =
     (let fl0 = fseeko64 (f vhdm) (- MVHD_FOOTER_SIZE) SEEK_END;
          (footer0, fl1) = fread (\<lambda>_. 0) 0 (nat MVHD_FOOTER_SIZE) 1 fl0;
          fl2 = fseeko64 fl1 (- MVHD_FOOTER_SIZE) SEEK_END;
          (footer1, fl3) =
            (if \<not> mvhd_is_conectix_str footer0 then
               (let fla = fseeko64 fl2 0 SEEK_SET;
                    (fb, flb) = fread footer0 0 (nat MVHD_FOOTER_SIZE) 1 fla
                in (fb, fseeko64 flb 0 SEEK_END))
             else (footer0, fl2));
          abs_offset0 = ftello64 fl3;
          (fl4, abs_offset) =
            (if abs_offset0 smod MVHD_SECTOR_SIZE \<noteq> 0 then
               (let padding_amount = MVHD_SECTOR_SIZE - abs_offset0 smod MVHD_SECTOR_SIZE
                in (write_padding_loop fl3 0 padding_amount, abs_offset0 + padding_amount))
             else (fl3, abs_offset0));
          sect_offset = abs_offset sdiv MVHD_SECTOR_SIZE;
          blk_size_sectors = int (block_sz (sparse vhdm) div nat MVHD_SECTOR_SIZE);
          fl5 = mvhd_write_empty_sectors fl4 (sector_count (bitmap vhdm) + blk_size_sectors);
          fl6 = mvhd_write_empty_sectors fl5 5;
          fl7 = fwrite footer1 0 (nat MVHD_FOOTER_SIZE) 1 fl6;
          vhdm1 = vhdm\<lparr>f := fl7,
                       block_offset := (block_offset vhdm)[nat blk := word_of_int sect_offset],
                       alloc_log := alloc_log vhdm @ [blk]\<rparr>
      in mvhd_write_bat_entry vhdm1 blk)"

subsection \<open>Fixed image I/O\<close>

text \<open>
  The buffer argument of the read and write functions is the address \<open>boff\<close> inside
  \<open>buf\<close>. The reads return the handle, the buffer and the truncated-sector count; the
  writes return the handle and the count. The byte count
  \<^verbatim>\<open>transfer_sectors * MVHD_SECTOR_SIZE\<close> is an \<^verbatim>\<open>int\<close> product in the code, converted to
  \<^verbatim>\<open>size_t\<close> for the call: it is the product of the integers here, the value of the code
  for transfer counts from \<open>- 2^22\<close> to below \<open>2^22\<close>.
\<close>

definition mvhd_fixed_read :: "MVHDMeta \<Rightarrow> int \<Rightarrow> int \<Rightarrow> buffer \<Rightarrow> nat \<Rightarrow> MVHDMeta \<times> buffer \<times> int" where
  "mvhd_fixed_read vhdm offset num_sectors buf boff =
     (let (transfer_sectors, truncated_sectors) =
            mvhd_check_sectors offset num_sectors (total_sectors vhdm);
          addr = offset * MVHD_SECTOR_SIZE;
          fl = fseeko64 (f vhdm) addr SEEK_SET;
          (buf1, fl1) = fread buf boff (size_t (transfer_sectors * MVHD_SECTOR_SIZE)) 1 fl
      in (vhdm\<lparr>f := fl1\<rparr>, buf1, truncated_sectors))"

definition mvhd_fixed_write :: "MVHDMeta \<Rightarrow> int \<Rightarrow> int \<Rightarrow> buffer \<Rightarrow> nat \<Rightarrow> MVHDMeta \<times> int" where
  "mvhd_fixed_write vhdm offset num_sectors buf boff =
     (let (transfer_sectors, truncated_sectors) =
            mvhd_check_sectors offset num_sectors (total_sectors vhdm);
          addr = offset * MVHD_SECTOR_SIZE;
          fl = fseeko64 (f vhdm) addr SEEK_SET
      in (vhdm\<lparr>f := fwrite buf boff (size_t (transfer_sectors * MVHD_SECTOR_SIZE)) 1 fl\<rparr>,
          truncated_sectors))"

subsection \<open>Sparse image I/O\<close>

text \<open>
  One round of the \<^verbatim>\<open>for\<close> loop of \<^verbatim>\<open>mvhd_sparse_read\<close> for sector \<open>s\<close>: the handle,
  \<^verbatim>\<open>prev_blk\<close> and the buffer after the round.
\<close>

definition sparse_read_body :: "MVHDMeta \<Rightarrow> int \<Rightarrow> int \<Rightarrow> buffer \<Rightarrow> nat \<Rightarrow> MVHDMeta \<times> int \<times> buffer" where
  "sparse_read_body vhdm s prev_blk buf boff =
     (let blk = s sdiv sect_per_block vhdm;
          sib = s smod sect_per_block vhdm;
          (vhdm1, prev_blk1) =
            (if blk \<noteq> prev_blk then
               (if curr_block (bitmap vhdm) \<noteq> blk then
                  (let v = mvhd_read_sect_bitmap vhdm blk
                   in v\<lparr>f := fseeko64 (f v) (sib * MVHD_SECTOR_SIZE) SEEK_CUR\<rparr>)
                else
                  (let addr = uint (block_offset vhdm ! nat blk
                                      + word_of_int (sector_count (bitmap vhdm))
                                      + word_of_int sib) * MVHD_SECTOR_SIZE
                   in vhdm\<lparr>f := fseeko64 (f vhdm) addr SEEK_SET\<rparr>),
                blk)
             else (vhdm, prev_blk))
      in if VHD_TESTBIT (curr_bitmap (bitmap vhdm1)) sib then
           (let (buf1, fl) = fread buf boff (nat MVHD_SECTOR_SIZE) 1 (f vhdm1)
            in (vhdm1\<lparr>f := fl\<rparr>, prev_blk1, buf1))
         else (vhdm1, prev_blk1, memset buf boff 0 (nat MVHD_SECTOR_SIZE)))"

function sparse_read_loop :: "MVHDMeta \<Rightarrow> int \<Rightarrow> int \<Rightarrow> int \<Rightarrow> buffer \<Rightarrow> nat \<Rightarrow> MVHDMeta \<times> buffer" where
  "sparse_read_loop vhdm s ls prev_blk buf boff =
     (if s < ls then
        (case sparse_read_body vhdm s prev_blk buf boff of
           (vhdm1, prev_blk1, buf1) \<Rightarrow>
             sparse_read_loop vhdm1 (s + 1) ls prev_blk1 buf1 (boff + nat MVHD_SECTOR_SIZE))
      else (vhdm, buf))"
  by pat_completeness auto
termination
  by (relation "measure (\<lambda>(vhdm, s, ls, prev_blk, buf, boff). nat (ls - s))") auto

declare sparse_read_loop.simps [simp del]

definition mvhd_sparse_read :: "MVHDMeta \<Rightarrow> int \<Rightarrow> int \<Rightarrow> buffer \<Rightarrow> nat \<Rightarrow> MVHDMeta \<times> buffer \<times> int" where
  "mvhd_sparse_read vhdm offset num_sectors buf boff =
     (let (transfer_sectors, truncated_sectors) =
            mvhd_check_sectors offset num_sectors (total_sectors vhdm);
          ls = offset + transfer_sectors;
          (vhdm1, buf1) = sparse_read_loop vhdm offset ls (- 1) buf boff
      in (vhdm1, buf1, truncated_sectors))"

text \<open>One round of the \<^verbatim>\<open>for\<close> loop of \<^verbatim>\<open>mvhd_sparse_diff_write\<close> for sector \<open>s\<close>.\<close>

definition sparse_write_body :: "MVHDMeta \<Rightarrow> int \<Rightarrow> int \<Rightarrow> buffer \<Rightarrow> nat \<Rightarrow> MVHDMeta \<times> int" where
  "sparse_write_body vhdm s prev_blk buf boff =
     (let blk = s sdiv sect_per_block vhdm;
          sib = s smod sect_per_block vhdm;
          vhdm1 = (if block_offset vhdm ! nat blk = MVHD_SPARSE_BLK
                   then mvhd_create_block (mvhd_read_sect_bitmap vhdm blk) blk
                   else vhdm);
          (vhdm2, prev_blk1) =
            (if blk \<noteq> prev_blk then
               (if curr_block (bitmap vhdm1) \<noteq> blk then
                  (let v = (if prev_blk \<ge> 0 then mvhd_write_curr_sect_bitmap vhdm1 else vhdm1);
                       v1 = mvhd_read_sect_bitmap v blk
                   in v1\<lparr>f := fseeko64 (f v1) (sib * MVHD_SECTOR_SIZE) SEEK_CUR\<rparr>)
                else
                  (let addr = uint (block_offset vhdm1 ! nat blk
                                      + word_of_int (sector_count (bitmap vhdm1))
                                      + word_of_int sib) * MVHD_SECTOR_SIZE
                   in vhdm1\<lparr>f := fseeko64 (f vhdm1) addr SEEK_SET\<rparr>),
                blk)
             else (vhdm1, prev_blk));
          vhdm3 = vhdm2\<lparr>f := fwrite buf boff (nat MVHD_SECTOR_SIZE) 1 (f vhdm2)\<rparr>
      in (vhdm3\<lparr>bitmap := (bitmap vhdm3)\<lparr>curr_bitmap :=
                   VHD_SETBIT (curr_bitmap (bitmap vhdm3)) sib\<rparr>\<rparr>,
          prev_blk1))"

function sparse_write_loop :: "MVHDMeta \<Rightarrow> int \<Rightarrow> int \<Rightarrow> int \<Rightarrow> buffer \<Rightarrow> nat \<Rightarrow> MVHDMeta" where
  "sparse_write_loop vhdm s ls prev_blk buf boff =
     (if s < ls then
        (case sparse_write_body vhdm s prev_blk buf boff of
           (vhdm1, prev_blk1) \<Rightarrow>
             sparse_write_loop vhdm1 (s + 1) ls prev_blk1 buf (boff + nat MVHD_SECTOR_SIZE))
      else vhdm)"
  by pat_completeness auto
termination
  by (relation "measure (\<lambda>(vhdm, s, ls, prev_blk, buf, boff). nat (ls - s))") auto

declare sparse_write_loop.simps [simp del]

definition mvhd_sparse_diff_write :: "MVHDMeta \<Rightarrow> int \<Rightarrow> int \<Rightarrow> buffer \<Rightarrow> nat \<Rightarrow> MVHDMeta \<times> int" where
  "mvhd_sparse_diff_write vhdm offset num_sectors buf boff =
     (let (transfer_sectors, truncated_sectors) =
            mvhd_check_sectors offset num_sectors (total_sectors vhdm);
          ls = offset + transfer_sectors;
          vhdm1 = sparse_write_loop vhdm offset ls (- 1) buf boff
      in (mvhd_write_curr_sect_bitmap vhdm1, truncated_sectors))"

subsection \<open>Differencing resolver\<close>

text \<open>
  A chain is the list of handles from the target image to the root; \<^verbatim>\<open>curr_vhdm\<close> is
  an index into it and \<^verbatim>\<open>curr_vhdm->parent\<close> the next index. An index beyond the list is
  the null pointer, and dereferencing it is \<open>None\<close>. \<open>diff_walk\<close> is the \<^verbatim>\<open>while\<close> loop
  of \<^verbatim>\<open>mvhd_diff_read\<close>: the chain and the index it stops at.
\<close>

function diff_walk :: "MVHDMeta list \<Rightarrow> nat \<Rightarrow> int \<Rightarrow> (MVHDMeta list \<times> nat) option" where
  "diff_walk chain c s =
     (if c \<ge> length chain then None
      else if disk_type (footer (chain ! c)) = MVHD_TYPE_DIFF then
        (let curr_vhdm = chain ! c;
             blk = s sdiv sect_per_block curr_vhdm;
             sib = s smod sect_per_block curr_vhdm;
             curr1 = (if curr_block (bitmap curr_vhdm) \<noteq> blk
                      then mvhd_read_sect_bitmap curr_vhdm blk else curr_vhdm)
         in if \<not> VHD_TESTBIT (curr_bitmap (bitmap curr1)) sib
            then diff_walk (chain[c := curr1]) (c + 1) s
            else Some (chain[c := curr1], c))
      else Some (chain, c))"
  by pat_completeness auto
termination
  by (relation "measure (\<lambda>(chain, c, s). length chain - c)") auto

declare diff_walk.simps [simp del]

function diff_read_loop :: "MVHDMeta list \<Rightarrow> int \<Rightarrow> int \<Rightarrow> buffer \<Rightarrow> nat \<Rightarrow> (MVHDMeta list \<times> buffer) option" where
  "diff_read_loop chain s ls buf boff =
     (if s < ls then
        (case diff_walk chain 0 s of
           None \<Rightarrow> None
         | Some (chain1, c) \<Rightarrow>
             (case (if disk_type (footer (chain1 ! c)) = MVHD_TYPE_DIFF
                       \<or> disk_type (footer (chain1 ! c)) = MVHD_TYPE_DYNAMIC
                    then mvhd_sparse_read (chain1 ! c) s 1 buf boff
                    else mvhd_fixed_read (chain1 ! c) s 1 buf boff) of
                (curr1, buf1, t) \<Rightarrow>
                  diff_read_loop (chain1[c := curr1]) (s + 1) ls buf1 (boff + nat MVHD_SECTOR_SIZE)))
      else Some (chain, buf))"
  by pat_completeness auto
termination
  by (relation "measure (\<lambda>(chain, s, ls, buf, boff). nat (ls - s))") auto

declare diff_read_loop.simps [simp del]

definition mvhd_diff_read :: "MVHDMeta list \<Rightarrow> int \<Rightarrow> int \<Rightarrow> buffer \<Rightarrow> nat \<Rightarrow> (MVHDMeta list \<times> buffer \<times> int) option" where
  "mvhd_diff_read chain offset num_sectors buf boff =
     (case chain of
        [] \<Rightarrow> None
      | vhdm # ps \<Rightarrow>
          (let (transfer_sectors, truncated_sectors) =
                 mvhd_check_sectors offset num_sectors (total_sectors vhdm);
               ls = offset + transfer_sectors
           in (case diff_read_loop chain offset ls buf boff of
                 None \<Rightarrow> None
               | Some (chain1, buf1) \<Rightarrow> Some (chain1, buf1, truncated_sectors))))"

definition mvhd_noop_write :: "MVHDMeta \<Rightarrow> int \<Rightarrow> int \<Rightarrow> buffer \<Rightarrow> nat \<Rightarrow> MVHDMeta \<times> int" where
  "mvhd_noop_write vhdm offset num_sectors buf boff = (vhdm, 0)"

subsection \<open>Example images\<close>

text \<open>
  A fixed image file of 1000 data sectors and a footer sector, every byte holding the
  number of its sector (modulo 256), under a geometry given by the caller.
\<close>

definition fixed_image :: "nat \<Rightarrow> nat \<Rightarrow> nat \<Rightarrow> MVHDMeta" where
  "fixed_image c h s =
     \<lparr>f = \<lparr>content = (\<lambda>i. of_nat (i div 512)), fsize = 512512, fpos = 0\<rparr>,
      footer = \<lparr>geom = \<lparr>cyl = c, heads = h, spt = s\<rparr>, disk_type = MVHD_TYPE_FIXED\<rparr>,
      sparse = \<lparr>bat_offset = 0, block_sz = 0\<rparr>,
      block_offset = [],
      sect_per_block = 0,
      bitmap = \<lparr>curr_bitmap = (\<lambda>_. 0), sector_count = 0, curr_block = - 1\<rparr>,
      alloc_log = []\<rparr>"

subsection \<open>Notions used in the statements about the block allocator\<close>

text \<open>
  The last and the first 512 bytes of a file, as buffers; the offset at which
  \<^verbatim>\<open>mvhd_create_block\<close> starts to append (the start of the trailing footer when it is
  valid, the end of the file otherwise) with the footer bytes it keeps; and the number of
  bytes up to the next sector boundary.
\<close>

definition file_tail :: "FILE \<Rightarrow> buffer" where
  "file_tail fl = (\<lambda>i. if i < 512 then content fl (fsize fl - 512 + i) else 0)"

definition file_head :: "FILE \<Rightarrow> buffer" where
  "file_head fl = (\<lambda>i. if i < 512 then content fl i else 0)"

definition append_offset :: "FILE \<Rightarrow> nat" where
  "append_offset fl = (if mvhd_is_conectix_str (file_tail fl) then fsize fl - 512 else fsize fl)"

definition kept_footer :: "FILE \<Rightarrow> buffer" where
  "kept_footer fl = (if mvhd_is_conectix_str (file_tail fl) then file_tail fl else file_head fl)"

definition pad_to_sector :: "nat \<Rightarrow> nat" where
  "pad_to_sector e = (512 - e mod 512) mod 512"


text \<open>
  An empty dynamic image as the spec's scenario has it: 512-byte sectors, blocks of 4096
  sectors (a bitmap of one sector), 8192 sectors in all, a BAT of two unallocated entries
  at offset 1536, and a footer with its copy at the start of the file.
\<close>

definition empty_sparse_image :: MVHDMeta where
  "empty_sparse_image =
     \<lparr>f = \<lparr>content = (\<lambda>i. if i < 8 then of_char (''conectix'' ! i)
                            else if 1536 \<le> i \<and> i < 2048 then 0xFF
                            else if 2048 \<le> i \<and> i < 2056 then of_char (''conectix'' ! (i - 2048))
                            else 0),
           fsize = 2560, fpos = 0\<rparr>,
      footer = \<lparr>geom = \<lparr>cyl = 128, heads = 4, spt = 16\<rparr>, disk_type = MVHD_TYPE_DYNAMIC\<rparr>,
      sparse = \<lparr>bat_offset = 1536, block_sz = 2097152\<rparr>,
      block_offset = [MVHD_SPARSE_BLK, MVHD_SPARSE_BLK],
      sect_per_block = 4096,
      bitmap = \<lparr>curr_bitmap = (\<lambda>_. 0), sector_count = 1, curr_block = - 1\<rparr>,
      alloc_log = []\<rparr>"

subsection \<open>Notions used in the statements about sparse images\<close>

text \<open>
  \<open>same_image\<close>: two handles agree on everything but the file position and the bitmap
  cache (the file bytes, the BAT, the geometry and the sizes are the same).
  \<open>bitmap_zero\<close>: the cached bitmap is all zero. \<open>bitmap_fits\<close>: the bitmap buffer of
  \<open>sector_count\<close> sectors has a bit for every sector of a block. \<open>all_unallocated\<close>:
  the BAT covers the capacity and every entry is the sentinel, as in a fresh image.
\<close>

definition same_image :: "MVHDMeta \<Rightarrow> MVHDMeta \<Rightarrow> bool" where
  "same_image v vhdm \<longleftrightarrow>
     content (f v) = content (f vhdm) \<and> fsize (f v) = fsize (f vhdm) \<and>
     block_offset v = block_offset vhdm \<and> sect_per_block v = sect_per_block vhdm \<and>
     sector_count (bitmap v) = sector_count (bitmap vhdm) \<and>
     footer v = footer vhdm \<and> sparse v = sparse vhdm \<and> alloc_log v = alloc_log vhdm"

definition bitmap_zero :: "MVHDMeta \<Rightarrow> bool" where
  "bitmap_zero vhdm \<longleftrightarrow>
     (\<forall>i < nat (sector_count (bitmap vhdm)) * 512. curr_bitmap (bitmap vhdm) i = 0)"

definition bitmap_fits :: "MVHDMeta \<Rightarrow> bool" where
  "bitmap_fits vhdm \<longleftrightarrow>
     0 < sect_per_block vhdm \<and> 0 \<le> sector_count (bitmap vhdm) \<and>
     sector_count (bitmap vhdm) < 2 ^ 22 \<and>
     sect_per_block vhdm \<le> sector_count (bitmap vhdm) * 4096"


definition all_unallocated :: "MVHDMeta \<Rightarrow> bool" where
  "all_unallocated vhdm \<longleftrightarrow>
     (\<forall>b < length (block_offset vhdm). block_offset vhdm ! b = MVHD_SPARSE_BLK) \<and>
     total_sectors vhdm \<le> int (length (block_offset vhdm)) * sect_per_block vhdm"

subsection \<open>Notions used in the statements about allocation\<close>

text \<open>
  \<open>write_frame\<close>: what no step of a write changes (geometry, sizes, length of the BAT),
  the file never getting shorter. \<open>log_ok\<close>: no block occurs twice in the history of
  allocator calls, and every block in it has an entry other than the sentinel.
  \<open>after_alloc\<close>: the handle after the first statement of the write loop's body, the
  allocation of the block of sector \<open>s\<close> when its entry is the sentinel.
\<close>

definition write_frame :: "MVHDMeta \<Rightarrow> MVHDMeta \<Rightarrow> bool" where
  "write_frame vhdm v \<longleftrightarrow>
     sect_per_block v = sect_per_block vhdm \<and>
     sector_count (bitmap v) = sector_count (bitmap vhdm) \<and>
     footer v = footer vhdm \<and> sparse v = sparse vhdm \<and>
     length (block_offset v) = length (block_offset vhdm) \<and>
     fsize (f vhdm) \<le> fsize (f v)"

definition log_ok :: "MVHDMeta \<Rightarrow> bool" where
  "log_ok vhdm \<longleftrightarrow>
     distinct (alloc_log vhdm) \<and>
     (\<forall>b \<in> set (alloc_log vhdm). 0 \<le> b \<and> nat b < length (block_offset vhdm) \<and>
        block_offset vhdm ! nat b \<noteq> MVHD_SPARSE_BLK)"


definition after_alloc :: "MVHDMeta \<Rightarrow> int \<Rightarrow> MVHDMeta" where
  "after_alloc vhdm s =
     (let blk = s sdiv sect_per_block vhdm
      in if block_offset vhdm ! nat blk = MVHD_SPARSE_BLK
         then mvhd_create_block (mvhd_read_sect_bitmap vhdm blk) blk
         else vhdm)"

subsection \<open>The boundary-crossing scenario\<close>

text \<open>
  The spec's scenario on the empty dynamic image: three sectors of data (sector \<open>k\<close> of
  the buffer holds the byte \<open>k + 1\<close>) are written at sectors 4095 to 4097, across the
  boundary between blocks 0 and 1, and read back into a buffer of \<open>0xFF\<close> bytes; then
  sector 0 is written, which revisits block 0. The handles after each round of the loops
  have names (\<open>scn_c1\<close> and \<open>scn_c2\<close> after the two allocations, \<open>scn1\<close> to \<open>scn4\<close> after
  the write rounds, \<open>rd1\<close> and \<open>rd2\<close> after the read rounds).
\<close>

definition scenario_data :: buffer where
  "scenario_data = (\<lambda>i. of_nat (i div 512) + 1)"

definition scn_c1 :: MVHDMeta where
  "scn_c1 = mvhd_create_block (mvhd_read_sect_bitmap empty_sparse_image 0) 0"

definition scn1 :: MVHDMeta where
  "scn1 = fst (sparse_write_body empty_sparse_image 4095 (- 1) scenario_data 0)"

definition scn_c2 :: MVHDMeta where
  "scn_c2 = mvhd_create_block (mvhd_read_sect_bitmap scn1 1) 1"

definition scn2 :: MVHDMeta where
  "scn2 = fst (sparse_write_body scn1 4096 0 scenario_data 512)"

definition scn3 :: MVHDMeta where
  "scn3 = fst (sparse_write_body scn2 4097 1 scenario_data 1024)"

definition written_image :: MVHDMeta where
  "written_image = fst (mvhd_sparse_diff_write empty_sparse_image 4095 3 scenario_data 0)"

definition scn_out :: buffer where
  "scn_out = (\<lambda>_. 0xFF)"

definition rd1 :: MVHDMeta where
  "rd1 = fst (sparse_read_body written_image 4095 (- 1) scn_out 0)"

definition rd2 :: MVHDMeta where
  "rd2 = fst (sparse_read_body rd1 4096 0 (memset scn_out 0 0 512) 512)"

definition scn_out2 :: buffer where
  "scn_out2 = fst (fread (memset scn_out 0 0 512) 512 512 1
                     ((f (mvhd_read_sect_bitmap rd1 1))\<lparr>fpos := 2102784\<rparr>))"

definition scn_out3 :: buffer where
  "scn_out3 = fst (fread scn_out2 1024 512 1 (f rd2))"

definition scn4 :: MVHDMeta where
  "scn4 = fst (sparse_write_body written_image 0 (- 1) scenario_data 0)"

definition revisited_image :: MVHDMeta where
  "revisited_image = fst (mvhd_sparse_diff_write written_image 0 1 scenario_data 0)"

subsection \<open>Notions used in the statements about differencing chains\<close>

text \<open>
  What an image file holds for sector \<open>s\<close>, read off the file and the BAT alone:
  \<open>bitmap_base\<close> is the byte offset of the bitmap of the block of \<open>s\<close>, \<open>disk_bit\<close> says
  that the block is allocated and the bit of \<open>s\<close> is set in the bitmap on disk,
  \<open>stored_sector\<close> is the sector of the data region of that block, and \<open>flat_sector\<close> is
  the sector of a fixed image, which has neither BAT nor bitmap.
\<close>

definition bitmap_base :: "MVHDMeta \<Rightarrow> int \<Rightarrow> nat" where
  "bitmap_base img s = unat (block_offset img ! nat (s div sect_per_block img)) * 512"

definition disk_bit :: "MVHDMeta \<Rightarrow> int \<Rightarrow> bool" where
  "disk_bit img s \<longleftrightarrow>
     block_offset img ! nat (s div sect_per_block img) \<noteq> MVHD_SPARSE_BLK \<and>
     VHD_TESTBIT (\<lambda>j. content (f img) (bitmap_base img s + j)) (s mod sect_per_block img)"

definition stored_sector :: "MVHDMeta \<Rightarrow> int \<Rightarrow> buffer" where
  "stored_sector img s =
     (\<lambda>j. content (f img)
            (bitmap_base img s + (nat (sector_count (bitmap img)) + nat (s mod sect_per_block img)) * 512 + j))"

definition flat_sector :: "MVHDMeta \<Rightarrow> int \<Rightarrow> buffer" where
  "flat_sector img s = (\<lambda>j. content (f img) (nat s * 512 + j))"

text \<open>
  Well-formed handles. \<open>cache_coherent\<close>: the cached bitmap, when it is the bitmap of a
  block, holds what the file holds for that block (zeros for an unallocated block).
  \<open>readable\<close>: a sparse or differencing image whose capacity is an \<^verbatim>\<open>int\<close> value and whose
  blocks have at most \<open>2^22\<close> sectors (the byte offset of a sector inside its block is an
  \<^verbatim>\<open>int\<close> product), whose BAT covers the capacity, whose allocated blocks lie inside the file, and
  whose file is no longer than \<open>2^32\<close> bytes, the range in which the 32-bit product of
  \<^verbatim>\<open>mvhd_read_sect_bitmap\<close> is the byte offset of the bitmap. \<open>fixed_ok\<close>: the file of a
  fixed image holds the whole capacity. \<open>chain_ok\<close>: a non-empty chain of well-formed
  images, all differencing but the root.
\<close>

definition cache_coherent :: "MVHDMeta \<Rightarrow> bool" where
  "cache_coherent img \<longleftrightarrow>
     (0 \<le> curr_block (bitmap img) \<longrightarrow>
        nat (curr_block (bitmap img)) < length (block_offset img) \<and>
        (\<forall>j < nat (sector_count (bitmap img)) * 512.
           curr_bitmap (bitmap img) j =
             (if block_offset img ! nat (curr_block (bitmap img)) = MVHD_SPARSE_BLK then 0
              else content (f img) (unat (block_offset img ! nat (curr_block (bitmap img))) * 512 + j))))"

definition readable :: "MVHDMeta \<Rightarrow> bool" where
  "readable img \<longleftrightarrow>
     bitmap_fits img \<and>
     total_sectors img < 2 ^ 31 \<and> sect_per_block img \<le> 2 ^ 22 \<and>
     total_sectors img \<le> int (length (block_offset img)) * sect_per_block img \<and>
     fsize (f img) \<le> 2 ^ 32 \<and>
     (\<forall>b < length (block_offset img). block_offset img ! b \<noteq> MVHD_SPARSE_BLK \<longrightarrow>
        (unat (block_offset img ! b) + nat (sector_count (bitmap img)) + nat (sect_per_block img)) * 512
          \<le> fsize (f img)) \<and>
     cache_coherent img"

definition fixed_ok :: "MVHDMeta \<Rightarrow> bool" where
  "fixed_ok img \<longleftrightarrow>
     total_sectors img * 512 \<le> int (fsize (f img)) \<and> total_sectors img < 2 ^ 31"

definition image_ok :: "MVHDMeta \<Rightarrow> bool" where
  "image_ok img \<longleftrightarrow>
     (if disk_type (footer img) = MVHD_TYPE_FIXED then fixed_ok img else readable img)"

definition chain_ok :: "MVHDMeta list \<Rightarrow> bool" where
  "chain_ok chain \<longleftrightarrow>
     chain \<noteq> [] \<and> (\<forall>img \<in> set chain. image_ok img) \<and>
     (\<forall>img \<in> set (butlast chain). disk_type (footer img) = MVHD_TYPE_DIFF) \<and>
     disk_type (footer (last chain)) \<noteq> MVHD_TYPE_DIFF"

text \<open>
  The sector that the differencing-chain property of the spec prescribes for a chain,
  following the words of the spec rather than the code: the stored bytes of the first
  image, from the child on, that has the bit of the sector set; the sector of the flat
  file when the walk reaches a fixed image; zero bytes when it ends at a sparse image
  with the bit unset.
\<close>

fun chain_sector :: "MVHDMeta list \<Rightarrow> int \<Rightarrow> buffer" where
  "chain_sector [] s = (\<lambda>j. 0)"
| "chain_sector (img # parents) s =
     (if disk_type (footer img) = MVHD_TYPE_FIXED then flat_sector img s
      else if disk_bit img s then stored_sector img s
      else if disk_type (footer img) = MVHD_TYPE_DIFF then chain_sector parents s
      else (\<lambda>j. 0))"

text \<open>
  An example chain. \<open>diff_image m v\<close> is a differencing image of 1000 sectors with one
  block, allocated at sector 4: \<open>m\<close> is the first byte of its bitmap and every byte of
  its data region is \<open>v\<close>. In \<open>diff_chain\<close> the child holds sector 0 only, its parent
  holds sector 1 only, and the root is the fixed image.
\<close>

definition diff_image :: "byte \<Rightarrow> byte \<Rightarrow> MVHDMeta" where
  "diff_image m v =
     \<lparr>f = \<lparr>content = (\<lambda>i. if i = 2048 then m else if 2560 \<le> i then v else 0),
           fsize = 2100224, fpos = 0\<rparr>,
      footer = \<lparr>geom = \<lparr>cyl = 10, heads = 10, spt = 10\<rparr>, disk_type = MVHD_TYPE_DIFF\<rparr>,
      sparse = \<lparr>bat_offset = 1536, block_sz = 2097152\<rparr>,
      block_offset = [4],
      sect_per_block = 4096,
      bitmap = \<lparr>curr_bitmap = (\<lambda>_. 0), sector_count = 1, curr_block = - 1\<rparr>,
      alloc_log = []\<rparr>"

definition diff_chain :: "MVHDMeta list" where
  "diff_chain = [diff_image 0x80 0xAA, diff_image 0x40 0xBB, fixed_image 10 10 10]"

text \<open>
  A chain whose child has its only block beyond 4 GiB. \<open>far_diff_image\<close> is a
  differencing image of 1000 sectors whose block starts at sector
  \<open>8388612 = 2^23 + 4\<close>, that is at byte \<open>4294969344 = 2^32 + 2048\<close>: the first byte of its
  bitmap is \<open>0x40\<close> (the bit of sector 1), every byte of its data region is \<open>0xAA\<close>, and
  the file is zero below the block. Its parent is the fixed image.
\<close>

definition far_diff_image :: MVHDMeta where
  "far_diff_image =
     \<lparr>f = \<lparr>content = (\<lambda>i. if i = 4294969344 then 0x40 else if 4294969856 \<le> i then 0xAA else 0),
           fsize = 4297067520, fpos = 0\<rparr>,
      footer = \<lparr>geom = \<lparr>cyl = 10, heads = 10, spt = 10\<rparr>, disk_type = MVHD_TYPE_DIFF\<rparr>,
      sparse = \<lparr>bat_offset = 1536, block_sz = 2097152\<rparr>,
      block_offset = [8388612],
      sect_per_block = 4096,
      bitmap = \<lparr>curr_bitmap = (\<lambda>_. 0), sector_count = 1, curr_block = - 1\<rparr>,
      alloc_log = []\<rparr>"

definition far_chain :: "MVHDMeta list" where
  "far_chain = [far_diff_image, fixed_image 10 10 10]"

section \<open>Properties\<close>

text \<open>
  C5. Bounds checker law, for \<^verbatim>\<open>int\<close> arguments whose difference \<open>total - offset\<close> is an
  \<^verbatim>\<open>int\<close> again (the subtraction of the code does not overflow): whenever
  \<open>offset \<le> total\<close>, the transferable and truncated counts add up to the requested
  count, the transferable count is at most \<open>total - offset\<close>, and the truncated count is
  zero when the request was not clamped (the transferable count equals the request).
  Both results are \<^verbatim>\<open>int\<close> values, so the second subtraction of the code does not
  overflow either. The function is total: it has no failure case.
\<close>

theorem check_sectors_law:
  assumes "is_int off" "is_int num" "is_int tot"
      and "off \<le> tot" and "is_int (tot - off)"
  shows "case mvhd_check_sectors off num tot of (transfer, truncated) \<Rightarrow>
           transfer + truncated = num \<and> transfer \<le> tot - off \<and>
           (transfer = num \<longrightarrow> truncated = 0) \<and>
           (num \<le> tot - off \<longrightarrow> transfer = num \<and> truncated = 0) \<and>
           is_int transfer \<and> is_int truncated"
  using assms by (simp add: mvhd_check_sectors_def is_int_def)

theorem check_sectors_law_witness:
  "is_int 995 \<and> is_int 10 \<and> is_int 1000 \<and> (995::int) \<le> 1000 \<and> is_int (1000 - 995) \<and>
   mvhd_check_sectors 995 10 1000 = (5, 5) \<and>
   (case mvhd_check_sectors 995 10 1000 of (transfer, truncated) \<Rightarrow>
        transfer + truncated = 10 \<and> transfer \<le> 1000 - 995 \<and>
        (transfer = 10 \<longrightarrow> truncated = 0) \<and>
        (10 \<le> (1000::int) - 995 \<longrightarrow> transfer = 10 \<and> truncated = 0) \<and>
        is_int transfer \<and> is_int truncated)"
  using check_sectors_law [of 995 10 1000] by (simp add: mvhd_check_sectors_def is_int_def)

subsection \<open>The stdio stream\<close>

declare MVHD_SECTOR_SIZE_def [simp] MVHD_FOOTER_SIZE_def [simp]

lemma fread_served [simp]:
  "sz * n \<le> SSIZE_MAX \<Longrightarrow> fread buf boff sz n fl = stream_read buf boff sz n fl"
  by (simp add: fread_def)

lemma fwrite_served [simp]:
  "sz * n \<le> SSIZE_MAX \<Longrightarrow> fwrite buf boff sz n fl = stream_write buf boff sz n fl"
  by (simp add: fwrite_def)


lemma fwrite_refused: "SSIZE_MAX < sz * n \<Longrightarrow> fwrite buf boff sz n fl = fl"
  by (simp add: fwrite_def)

declare SSIZE_MAX_def [simp]

lemma fseeko64_simps [simp]:
  "content (fseeko64 fl off w) = content fl"
  "fsize (fseeko64 fl off w) = fsize fl"
  by (simp_all add: fseeko64_def Let_def)

lemma fpos_fseeko64_SET [simp]: "0 \<le> off \<Longrightarrow> fpos (fseeko64 fl off SEEK_SET) = nat off"
  by (simp add: fseeko64_def)

lemma fpos_fseeko64_CUR [simp]: "0 \<le> off \<Longrightarrow> fpos (fseeko64 fl off SEEK_CUR) = fpos fl + nat off"
  by (simp add: fseeko64_def Let_def nat_add_distrib)

lemma fpos_fseeko64_END: "0 \<le> int (fsize fl) + off \<Longrightarrow> fpos (fseeko64 fl off SEEK_END) = nat (int (fsize fl) + off)"
  by (simp add: fseeko64_def Let_def)

lemma fwrite_zero_norm: "stream_write (\<lambda>_. 0) boff sz n fl = stream_write (\<lambda>_. 0) 0 (Suc 0) (sz * n) fl"
  by (simp add: stream_write_def)

lemma fwrite_zero_twice:
  "stream_write (\<lambda>_. 0) 0 (Suc 0) b (stream_write (\<lambda>_. 0) 0 (Suc 0) a fl) = stream_write (\<lambda>_. 0) 0 (Suc 0) (a + b) fl"
  by (auto simp: stream_write_def Let_def fun_eq_iff max_def)

lemma write_empty_loop_eq:
  "write_empty_loop fl i n = stream_write (\<lambda>_. 0) 0 (Suc 0) (512 * nat (n - i)) fl"
proof (induction fl i n rule: write_empty_loop.induct)
  case (1 fl i n)
  show ?case
  proof (cases "i < n")
    case True
    have "nat (n - i) = Suc (nat (n - (i + 1)))" using True by simp
    then show ?thesis
      using 1 True
      by (subst write_empty_loop.simps)
         (simp add: MVHD_SECTOR_SIZE_def fwrite_zero_norm [of 0 512] fwrite_zero_twice)
  next
    case False
    then show ?thesis by (subst write_empty_loop.simps) (simp add: stream_write_def)
  qed
qed

lemma write_padding_loop_eq:
  "write_padding_loop fl i n = stream_write (\<lambda>_. 0) 0 (Suc 0) (nat (n - i)) fl"
proof (induction fl i n rule: write_padding_loop.induct)
  case (1 fl i n)
  show ?case
  proof (cases "i < n")
    case True
    have "nat (n - i) = Suc (nat (n - (i + 1)))" using True by simp
    then show ?thesis
      using 1 True
      by (subst write_padding_loop.simps) (simp add: fwrite_zero_twice)
  next
    case False
    then show ?thesis by (subst write_padding_loop.simps) (simp add: stream_write_def)
  qed
qed

lemma fseeko64_SET: "0 \<le> off \<Longrightarrow> fseeko64 fl off SEEK_SET = fl\<lparr>fpos := nat off\<rparr>"
  by (simp add: fseeko64_def)

lemma fseeko64_CUR: "0 \<le> off \<Longrightarrow> fseeko64 fl off SEEK_CUR = fl\<lparr>fpos := fpos fl + nat off\<rparr>"
  by (simp add: fseeko64_def Let_def nat_add_distrib)

lemma fread_inside:
  "fpos fl + sz * n \<le> fsize fl \<Longrightarrow>
   stream_read buf boff sz n fl =
     (\<lambda>i. if boff \<le> i \<and> i < boff + sz * n then content fl (fpos fl + (i - boff)) else buf i,
      fl\<lparr>fpos := fpos fl + sz * n\<rparr>)"
proof -
  assume "fpos fl + sz * n \<le> fsize fl"
  then have "min (sz * n) (fsize fl - fpos fl) = sz * n" by arith
  then show ?thesis by (simp add: stream_read_def Let_def)
qed

lemma fwrite_inside:
  "fpos fl + sz * n \<le> fsize fl \<Longrightarrow>
   stream_write buf boff sz n fl =
     fl\<lparr>content := (\<lambda>i. if fpos fl \<le> i \<and> i < fpos fl + sz * n then buf (boff + (i - fpos fl))
                        else content fl i),
        fpos := fpos fl + sz * n\<rparr>"
  by (auto simp: stream_write_def Let_def max_def fun_eq_iff intro!: FILE.equality)

lemma size_t_id: "0 \<le> x \<Longrightarrow> x < 2 ^ 64 \<Longrightarrow> size_t x = nat x"
  by (simp add: size_t_def)

subsection \<open>Loops that do not run\<close>

lemma sparse_read_loop_done: "\<not> s < ls \<Longrightarrow> sparse_read_loop vhdm s ls p buf boff = (vhdm, buf)"
  by (subst sparse_read_loop.simps) simp

lemma sparse_write_loop_done: "\<not> s < ls \<Longrightarrow> sparse_write_loop vhdm s ls p buf boff = vhdm"
  by (subst sparse_write_loop.simps) simp

lemma diff_read_loop_done: "\<not> s < ls \<Longrightarrow> diff_read_loop chain s ls buf boff = Some (chain, buf)"
  by (subst diff_read_loop.simps) simp



subsection \<open>Requests that start beyond the capacity\<close>



subsection \<open>Fixed image I/O\<close>

text \<open>
  C7, as stated, fails for a request with a negative offset. On the fixed image of
  \<open>10 * 10 * 10 = 1000\<close> sectors, after a read of sector 5 has left the position at byte
  3072, the request to read one sector at offset \<open>-1\<close> is not clamped (transfer count 1,
  truncated count 0) and the seek to byte \<open>-512\<close> fails, so the sector is transferred all
  the same, from byte 3072 (the bytes of sector 6) and not from byte
  \<open>offset * 512\<close>, and the call returns 0.
\<close>

theorem fixed_read_negative_offset_counterexample:
  "mvhd_check_sectors (- 1) 1 (total_sectors (fixed_image 10 10 10)) = (1, 0) \<and>
   (case mvhd_fixed_read (fixed_image 10 10 10) 5 1 (\<lambda>_. 0xFF) 0 of
      (v1, buf1, t1) \<Rightarrow>
        t1 = 0 \<and> buf1 0 = 5 \<and> fpos (f v1) = 3072 \<and>
        (case mvhd_fixed_read v1 (- 1) 1 (\<lambda>_. 0xFF) 0 of
           (v2, buf2, t2) \<Rightarrow>
             t2 = 0 \<and> buf2 0 = 6 \<and> buf2 511 = 6 \<and> buf2 512 = 0xFF \<and> fpos (f v2) = 3584))"
  by (simp add: mvhd_fixed_read_def fixed_image_def total_sectors_def mvhd_check_sectors_def
        size_t_def stream_read_def fseeko64_def Let_def MVHD_SECTOR_SIZE_def)

lemma fixed_io_effect:
  assumes off: "0 \<le> off" "off \<le> total_sectors vhdm"
      and num: "0 \<le> num" "num < 2 ^ 31"
      and fl: "total_sectors vhdm * 512 \<le> int (fsize (f vhdm))" "total_sectors vhdm < 2 ^ 31"
      and bytes: "min num (total_sectors vhdm - off) < 2 ^ 22"
  shows "case mvhd_check_sectors off num (total_sectors vhdm) of
           (transfer, truncated) \<Rightarrow>
             transfer = min num (total_sectors vhdm - off) \<and> truncated = num - transfer \<and>
             mvhd_fixed_read vhdm off num buf boff =
               (vhdm\<lparr>f := (f vhdm)\<lparr>fpos := nat ((off + transfer) * 512)\<rparr>\<rparr>,
                (\<lambda>i. if boff \<le> i \<and> i < boff + nat (transfer * 512)
                      then content (f vhdm) (nat (off * 512) + (i - boff)) else buf i),
                truncated) \<and>
             mvhd_fixed_write vhdm off num buf boff =
               (vhdm\<lparr>f := (f vhdm)\<lparr>content :=
                          (\<lambda>i. if nat (off * 512) \<le> i \<and> i < nat ((off + transfer) * 512)
                                then buf (boff + (i - nat (off * 512))) else content (f vhdm) i),
                        fpos := nat ((off + transfer) * 512)\<rparr>\<rparr>,
                truncated)"
proof -
  obtain t u where c: "mvhd_check_sectors off num (total_sectors vhdm) = (t, u)"
    by (cases "mvhd_check_sectors off num (total_sectors vhdm)")
  have t: "t = min num (total_sectors vhdm - off)" "u = num - t" "0 \<le> t"
    using c off num by (auto simp: mvhd_check_sectors_def split: if_splits)
  have tb: "t * 512 < 2 ^ 31" using t(1) bytes by simp
  have sz: "size_t (t * MVHD_SECTOR_SIZE) = nat (t * 512)"
    using t(3) tb by (simp add: size_t_id MVHD_SECTOR_SIZE_def)
  have small: "nat (t * 512) * 1 \<le> SSIZE_MAX" using tb by simp
  have "off + t \<le> total_sectors vhdm" using t(1) by simp
  then have inside: "nat (off * 512) + nat (t * 512) \<le> fsize (f vhdm)"
    using t(3) off(1) fl(1) by linarith
  have pos: "nat (off * 512) + nat (t * 512) = nat ((off + t) * 512)"
    using t(3) off(1) by (simp add: nat_add_distrib algebra_simps)
  have sk: "fseeko64 (f vhdm) (off * MVHD_SECTOR_SIZE) SEEK_SET = (f vhdm)\<lparr>fpos := nat (off * 512)\<rparr>"
    using off(1) by (simp add: fseeko64_SET MVHD_SECTOR_SIZE_def)
  have rd: "mvhd_fixed_read vhdm off num buf boff =
               (vhdm\<lparr>f := (f vhdm)\<lparr>fpos := nat ((off + t) * 512)\<rparr>\<rparr>,
                (\<lambda>i. if boff \<le> i \<and> i < boff + nat (t * 512)
                      then content (f vhdm) (nat (off * 512) + (i - boff)) else buf i), u)"
    unfolding mvhd_fixed_read_def c Let_def prod.case sk sz fread_served [OF small]
    using inside by (subst fread_inside) (simp_all add: pos cong: if_cong)
  have wr: "mvhd_fixed_write vhdm off num buf boff =
               (vhdm\<lparr>f := (f vhdm)\<lparr>content :=
                          (\<lambda>i. if nat (off * 512) \<le> i \<and> i < nat ((off + t) * 512)
                                then buf (boff + (i - nat (off * 512))) else content (f vhdm) i),
                        fpos := nat ((off + t) * 512)\<rparr>\<rparr>, u)"
    unfolding mvhd_fixed_write_def c Let_def prod.case sk sz fwrite_served [OF small]
    using inside by (subst fwrite_inside) (simp_all add: pos cong: if_cong)
  show ?thesis unfolding c using t(1,2) rd wr by simp
qed

text \<open>
  C7, amended. For every request with \<open>0 \<le> offset \<le> total_sectors\<close> and a count that is
  not negative, on a file that holds the \<open>total_sectors\<close> sectors of the geometry, the
  count and the capacity being \<^verbatim>\<open>int\<close> values and the clamped count below \<open>2^22\<close> sectors
  (so that the byte count \<open>transfer * 512\<close> of the code is an \<^verbatim>\<open>int\<close>): \<^verbatim>\<open>mvhd_fixed_read\<close>
  and \<^verbatim>\<open>mvhd_fixed_write\<close> clamp the request with the bounds checker
  (\<open>transfer = min count (total - offset)\<close>), transfer exactly the bytes of the
  \<open>transfer\<close> sectors that start at byte \<open>offset * 512\<close> of the file, to or from the
  start of the buffer, leave every other byte alone, and return
  \<open>count - transfer\<close>, which is 0 when the request fits.
\<close>

theorem fixed_io_clamped:
  assumes off: "0 \<le> off" "off \<le> total_sectors vhdm"
      and num: "0 \<le> num" "num < 2 ^ 31"
      and fl: "total_sectors vhdm * 512 \<le> int (fsize (f vhdm))" "total_sectors vhdm < 2 ^ 31"
      and bytes: "min num (total_sectors vhdm - off) < 2 ^ 22"
  shows "case mvhd_check_sectors off num (total_sectors vhdm) of
           (transfer, truncated) \<Rightarrow>
             transfer = min num (total_sectors vhdm - off) \<and> truncated = num - transfer \<and>
             mvhd_fixed_read vhdm off num buf boff =
               (vhdm\<lparr>f := (f vhdm)\<lparr>fpos := nat ((off + transfer) * 512)\<rparr>\<rparr>,
                (\<lambda>i. if boff \<le> i \<and> i < boff + nat (transfer * 512)
                      then content (f vhdm) (nat (off * 512) + (i - boff)) else buf i),
                truncated) \<and>
             mvhd_fixed_write vhdm off num buf boff =
               (vhdm\<lparr>f := (f vhdm)\<lparr>content :=
                          (\<lambda>i. if nat (off * 512) \<le> i \<and> i < nat ((off + transfer) * 512)
                                then buf (boff + (i - nat (off * 512))) else content (f vhdm) i),
                        fpos := nat ((off + transfer) * 512)\<rparr>\<rparr>,
                truncated)"
  using assms by (rule fixed_io_effect)

theorem fixed_io_clamped_witness:
  "(0::int) \<le> 995 \<and> 995 \<le> total_sectors (fixed_image 10 10 10) \<and>
   total_sectors (fixed_image 10 10 10) = 1000 \<and>
   mvhd_check_sectors 995 10 (total_sectors (fixed_image 10 10 10)) = (5, 5) \<and>
   snd (snd (mvhd_fixed_read (fixed_image 10 10 10) 995 10 (\<lambda>_. 0xFF) 0)) = 5 \<and>
   fst (snd (mvhd_fixed_read (fixed_image 10 10 10) 995 10 (\<lambda>_. 0xFF) 0)) =
     (\<lambda>i. if i < 2560 then content (f (fixed_image 10 10 10)) (509440 + i) else 0xFF) \<and>
   snd (mvhd_fixed_write (fixed_image 10 10 10) 995 10 (\<lambda>_. 0xFF) 0) = 5"
proof -
  have t: "total_sectors (fixed_image 10 10 10) = 1000"
    by (simp add: total_sectors_def fixed_image_def)
  have c: "mvhd_check_sectors 995 10 1000 = (5, 5)"
    by (simp add: mvhd_check_sectors_def)
  have s: "fsize (f (fixed_image 10 10 10)) = 512512"
    by (simp add: fixed_image_def)
  show ?thesis
    using fixed_io_clamped [of 995 "fixed_image 10 10 10" 10 "\<lambda>_. 0xFF" 0]
    by (simp add: t c s cong: if_cong)
qed

subsection \<open>The bitmap cache and the loops, one step at a time\<close>

lemma sdiv_nonneg: "0 \<le> a \<Longrightarrow> 0 < b \<Longrightarrow> (a::int) sdiv b = a div b"
  by (simp add: signed_divide_int_def sgn_if)

lemma smod_nonneg: "0 \<le> a \<Longrightarrow> 0 < b \<Longrightarrow> (a::int) smod b = a mod b"
  by (cases "a = 0") (simp_all add: signed_modulo_int_def sgn_if)

lemma fsize_fwrite:
  "fsize (stream_write buf boff sz n fl) = (if sz * n = 0 then fsize fl else max (fsize fl) (fpos fl + sz * n))"
  by (simp add: stream_write_def Let_def)

lemma fpos_fwrite: "fpos (stream_write buf boff sz n fl) = fpos fl + sz * n"
  by (simp add: stream_write_def Let_def)

lemma content_fwrite:
  "content (stream_write buf boff sz n fl) i =
     (if fpos fl \<le> i \<and> i < fpos fl + sz * n then buf (boff + (i - fpos fl))
      else if sz * n \<noteq> 0 \<and> fsize fl \<le> i \<and> i < fpos fl then 0
      else content fl i)"
  by (auto simp: stream_write_def Let_def)

lemma fread_fst:
  "fst (stream_read buf boff sz n fl) i =
     (if boff \<le> i \<and> i < boff + min (sz * n) (fsize fl - fpos fl)
      then content fl (fpos fl + (i - boff)) else buf i)"
  by (simp add: stream_read_def Let_def)

lemma fread_snd:
  "snd (stream_read buf boff sz n fl) = fl\<lparr>fpos := fpos fl + min (sz * n) (fsize fl - fpos fl)\<rparr>"
  by (simp add: stream_read_def Let_def)

lemma testbit_zero: "A (nat (k sdiv 8)) = 0 \<Longrightarrow> \<not> VHD_TESTBIT A k"
  by (simp add: VHD_TESTBIT_def)

lemma sparse_blk_times_512: "uint (MVHD_SPARSE_BLK * 512) = 4294966784"
  by (simp add: MVHD_SPARSE_BLK_def)

lemma read_sect_bitmap_sparse:
  "block_offset vhdm ! nat blk = MVHD_SPARSE_BLK \<Longrightarrow>
   mvhd_read_sect_bitmap vhdm blk =
     vhdm\<lparr>bitmap := (bitmap vhdm)\<lparr>curr_bitmap :=
              memset (curr_bitmap (bitmap vhdm)) 0 0 (size_t (sector_count (bitmap vhdm) * 512)),
            curr_block := blk\<rparr>\<rparr>"
  by (simp add: mvhd_read_sect_bitmap_def Let_def)

lemma write_curr_sect_bitmap_cached:
  "0 \<le> curr_block (bitmap vhdm) \<Longrightarrow>
   mvhd_write_curr_sect_bitmap vhdm =
     vhdm\<lparr>f := fwrite (curr_bitmap (bitmap vhdm)) 0 512 (size_t (sector_count (bitmap vhdm)))
            (fseeko64 (f vhdm)
               (uint (block_offset vhdm ! nat (curr_block (bitmap vhdm)) * 512))
               SEEK_SET)\<rparr>"
  by (simp add: mvhd_write_curr_sect_bitmap_def Let_def)

lemma sparse_read_loop_step:
  "s < ls \<Longrightarrow> sparse_read_loop vhdm s ls p buf boff =
     (case sparse_read_body vhdm s p buf boff of
        (vhdm1, p1, buf1) \<Rightarrow> sparse_read_loop vhdm1 (s + 1) ls p1 buf1 (boff + 512))"
  by (subst sparse_read_loop.simps) simp

lemma sparse_write_loop_step:
  "s < ls \<Longrightarrow> sparse_write_loop vhdm s ls p buf boff =
     (case sparse_write_body vhdm s p buf boff of
        (vhdm1, p1) \<Rightarrow> sparse_write_loop vhdm1 (s + 1) ls p1 buf (boff + 512))"
  by (subst sparse_write_loop.simps) simp

text \<open>One round of the read loop on a block that is not allocated and not cached.\<close>

lemma sparse_read_body_hole_miss:
  assumes "block_offset vhdm ! nat (s sdiv sect_per_block vhdm) = MVHD_SPARSE_BLK"
      and "curr_block (bitmap vhdm) \<noteq> s sdiv sect_per_block vhdm"
      and "s sdiv sect_per_block vhdm \<noteq> p"
      and "0 \<le> s" "0 < sect_per_block vhdm"
      and "0 \<le> sector_count (bitmap vhdm)" "sector_count (bitmap vhdm) < 2 ^ 32"
      and "sect_per_block vhdm \<le> sector_count (bitmap vhdm) * 4096"
  shows "sparse_read_body vhdm s p buf boff =
     (vhdm\<lparr>bitmap := (bitmap vhdm)\<lparr>curr_bitmap :=
                memset (curr_bitmap (bitmap vhdm)) 0 0 (nat (sector_count (bitmap vhdm)) * 512),
              curr_block := s sdiv sect_per_block vhdm\<rparr>,
            f := (f vhdm)\<lparr>fpos := fpos (f vhdm) + nat (s mod sect_per_block vhdm) * 512\<rparr>\<rparr>,
      s sdiv sect_per_block vhdm,
      memset buf boff 0 512)"
proof -
  let ?sc = "sector_count (bitmap vhdm)"
  let ?sib = "s mod sect_per_block vhdm"
  have sib: "s smod sect_per_block vhdm = ?sib" "0 \<le> ?sib" "?sib < sect_per_block vhdm"
    using assms(4,5) by (simp_all add: smod_nonneg)
  have sz: "size_t (?sc * 512) = nat ?sc * 512"
    using assms(6,7) by (simp add: size_t_id nat_mult_distrib)
  have idx: "nat (?sib sdiv 8) < nat ?sc * 512"
  proof -
    have "?sib div 8 < ?sc * 512" using sib(3) assms(8) by linarith
    then show ?thesis using sib(2) assms(6) by (simp add: sdiv_nonneg nat_mult_distrib nat_less_iff)
  qed
  have tb: "\<not> VHD_TESTBIT (memset (curr_bitmap (bitmap vhdm)) 0 0 (nat ?sc * 512)) ?sib"
    by (rule testbit_zero) (simp add: memset_def idx)
  show ?thesis
    using assms(2,3) sib(2) tb
    by (simp add: sparse_read_body_def Let_def read_sect_bitmap_sparse [OF assms(1)] sib(1) sz
          fseeko64_CUR nat_mult_distrib)
qed

subsection \<open>The block allocator\<close>

lemma smod_512_nat: "int e smod 512 = int (e mod 512)"
  by (simp add: smod_nonneg zmod_int)

lemma pad_needed: "int e smod 512 \<noteq> 0 \<Longrightarrow> 512 - int e smod 512 = int (pad_to_sector e)"
proof -
  assume "int e smod 512 \<noteq> 0"
  then have "e mod 512 \<noteq> 0" unfolding smod_512_nat by simp
  moreover have "e mod 512 < 512" by simp
  ultimately have "(512 - e mod 512) mod 512 = 512 - e mod 512" by simp
  moreover have "512 - int (e mod 512) = int (512 - e mod 512)" by simp
  ultimately show ?thesis unfolding smod_512_nat pad_to_sector_def by simp
qed

lemma pad_not_needed: "int e smod 512 = 0 \<Longrightarrow> pad_to_sector e = 0"
proof -
  assume "int e smod 512 = 0"
  then have "e mod 512 = 0" unfolding smod_512_nat by simp
  then show ?thesis by (simp add: pad_to_sector_def)
qed

lemma mvhd_write_empty_sectors_eq:
  "mvhd_write_empty_sectors fl n = stream_write (\<lambda>_. 0) 0 (Suc 0) (512 * nat n) fl"
  by (simp add: mvhd_write_empty_sectors_def write_empty_loop_eq)

lemma create_block_footer_read:
  assumes "512 \<le> fsize fl"
  shows "stream_read (\<lambda>_. 0) 0 512 1 (fseeko64 fl (- 512) SEEK_END) = (file_tail fl, fl\<lparr>fpos := fsize fl\<rparr>)"
proof -
  have sk: "fseeko64 fl (- 512) SEEK_END = fl\<lparr>fpos := fsize fl - 512\<rparr>"
    using assms by (simp add: fseeko64_def Let_def nat_diff_distrib)
  show ?thesis
    unfolding sk using assms
    by (subst fread_inside) (auto simp: file_tail_def fun_eq_iff)
qed

lemma create_block_header_read:
  assumes "512 \<le> fsize fl" "content fl' = content fl" "fsize fl' = fsize fl"
  shows "stream_read (file_tail fl) 0 512 1 (fseeko64 fl' 0 SEEK_SET) = (file_head fl, fl'\<lparr>fpos := 512\<rparr>)"
  using assms
  by (subst fread_inside) (auto simp: file_head_def file_tail_def fun_eq_iff fseeko64_SET)

lemma create_block_eq:
  assumes fsz: "512 \<le> fsize (f vhdm)" and blk: "nat blk < length (block_offset vhdm)"
  shows "mvhd_create_block vhdm blk =
     (let e = append_offset (f vhdm);
          z = pad_to_sector e + 512 * nat (sector_count (bitmap vhdm) + int (block_sz (sparse vhdm) div 512)) + 2560;
          w = (word_of_nat ((e + pad_to_sector e) div 512) :: 32 word);
          fl6 = stream_write (\<lambda>_. 0) 0 (Suc 0) z ((f vhdm)\<lparr>fpos := e\<rparr>);
          fl7 = stream_write (kept_footer (f vhdm)) 0 512 1 fl6;
          fl8 = fseeko64 fl7 (int ((bat_offset (sparse vhdm) + size_t blk * 4) mod 2 ^ 64)) SEEK_SET
      in vhdm\<lparr>f := stream_write (be32_bytes w) 0 4 1 fl8,
               block_offset := (block_offset vhdm)[nat blk := w],
               alloc_log := alloc_log vhdm @ [blk]\<rparr>)"
proof -
  let ?fl = "f vhdm"
  let ?n = "fsize ?fl"
  let ?e = "append_offset ?fl"
  have r1: "stream_read (\<lambda>_. 0) 0 512 (Suc 0) (fseeko64 ?fl (- 512) SEEK_END) = (file_tail ?fl, ?fl\<lparr>fpos := ?n\<rparr>)"
    using create_block_footer_read [OF fsz] by simp
  have s2: "fseeko64 (?fl\<lparr>fpos := ?n\<rparr>) (- 512) SEEK_END = ?fl\<lparr>fpos := ?n - 512\<rparr>"
    using fsz by (simp add: fseeko64_def Let_def nat_diff_distrib)
  have r3: "stream_read (file_tail ?fl) 0 512 (Suc 0) (fseeko64 (?fl\<lparr>fpos := ?n - 512\<rparr>) 0 SEEK_SET)
              = (file_head ?fl, ?fl\<lparr>fpos := 512\<rparr>)"
    using create_block_header_read [of ?fl "?fl\<lparr>fpos := ?n - 512\<rparr>"] fsz by simp
  have s4: "fseeko64 (?fl\<lparr>fpos := 512\<rparr>) 0 SEEK_END = ?fl\<lparr>fpos := ?n\<rparr>"
    by (simp add: fseeko64_def Let_def)
  note pad = pad_needed [of ?e] pad_not_needed [of ?e]
  have dv: "(int ?e + int (pad_to_sector ?e)) sdiv 512 = int ((?e + pad_to_sector ?e) div 512)"
    by (simp add: sdiv_nonneg zdiv_int)
  have w: "(word_of_int (int ((?e + pad_to_sector ?e) div 512)) :: 32 word) = word_of_nat ((?e + pad_to_sector ?e) div 512)"
    by simp
  show ?thesis
  proof (cases "mvhd_is_conectix_str (file_tail ?fl)")
    case True
    then have e: "?e = ?n - 512" "kept_footer ?fl = file_tail ?fl"
      by (simp_all add: append_offset_def kept_footer_def)
    show ?thesis
    proof (cases "int ?e smod 512 = 0")
      case z: True
      show ?thesis
        using blk True z pad(2) [OF z] dv
        unfolding mvhd_create_block_def mvhd_write_bat_entry_def
        by (simp add: Let_def r1 s2 ftello64_def e [symmetric] mvhd_write_empty_sectors_eq
              fwrite_zero_twice write_padding_loop_eq)
    next
      case z: False
      show ?thesis
        using blk True z pad(1) [OF z] dv
        unfolding mvhd_create_block_def mvhd_write_bat_entry_def
        by (simp add: Let_def r1 s2 ftello64_def e [symmetric] mvhd_write_empty_sectors_eq
              fwrite_zero_twice write_padding_loop_eq add.assoc)
    qed
  next
    case False
    then have e: "?e = ?n" "kept_footer ?fl = file_head ?fl"
      by (simp_all add: append_offset_def kept_footer_def)
    note pad' = pad [unfolded e(1)] and dv' = dv [unfolded e(1)]
    show ?thesis
    proof (cases "int ?n smod 512 = 0")
      case z: True
      show ?thesis
        using blk False z pad'(2) [OF z] dv'
        unfolding mvhd_create_block_def mvhd_write_bat_entry_def e
        by (simp add: Let_def r1 s2 r3 s4 ftello64_def mvhd_write_empty_sectors_eq
              fwrite_zero_twice write_padding_loop_eq)
    next
      case z: False
      show ?thesis
        using blk False z pad'(1) [OF z] dv'
        unfolding mvhd_create_block_def mvhd_write_bat_entry_def e
        by (simp add: Let_def r1 s2 r3 s4 ftello64_def mvhd_write_empty_sectors_eq
              fwrite_zero_twice write_padding_loop_eq add.assoc)
    qed
  qed
qed

lemma pad_to_sector_lt: "pad_to_sector e < 512"
  by (simp add: pad_to_sector_def)

lemma pad_to_sector_aligned: "(e + pad_to_sector e) mod 512 = 0"
proof (cases "e mod 512 = 0")
  case True
  then show ?thesis by (simp add: pad_to_sector_def)
next
  case False
  have lt: "e mod 512 < 512" by simp
  have "pad_to_sector e = 512 - e mod 512"
    using False lt by (simp add: pad_to_sector_def)
  moreover have "(e + (512 - e mod 512)) mod 512 = (e mod 512 + (512 - e mod 512)) mod 512"
    by (rule mod_add_left_eq [symmetric])
  moreover have "e mod 512 + (512 - e mod 512) = 512"
    using lt by simp
  ultimately show ?thesis by simp
qed

lemma append_offset_bounds: "512 \<le> fsize fl \<Longrightarrow> fsize fl - 512 \<le> append_offset fl \<and> append_offset fl \<le> fsize fl"
  by (simp add: append_offset_def)


lemma create_block_effect:
  assumes fsz: "512 \<le> fsize (f vhdm)" "fsize (f vhdm) < 2 ^ 40"
      and blk: "0 \<le> blk" "nat blk < length (block_offset vhdm)"
      and sc: "0 \<le> sector_count (bitmap vhdm)"
      and bat: "bat_offset (sparse vhdm) + 4 * nat blk + 4 \<le> fsize (f vhdm) - 512"
  shows "let vhdm' = mvhd_create_block vhdm blk;
             e = append_offset (f vhdm);
             start = e + pad_to_sector e;
             region = (nat (sector_count (bitmap vhdm)) + block_sz (sparse vhdm) div 512 + 5) * 512;
             slot = bat_offset (sparse vhdm) + 4 * nat blk
         in unat (block_offset vhdm' ! nat blk) * 512 = start \<and> start mod 512 = 0 \<and>
            e \<le> start \<and> start < e + 512 \<and>
            (\<forall>i. e \<le> i \<and> i < start + region \<longrightarrow> content (f vhdm') i = 0) \<and>
            fsize (f vhdm') = start + region + 512 \<and>
            (\<forall>i < 512. content (f vhdm') (start + region + i) = kept_footer (f vhdm) i) \<and>
            block_offset vhdm' = (block_offset vhdm)[nat blk := word_of_nat (start div 512)] \<and>
            (\<forall>i < 4. content (f vhdm') (slot + i) = be32_bytes (block_offset vhdm' ! nat blk) i) \<and>
            (\<forall>i < e. \<not> (slot \<le> i \<and> i < slot + 4) \<longrightarrow> content (f vhdm') i = content (f vhdm) i)"
proof -
  let ?fl = "f vhdm"
  define e where "e = append_offset ?fl"
  define p where "p = pad_to_sector e"
  define z where "z = p + 512 * nat (sector_count (bitmap vhdm) + int (block_sz (sparse vhdm) div 512)) + 2560"
  define w :: "32 word" where "w = word_of_nat ((e + p) div 512)"
  define slot where "slot = bat_offset (sparse vhdm) + 4 * nat blk"
  define region where "region = (nat (sector_count (bitmap vhdm)) + block_sz (sparse vhdm) div 512 + 5) * 512"
  define fl6 where "fl6 = stream_write (\<lambda>_. 0) 0 (Suc 0) z (?fl\<lparr>fpos := e\<rparr>)"
  define fl7 where "fl7 = stream_write (kept_footer ?fl) 0 512 1 fl6"
  define fl9 where "fl9 = stream_write (be32_bytes w) 0 4 1 (fl7\<lparr>fpos := slot\<rparr>)"
  have eb: "fsize ?fl - 512 \<le> e" "e \<le> fsize ?fl"
    using append_offset_bounds [OF fsz(1)] by (simp_all add: e_def)
  have pb: "p < 512" "(e + p) mod 512 = 0"
    using pad_to_sector_lt [of e] pad_to_sector_aligned [of e] by (simp_all add: p_def)
  have zr: "z = p + region"
    using sc by (simp add: z_def region_def nat_add_distrib algebra_simps)
  have szb: "size_t blk = nat blk"
    using blk(1) bat fsz(2) by (intro size_t_id) simp_all
  have tbl: "(bat_offset (sparse vhdm) + size_t blk * 4) mod 2 ^ 64 = slot"
    using bat fsz(2) by (simp add: szb slot_def)
  have cb: "mvhd_create_block vhdm blk =
              vhdm\<lparr>f := fl9, block_offset := (block_offset vhdm)[nat blk := w],
                   alloc_log := alloc_log vhdm @ [blk]\<rparr>"
    unfolding create_block_eq [OF fsz(1) blk(2)] Let_def tbl
    by (simp add: fl9_def fl7_def fl6_def z_def w_def p_def e_def fseeko64_SET)
  have wv: "unat w * 512 = e + p"
  proof -
    have "(e + p) div 512 < 2 ^ 32" using eb(2) pb(1) fsz(2) by simp
    then have "unat w = (e + p) div 512"
      unfolding w_def by (simp add: unat_of_nat)
    then show ?thesis using pb(2) div_mult_mod_eq [of "e + p" 512] by simp
  qed
  have f6: "fsize fl6 = e + z" "fpos fl6 = e + z"
    using eb fsz(1) by (simp_all add: fl6_def fsize_fwrite fpos_fwrite z_def)
  have f7: "fsize fl7 = e + z + 512" 
    by (simp add: fl7_def fsize_fwrite f6)
  have sl: "slot + 4 \<le> e" using bat eb(1) by (simp add: slot_def)
  have f9: "fsize fl9 = e + z + 512"
    using sl by (simp add: fl9_def fsize_fwrite f7)
  have c6: "content fl6 i = (if e \<le> i \<and> i < e + z then 0 else content ?fl i)" for i
    using eb(2) by (simp add: fl6_def content_fwrite)
  have c7: "content fl7 i = (if e + z \<le> i \<and> i < e + z + 512 then kept_footer ?fl (i - (e + z))
                             else if e \<le> i \<and> i < e + z then 0 else content ?fl i)" for i
    by (simp add: fl7_def content_fwrite f6 c6)
  have c9: "content fl9 i = (if slot \<le> i \<and> i < slot + 4 then be32_bytes w (i - slot)
                             else content fl7 i)" for i
    using sl by (simp add: fl9_def content_fwrite f7)
  have a: "\<forall>i. e \<le> i \<and> i < e + p + region \<longrightarrow> content fl9 i = 0"
    using sl by (simp add: c9 c7 zr)
  have b: "\<forall>i < 512. content fl9 (e + p + region + i) = kept_footer ?fl i"
    using sl by (simp add: c9 c7 zr)
  have c: "\<forall>i < 4. content fl9 (slot + i) = be32_bytes w i"
    by (simp add: c9)
  have d: "\<forall>i < e. \<not> (slot \<le> i \<and> i < slot + 4) \<longrightarrow> content fl9 i = content ?fl i"
    by (simp add: c9 c7)
  define v' where "v' = mvhd_create_block vhdm blk"
  have fv: "f v' = fl9" "block_offset v' = (block_offset vhdm)[nat blk := w]"
    by (simp_all add: v'_def cb)
  have st: "unat (block_offset v' ! nat blk) * 512 = e + p"
    using blk(2) wv by (simp add: fv)
  have bo: "block_offset v' = (block_offset vhdm)[nat blk := word_of_nat ((e + p) div 512)]"
    by (simp add: fv w_def)
  have sw: "block_offset v' ! nat blk = w"
    using blk(2) by (simp add: fv)
  have dv: "unat w * 512 div 512 = (e + p) div 512" using wv by simp
  have "unat w * 512 = e + p \<and> (e + p) mod 512 = 0 \<and> e \<le> e + p \<and> e + p < e + 512 \<and>
        (\<forall>i. e \<le> i \<and> i < e + p + region \<longrightarrow> content fl9 i = 0) \<and>
        fsize fl9 = e + p + region + 512 \<and>
        (\<forall>i < 512. content fl9 (e + p + region + i) = kept_footer ?fl i) \<and>
        block_offset v' = (block_offset vhdm)[nat blk := word_of_nat ((e + p) div 512)] \<and>
        (\<forall>i < 4. content fl9 (slot + i) = be32_bytes w i) \<and>
        (\<forall>i < e. \<not> (slot \<le> i \<and> i < slot + 4) \<longrightarrow> content fl9 i = content ?fl i)"
    using pb a b c d f9 bo wv by (simp add: zr)
  then show ?thesis
    unfolding Let_def v'_def [symmetric] e_def [symmetric] slot_def [symmetric]
      region_def [symmetric] p_def [symmetric] fv(1) sw .
qed

text \<open>
  C8. Postcondition of the block allocator, for an image file of at least one footer
  (and less than \<open>2^40\<close> bytes) whose BAT slot for \<open>blk\<close> lies before the trailing footer.
  With \<open>e\<close> the offset where appending starts and \<open>start\<close> the next sector boundary
  at or after \<open>e\<close>: the slot of \<open>blk\<close> records \<open>start\<close> as a sector number, so the
  recorded offset is sector-aligned; every byte from \<open>e\<close> up to the end of the new region
  (padding up to \<open>start\<close>, then the sectors of the bitmap, the sectors of the data and 5
  more sectors) is zero; the 512 footer bytes that were kept are the last bytes of the
  file; only the in-memory slot of \<open>blk\<close> changed, and its four bytes stand big-endian in
  the BAT of the file; all other bytes before \<open>e\<close> are as they were.
\<close>

theorem create_block_postcondition:
  assumes fsz: "512 \<le> fsize (f vhdm)" "fsize (f vhdm) < 2 ^ 40"
      and blk: "0 \<le> blk" "nat blk < length (block_offset vhdm)"
      and sc: "0 \<le> sector_count (bitmap vhdm)"
      and bat: "bat_offset (sparse vhdm) + 4 * nat blk + 4 \<le> fsize (f vhdm) - 512"
  shows "let vhdm' = mvhd_create_block vhdm blk;
             e = append_offset (f vhdm);
             start = e + pad_to_sector e;
             region = (nat (sector_count (bitmap vhdm)) + block_sz (sparse vhdm) div 512 + 5) * 512;
             slot = bat_offset (sparse vhdm) + 4 * nat blk
         in unat (block_offset vhdm' ! nat blk) * 512 = start \<and> start mod 512 = 0 \<and>
            e \<le> start \<and> start < e + 512 \<and>
            (\<forall>i. e \<le> i \<and> i < start + region \<longrightarrow> content (f vhdm') i = 0) \<and>
            fsize (f vhdm') = start + region + 512 \<and>
            (\<forall>i < 512. content (f vhdm') (start + region + i) = kept_footer (f vhdm) i) \<and>
            block_offset vhdm' = (block_offset vhdm)[nat blk := word_of_nat (start div 512)] \<and>
            (\<forall>i < 4. content (f vhdm') (slot + i) = be32_bytes (block_offset vhdm' ! nat blk) i) \<and>
            (\<forall>i < e. \<not> (slot \<le> i \<and> i < slot + 4) \<longrightarrow> content (f vhdm') i = content (f vhdm) i)"
  using assms by (rule create_block_effect)

lemma upt_8: "[0..<8] = [0, 1, 2, 3, 4, 5, 6, 7]"
  by (simp add: upt_rec)

lemma empty_sparse_tail: "mvhd_is_conectix_str (file_tail (f empty_sparse_image))"
  by (simp add: mvhd_is_conectix_str_def file_tail_def empty_sparse_image_def upt_8)

lemma empty_sparse_append_offset: "append_offset (f empty_sparse_image) = 2048"
  by (simp add: append_offset_def empty_sparse_tail) (simp add: empty_sparse_image_def)


theorem create_block_postcondition_witness:
  "512 \<le> fsize (f empty_sparse_image) \<and> fsize (f empty_sparse_image) < 2 ^ 40 \<and>
   nat 0 < length (block_offset empty_sparse_image) \<and>
   bat_offset (sparse empty_sparse_image) + 4 * nat 0 + 4 \<le> fsize (f empty_sparse_image) - 512 \<and>
   unat (block_offset (mvhd_create_block empty_sparse_image 0) ! 0) * 512 = 2048 \<and>
   fsize (f (mvhd_create_block empty_sparse_image 0)) = 2102784 \<and>
   content (f (mvhd_create_block empty_sparse_image 0)) 2047 = 0xFF \<and>
   content (f (mvhd_create_block empty_sparse_image 0)) 2048 = 0 \<and>
   content (f (mvhd_create_block empty_sparse_image 0)) 2102271 = 0 \<and>
   content (f (mvhd_create_block empty_sparse_image 0)) 2102272 = kept_footer (f empty_sparse_image) 0"
proof -
  have h: "fsize (f empty_sparse_image) = 2560" "length (block_offset empty_sparse_image) = 2"
    "bat_offset (sparse empty_sparse_image) = 1536" "sector_count (bitmap empty_sparse_image) = 1"
    "block_sz (sparse empty_sparse_image) = 2097152" "content (f empty_sparse_image) 2047 = 0xFF"
    by (simp_all add: empty_sparse_image_def)
  have p: "pad_to_sector 2048 = 0" by (simp add: pad_to_sector_def)
  define v where "v = mvhd_create_block empty_sparse_image 0"
  have st: "unat (block_offset v ! 0) * 512 = 2048"
    and sz: "fsize (f v) = 2102784"
    and zs: "\<forall>i. 2048 \<le> i \<and> i < 2102272 \<longrightarrow> content (f v) i = 0"
    and ft: "\<forall>i<512. content (f v) (2102272 + i) = kept_footer (f empty_sparse_image) i"
    and old: "\<forall>i<2048. \<not> (1536 \<le> i \<and> i < 1540) \<longrightarrow> content (f v) i = content (f empty_sparse_image) i"
    using create_block_postcondition [of empty_sparse_image 0]
    by (simp_all add: h p empty_sparse_append_offset Let_def v_def)
  have "content (f v) 2047 = 0xFF" using old [rule_format, of 2047] h(6) by simp
  moreover have "content (f v) 2048 = 0" using zs [rule_format, of 2048] by simp
  moreover have "content (f v) 2102271 = 0" using zs [rule_format, of 2102271] by simp
  moreover have "content (f v) 2102272 = kept_footer (f empty_sparse_image) 0"
    using ft [rule_format, of 0] by simp
  ultimately show ?thesis
    using st sz by (simp add: h v_def)
qed


subsection \<open>Flushing the bitmap of a block that is not allocated\<close>

text \<open>
  C10. The flush does not look at the allocation. Let block \<open>b\<close> be unallocated and not
  cached. A sparse read of a sector of \<open>b\<close> leaves the file as it was and the cache
  holding \<open>b\<close> with an all-zero bitmap, the BAT entry still being the sentinel.
  \<^verbatim>\<open>mvhd_write_curr_sect_bitmap\<close> then writes the bitmap at byte
  \<open>4294966784 = (0xffffffff * 512) mod 2^32\<close>, the offset derived from the sentinel, and a
  \<^verbatim>\<open>mvhd_sparse_diff_write\<close> whose clamped transfer count is zero does exactly this flush:
  the file then ends at or after \<open>4294966784 + sector_count * 512\<close> and is zero there.
  The capacity, the request and the difference \<open>total_sectors - offset\<close> are \<^verbatim>\<open>int\<close>
  values, a block has at most \<open>2^22\<close> sectors and the bitmap fewer than \<open>2^22\<close> sectors, so
  that no \<^verbatim>\<open>int\<close> operation of the two calls overflows.
\<close>

theorem flush_ignores_allocation:
  assumes hole: "block_offset vhdm ! nat b = MVHD_SPARSE_BLK"
      and b: "0 \<le> b" "nat b < length (block_offset vhdm)"
      and s: "0 \<le> s" "s < total_sectors vhdm" "s sdiv sect_per_block vhdm = b"
      and spb: "0 < sect_per_block vhdm"
      and sc: "0 \<le> sector_count (bitmap vhdm)" "sector_count (bitmap vhdm) < 2 ^ 22"
              "sect_per_block vhdm \<le> sector_count (bitmap vhdm) * 4096"
      and miss: "curr_block (bitmap vhdm) \<noteq> b"
      and zero: "fst (mvhd_check_sectors off num (total_sectors vhdm)) = 0"
      and ints: "total_sectors vhdm < 2 ^ 31" "sect_per_block vhdm \<le> 2 ^ 22"
                "is_int off" "is_int num" "is_int (total_sectors vhdm - off)"
  shows "case mvhd_sparse_read vhdm s 1 rbuf rboff of
           (v1, rbuf1, t1) \<Rightarrow>
             curr_block (bitmap v1) = b \<and> block_offset v1 ! nat b = MVHD_SPARSE_BLK \<and>
             content (f v1) = content (f vhdm) \<and> fsize (f v1) = fsize (f vhdm) \<and>
             (\<forall>i < nat (sector_count (bitmap vhdm)) * 512. curr_bitmap (bitmap v1) i = 0) \<and>
             mvhd_write_curr_sect_bitmap v1 =
               v1\<lparr>f := fwrite (curr_bitmap (bitmap v1)) 0 512 (nat (sector_count (bitmap vhdm)))
                           ((f v1)\<lparr>fpos := 4294966784\<rparr>)\<rparr> \<and>
             fst (mvhd_sparse_diff_write v1 off num wbuf wboff) = mvhd_write_curr_sect_bitmap v1 \<and>
             (0 < sector_count (bitmap vhdm) \<longrightarrow>
                fsize (f (fst (mvhd_sparse_diff_write v1 off num wbuf wboff))) =
                  max (fsize (f vhdm)) (4294966784 + nat (sector_count (bitmap vhdm)) * 512) \<and>
                (\<forall>i. 4294966784 \<le> i \<and> i < 4294966784 + nat (sector_count (bitmap vhdm)) * 512 \<longrightarrow>
                   content (f (fst (mvhd_sparse_diff_write v1 off num wbuf wboff))) i = 0))"
proof -
  let ?sc = "sector_count (bitmap vhdm)"
  define v1 where "v1 = vhdm\<lparr>bitmap := (bitmap vhdm)\<lparr>curr_bitmap :=
                memset (curr_bitmap (bitmap vhdm)) 0 0 (nat ?sc * 512), curr_block := b\<rparr>,
              f := (f vhdm)\<lparr>fpos := fpos (f vhdm) + nat (s mod sect_per_block vhdm) * 512\<rparr>\<rparr>"
  have chk: "mvhd_check_sectors s 1 (total_sectors vhdm) = (1, 0)"
    using s(2) by (simp add: mvhd_check_sectors_def)
  have body: "sparse_read_body vhdm s (- 1) rbuf rboff = (v1, b, memset rbuf rboff 0 512)"
    using sparse_read_body_hole_miss [of vhdm s "- 1" rbuf rboff] hole b(1) s spb sc miss
    by (simp add: v1_def)
  have rd: "mvhd_sparse_read vhdm s 1 rbuf rboff = (v1, memset rbuf rboff 0 512, 0)"
    by (simp add: mvhd_sparse_read_def chk sparse_read_loop_step body sparse_read_loop_done)
  have f1: "curr_block (bitmap v1) = b" "block_offset v1 = block_offset vhdm"
    "content (f v1) = content (f vhdm)" "fsize (f v1) = fsize (f vhdm)"
    "sector_count (bitmap v1) = ?sc" "total_sectors v1 = total_sectors vhdm"
    "curr_bitmap (bitmap v1) = memset (curr_bitmap (bitmap vhdm)) 0 0 (nat ?sc * 512)"
    by (simp_all add: v1_def total_sectors_def)
  have bz: "\<forall>i < nat ?sc * 512. curr_bitmap (bitmap v1) i = 0"
    by (simp add: f1 memset_def)
  have szc: "size_t ?sc = nat ?sc"
    using sc(1,2) by (simp add: size_t_id)
  have small: "512 * nat ?sc \<le> SSIZE_MAX" using sc(2) by simp
  have flw: "mvhd_write_curr_sect_bitmap v1 =
               v1\<lparr>f := fwrite (curr_bitmap (bitmap v1)) 0 512 (nat ?sc) ((f v1)\<lparr>fpos := 4294966784\<rparr>)\<rparr>"
    using b(1) hole
    by (simp add: write_curr_sect_bitmap_cached f1(1,2,5) sparse_blk_times_512 fseeko64_SET szc
          del: f1(7) fwrite_served)
  have fl: "mvhd_write_curr_sect_bitmap v1 =
               v1\<lparr>f := stream_write (curr_bitmap (bitmap v1)) 0 512 (nat ?sc) ((f v1)\<lparr>fpos := 4294966784\<rparr>)\<rparr>"
    unfolding flw fwrite_served [OF small] ..
  obtain t u where c2: "mvhd_check_sectors off num (total_sectors vhdm) = (t, u)"
    by (cases "mvhd_check_sectors off num (total_sectors vhdm)")
  with zero have t0: "t = 0" by simp
  have wr: "fst (mvhd_sparse_diff_write v1 off num wbuf wboff) = mvhd_write_curr_sect_bitmap v1"
    by (simp add: mvhd_sparse_diff_write_def f1(6) c2 t0 sparse_write_loop_done)
  have grow: "fsize (f (mvhd_write_curr_sect_bitmap v1)) = max (fsize (f vhdm)) (4294966784 + nat ?sc * 512)"
    if "0 < ?sc"
    using that unfolding fl by (simp add: fsize_fwrite f1(4))
  have zeros: "content (f (mvhd_write_curr_sect_bitmap v1)) i = 0"
    if "0 < ?sc" "4294966784 \<le> i" "i < 4294966784 + nat ?sc * 512" for i
    using that bz unfolding fl by (simp add: content_fwrite)
  show ?thesis
    unfolding rd prod.case wr
    using f1(1,3,4) hole bz flw grow zeros by (simp add: f1(2) del: fwrite_served)
qed

theorem flush_ignores_allocation_witness:
  "block_offset empty_sparse_image ! nat 0 = MVHD_SPARSE_BLK \<and>
   curr_block (bitmap empty_sparse_image) \<noteq> 0 \<and>
   total_sectors empty_sparse_image < 2 ^ 31 \<and> is_int (total_sectors empty_sparse_image - 0) \<and>
   fst (mvhd_check_sectors 0 0 (total_sectors empty_sparse_image)) = 0 \<and>
   fsize (f empty_sparse_image) = 2560 \<and>
   (case mvhd_sparse_read empty_sparse_image 0 1 (\<lambda>_. 0xFF) 0 of
      (v1, rbuf1, t1) \<Rightarrow>
        curr_block (bitmap v1) = 0 \<and> block_offset v1 ! 0 = MVHD_SPARSE_BLK \<and> fsize (f v1) = 2560 \<and>
        fsize (f (fst (mvhd_sparse_diff_write v1 0 0 (\<lambda>_. 0) 0))) = 4294967296)"
proof -
  have h: "fsize (f empty_sparse_image) = 2560" "block_offset empty_sparse_image = [MVHD_SPARSE_BLK, MVHD_SPARSE_BLK]"
    "sector_count (bitmap empty_sparse_image) = 1" "sect_per_block empty_sparse_image = 4096"
    "curr_block (bitmap empty_sparse_image) = - 1" "total_sectors empty_sparse_image = 8192"
    by (simp_all add: empty_sparse_image_def total_sectors_def)
  obtain v1 b1 t1 where r: "mvhd_sparse_read empty_sparse_image 0 1 (\<lambda>_. 0xFF) 0 = (v1, b1, t1)"
    by (cases "mvhd_sparse_read empty_sparse_image 0 1 (\<lambda>_. 0xFF) 0") auto
  have T: "curr_block (bitmap v1) = 0 \<and> block_offset v1 ! 0 = MVHD_SPARSE_BLK \<and> fsize (f v1) = 2560 \<and>
           fsize (f (fst (mvhd_sparse_diff_write v1 0 0 (\<lambda>_. 0) 0))) = 4294967296"
    using flush_ignores_allocation [where vhdm = empty_sparse_image and b = 0 and s = 0
        and off = 0 and num = 0 and rbuf = "\<lambda>_. 0xFF" and rboff = 0 and wbuf = "\<lambda>_. 0" and wboff = 0,
        unfolded r prod.case]
    by (auto simp add: h mvhd_check_sectors_def is_int_def)
  show ?thesis
    unfolding r prod.case using T by (simp add: h mvhd_check_sectors_def is_int_def)
qed

subsection \<open>Reading holes\<close>

lemma same_image_refl [simp]: "same_image v v"
  by (simp add: same_image_def)

lemma same_image_trans: "same_image a b \<Longrightarrow> same_image b c \<Longrightarrow> same_image a c"
  by (simp add: same_image_def)

lemma same_image_total: "same_image a b \<Longrightarrow> total_sectors a = total_sectors b"
  by (simp add: same_image_def total_sectors_def)

lemma same_image_fits: "same_image a b \<Longrightarrow> bitmap_fits a = bitmap_fits b"
  by (simp add: same_image_def bitmap_fits_def)

lemma bit_index_fits:
  assumes "bitmap_fits vhdm" "0 \<le> s"
  shows "nat ((s mod sect_per_block vhdm) sdiv 8) < nat (sector_count (bitmap vhdm)) * 512"
proof -
  let ?sib = "s mod sect_per_block vhdm"
  have sib: "0 \<le> ?sib" "?sib < sect_per_block vhdm"
    using assms by (simp_all add: bitmap_fits_def)
  then have "?sib div 8 < sector_count (bitmap vhdm) * 512"
    using assms(1) unfolding bitmap_fits_def by linarith
  then have "nat (?sib div 8) < nat (sector_count (bitmap vhdm) * 512)"
    using sib(1) by simp
  moreover have "nat (sector_count (bitmap vhdm) * 512) = nat (sector_count (bitmap vhdm)) * 512"
    using assms(1) by (simp add: nat_mult_distrib bitmap_fits_def)
  ultimately show ?thesis
    using sib(1) by (simp add: sdiv_nonneg)
qed

lemma testbit_bitmap_zero:
  "bitmap_zero vhdm \<Longrightarrow> bitmap_fits vhdm \<Longrightarrow> 0 \<le> s \<Longrightarrow>
   \<not> VHD_TESTBIT (curr_bitmap (bitmap vhdm)) (s mod sect_per_block vhdm)"
  using bit_index_fits [of vhdm s] by (intro testbit_zero) (simp add: bitmap_zero_def)

lemma size_t_bitmap: "bitmap_fits vhdm \<Longrightarrow> size_t (sector_count (bitmap vhdm) * 512) = nat (sector_count (bitmap vhdm)) * 512"
  by (simp add: bitmap_fits_def size_t_id nat_mult_distrib)

lemma sparse_read_body_hole:
  assumes hole: "block_offset vhdm ! nat (s div sect_per_block vhdm) = MVHD_SPARSE_BLK"
      and fits: "bitmap_fits vhdm" and s: "0 \<le> s"
      and inv: "(curr_block (bitmap vhdm) < 0 \<and> p < 0) \<or> bitmap_zero vhdm"
  shows "\<exists>v1. sparse_read_body vhdm s p buf boff = (v1, s div sect_per_block vhdm, memset buf boff 0 512)
               \<and> same_image v1 vhdm \<and> bitmap_zero v1"
proof -
  let ?spb = "sect_per_block vhdm"
  have spb: "0 < ?spb" using fits by (simp add: bitmap_fits_def)
  have dm: "s sdiv ?spb = s div ?spb" "s smod ?spb = s mod ?spb"
    using s spb by (simp_all add: sdiv_nonneg smod_nonneg)
  have blk: "0 \<le> s div ?spb" using s spb by (simp add: pos_imp_zdiv_nonneg_iff)
  have sib: "0 \<le> s mod ?spb" using spb by simp
  show ?thesis
  proof (cases "s div ?spb \<noteq> p")
    case True
    show ?thesis
    proof (cases "curr_block (bitmap vhdm) \<noteq> s div ?spb")
      case miss: True
      define v where "v = mvhd_read_sect_bitmap vhdm (s div ?spb)"
      have v: "v = vhdm\<lparr>bitmap := (bitmap vhdm)\<lparr>curr_bitmap :=
                  memset (curr_bitmap (bitmap vhdm)) 0 0 (nat (sector_count (bitmap vhdm)) * 512),
                  curr_block := s div ?spb\<rparr>\<rparr>"
        unfolding v_def using read_sect_bitmap_sparse [OF hole] size_t_bitmap [OF fits] by simp
      define v1 where "v1 = v\<lparr>f := fseeko64 (f v) ((s mod ?spb) * 512) SEEK_CUR\<rparr>"
      have si: "same_image v1 vhdm" by (simp add: v1_def v same_image_def)
      have bz: "bitmap_zero v1" by (simp add: v1_def v bitmap_zero_def memset_def)
      have "bitmap_fits v1" using fits same_image_fits [OF si] by simp
      then have tb: "\<not> VHD_TESTBIT (curr_bitmap (bitmap v1)) (s mod ?spb)"
        using testbit_bitmap_zero [OF bz _ s] si by (simp add: same_image_def)
      have "sparse_read_body vhdm s p buf boff = (v1, s div ?spb, memset buf boff 0 512)"
        using True miss tb
        by (simp add: sparse_read_body_def Let_def dm v_def [symmetric] v1_def [symmetric])
      then show ?thesis using si bz by blast
    next
      case hit: False
      define v1 where "v1 = vhdm\<lparr>f := fseeko64 (f vhdm)
          (uint (block_offset vhdm ! nat (s div ?spb) + word_of_int (sector_count (bitmap vhdm))
                 + word_of_int (s mod ?spb)) * 512) SEEK_SET\<rparr>"
      have si: "same_image v1 vhdm" by (simp add: v1_def same_image_def)
      have "bitmap_zero vhdm" using inv hit blk by auto
      then have bz: "bitmap_zero v1" by (simp add: v1_def bitmap_zero_def)
      have "bitmap_fits v1" using fits same_image_fits [OF si] by simp
      then have tb: "\<not> VHD_TESTBIT (curr_bitmap (bitmap v1)) (s mod ?spb)"
        using testbit_bitmap_zero [OF bz _ s] si by (simp add: same_image_def)
      have "sparse_read_body vhdm s p buf boff = (v1, s div ?spb, memset buf boff 0 512)"
        using True hit tb
        by (simp add: sparse_read_body_def Let_def dm v1_def [symmetric])
      then show ?thesis using si bz by blast
    qed
  next
    case False
    then have "0 \<le> p" using blk by simp
    then have bz: "bitmap_zero vhdm" using inv by auto
    have tb: "\<not> VHD_TESTBIT (curr_bitmap (bitmap vhdm)) (s mod ?spb)"
      using testbit_bitmap_zero [OF bz fits s] .
    have "sparse_read_body vhdm s p buf boff = (vhdm, s div ?spb, memset buf boff 0 512)"
      using False tb by (simp add: sparse_read_body_def Let_def dm)
    then show ?thesis using bz by auto
  qed
qed

lemma block_in_bat:
  assumes "0 < spb" "0 \<le> s" "s < ls" "ls \<le> int n * spb"
  shows "nat (s div spb) < n"
proof -
  have "s div spb * spb + s mod spb = s" by simp
  moreover have "0 \<le> s mod spb" using assms(1) by simp
  ultimately have "s div spb * spb < int n * spb" using assms(3,4) by linarith
  then have "s div spb < int n"
    using assms(1) by (simp add: mult_less_cancel_right)
  then show ?thesis using assms(1,2) by (simp add: nat_less_iff pos_imp_zdiv_nonneg_iff)
qed

lemma sparse_read_loop_holes:
  assumes "all_unallocated vhdm" "bitmap_fits vhdm" "0 \<le> s" "ls \<le> total_sectors vhdm"
      and "(curr_block (bitmap vhdm) < 0 \<and> p < 0) \<or> bitmap_zero vhdm"
  shows "\<exists>v1. sparse_read_loop vhdm s ls p buf boff =
             (v1, \<lambda>i. if boff \<le> i \<and> i < boff + nat (ls - s) * 512 then 0 else buf i)
           \<and> same_image v1 vhdm"
  using assms
proof (induction "nat (ls - s)" arbitrary: vhdm s p buf boff)
  case 0
  then have "\<not> s < ls" by simp
  then show ?case by (auto simp add: sparse_read_loop_done fun_eq_iff)
next
  case (Suc n)
  then have lt: "s < ls" by linarith
  let ?spb = "sect_per_block vhdm"
  have spb: "0 < ?spb" using Suc.prems(2) by (simp add: bitmap_fits_def)
  have "ls \<le> int (length (block_offset vhdm)) * ?spb"
    using Suc.prems(1,4) unfolding all_unallocated_def by linarith
  then have "nat (s div ?spb) < length (block_offset vhdm)"
    by (rule block_in_bat [OF spb Suc.prems(3) lt])
  then have hole: "block_offset vhdm ! nat (s div ?spb) = MVHD_SPARSE_BLK"
    using Suc.prems(1) by (simp add: all_unallocated_def)
  obtain v1 where b: "sparse_read_body vhdm s p buf boff = (v1, s div ?spb, memset buf boff 0 512)"
      and si: "same_image v1 vhdm" and bz: "bitmap_zero v1"
    using sparse_read_body_hole [OF hole Suc.prems(2,3,5)] by blast
  have p1: "all_unallocated v1" "bitmap_fits v1" "ls \<le> total_sectors v1"
    using Suc.prems(1,2,4) si same_image_fits [OF si] same_image_total [OF si]
    by (simp_all add: all_unallocated_def same_image_def)
  have n: "n = nat (ls - (s + 1))" using Suc(2) by simp
  obtain v2 where l: "sparse_read_loop v1 (s + 1) ls (s div ?spb) (memset buf boff 0 512) (boff + 512) =
        (v2, \<lambda>i. if boff + 512 \<le> i \<and> i < boff + 512 + nat (ls - (s + 1)) * 512 then 0
                  else memset buf boff 0 512 i)" and si2: "same_image v2 v1"
    using Suc(1) [OF n p1(1,2) _ p1(3), of "s div ?spb" "memset buf boff 0 512" "boff + 512"] Suc.prems(3) bz
    by auto
  have len: "nat (ls - s) = Suc (nat (ls - (s + 1)))" using lt by simp
  have "(\<lambda>i. if boff + 512 \<le> i \<and> i < boff + 512 + nat (ls - (s + 1)) * 512 then 0
                  else memset buf boff 0 512 i) =
        (\<lambda>i. if boff \<le> i \<and> i < boff + nat (ls - s) * 512 then 0 else buf i)"
    unfolding len by (auto simp: fun_eq_iff memset_def)
  then show ?case
    using lt b l si si2 by (simp add: sparse_read_loop_step same_image_trans [OF si2 si])
qed


text \<open>
  C6. Sparse holes read as zero. On a sparse image whose blocks are all unallocated and
  whose bitmap cache is empty (or holds an all-zero bitmap), \<^verbatim>\<open>mvhd_sparse_read\<close> of any
  range within the capacity returns truncated count 0 and fills exactly the \<open>num\<close> sector
  slots of the buffer with zero bytes, without changing the file or the BAT. Per sector:
  \<^verbatim>\<open>mvhd_read_sect_bitmap\<close> on an unallocated block leaves the stream untouched, sets the
  marker and makes the cached bitmap all zero, and a sector whose bit is not set is
  delivered as 512 zero bytes. The capacity \<open>cyl * heads * spt\<close> is an \<^verbatim>\<open>int\<close> value (below
  \<open>2^31\<close>), a block has at most \<open>2^22\<close> sectors and the bitmap fewer than \<open>2^22\<close> sectors
  (\<open>bitmap_fits\<close>), so that no \<^verbatim>\<open>int\<close> operation of the read overflows.
\<close>

theorem holes_read_as_zero:
  assumes fresh: "all_unallocated vhdm" "bitmap_fits vhdm"
      and cache: "curr_block (bitmap vhdm) < 0 \<or> bitmap_zero vhdm"
      and range: "0 \<le> off" "0 \<le> num" "off + num \<le> total_sectors vhdm"
      and ints: "total_sectors vhdm < 2 ^ 31" "sect_per_block vhdm \<le> 2 ^ 22"
  shows "(case mvhd_sparse_read vhdm off num buf boff of
            (v1, buf1, truncated) \<Rightarrow>
              truncated = 0 \<and>
              buf1 = (\<lambda>i. if boff \<le> i \<and> i < boff + nat num * 512 then 0 else buf i) \<and>
              same_image v1 vhdm) \<and>
         (\<forall>b. 0 \<le> b \<and> nat b < length (block_offset vhdm) \<longrightarrow>
              f (mvhd_read_sect_bitmap vhdm b) = f vhdm \<and>
              curr_block (bitmap (mvhd_read_sect_bitmap vhdm b)) = b \<and>
              bitmap_zero (mvhd_read_sect_bitmap vhdm b))"
proof -
  have chk: "mvhd_check_sectors off num (total_sectors vhdm) = (num, 0)"
    using range by (simp add: mvhd_check_sectors_def)
  obtain v1 where l: "sparse_read_loop vhdm off (off + num) (- 1) buf boff =
        (v1, \<lambda>i. if boff \<le> i \<and> i < boff + nat (off + num - off) * 512 then 0 else buf i)"
      and si: "same_image v1 vhdm"
    using sparse_read_loop_holes [OF fresh range(1,3), of "- 1" buf boff] cache by auto
  have a: "case mvhd_sparse_read vhdm off num buf boff of
            (v1, buf1, truncated) \<Rightarrow>
              truncated = 0 \<and>
              buf1 = (\<lambda>i. if boff \<le> i \<and> i < boff + nat num * 512 then 0 else buf i) \<and>
              same_image v1 vhdm"
    using l si by (simp add: mvhd_sparse_read_def chk)
  have b: "f (mvhd_read_sect_bitmap vhdm b) = f vhdm \<and>
           curr_block (bitmap (mvhd_read_sect_bitmap vhdm b)) = b \<and>
           bitmap_zero (mvhd_read_sect_bitmap vhdm b)" if "nat b < length (block_offset vhdm)" for b
  proof -
    have "block_offset vhdm ! nat b = MVHD_SPARSE_BLK"
      using fresh(1) that by (simp add: all_unallocated_def)
    from read_sect_bitmap_sparse [OF this] size_t_bitmap [OF fresh(2)]
    show ?thesis by (simp add: bitmap_zero_def memset_def)
  qed
  show ?thesis using a b by blast
qed

theorem holes_read_as_zero_witness:
  "all_unallocated empty_sparse_image \<and> bitmap_fits empty_sparse_image \<and>
   curr_block (bitmap empty_sparse_image) < 0 \<and> 4095 + 3 \<le> total_sectors empty_sparse_image \<and>
   total_sectors empty_sparse_image < 2 ^ 31 \<and> sect_per_block empty_sparse_image \<le> 2 ^ 22 \<and>
   fst (snd (mvhd_sparse_read empty_sparse_image 4095 3 (\<lambda>_. 0xFF) 0)) = (\<lambda>i. if i < 1536 then 0 else 0xFF) \<and>
   snd (snd (mvhd_sparse_read empty_sparse_image 4095 3 (\<lambda>_. 0xFF) 0)) = 0"
proof -
  have h: "all_unallocated empty_sparse_image" "bitmap_fits empty_sparse_image"
    "curr_block (bitmap empty_sparse_image) < 0" "total_sectors empty_sparse_image = 8192"
    "sect_per_block empty_sparse_image \<le> 2 ^ 22"
    by (simp_all add: all_unallocated_def bitmap_fits_def empty_sparse_image_def total_sectors_def
          less_Suc_eq)
  show ?thesis
    using holes_read_as_zero [where vhdm = empty_sparse_image and off = 4095 and num = 3
        and buf = "\<lambda>_. 0xFF" and boff = 0] h
    by (auto simp add: case_prod_beta)
qed

subsection \<open>Allocation during writes\<close>

lemma write_frame_refl [simp]: "write_frame v v"
  by (simp add: write_frame_def)

lemma write_frame_trans: "write_frame a b \<Longrightarrow> write_frame b c \<Longrightarrow> write_frame a c"
  by (simp add: write_frame_def)

lemma fsize_fread [simp]: "fsize (snd (stream_read buf boff sz n fl)) = fsize fl"
  by (simp add: stream_read_def Let_def)

lemma content_fread [simp]: "content (snd (stream_read buf boff sz n fl)) = content fl"
  by (simp add: stream_read_def Let_def)

lemma fsize_fwrite_mono: "fsize fl \<le> fsize (stream_write buf boff sz n fl)"
  by (simp add: fsize_fwrite)

lemma fsize_fwrite_le: "a \<le> fsize fl \<Longrightarrow> a \<le> fsize (stream_write buf boff sz n fl)"
  using fsize_fwrite_mono [of fl buf boff sz n] by simp

lemma fread_frame [simp]:
  "fsize (snd (fread buf boff sz n fl)) = fsize fl"
  "content (snd (fread buf boff sz n fl)) = content fl"
  by (simp_all add: fread_def)

lemma fwrite_frame: "a \<le> fsize fl \<Longrightarrow> a \<le> fsize (fwrite buf boff sz n fl)"
  by (simp add: fwrite_def fsize_fwrite_le)

lemma read_sect_bitmap_frame:
  "block_offset (mvhd_read_sect_bitmap vhdm blk) = block_offset vhdm"
  "alloc_log (mvhd_read_sect_bitmap vhdm blk) = alloc_log vhdm"
  "fsize (f (mvhd_read_sect_bitmap vhdm blk)) = fsize (f vhdm)"
  "content (f (mvhd_read_sect_bitmap vhdm blk)) = content (f vhdm)"
  "sect_per_block (mvhd_read_sect_bitmap vhdm blk) = sect_per_block vhdm"
  "sector_count (bitmap (mvhd_read_sect_bitmap vhdm blk)) = sector_count (bitmap vhdm)"
  "curr_block (bitmap (mvhd_read_sect_bitmap vhdm blk)) = blk"
  "footer (mvhd_read_sect_bitmap vhdm blk) = footer vhdm"
  "sparse (mvhd_read_sect_bitmap vhdm blk) = sparse vhdm"
  by (simp_all add: mvhd_read_sect_bitmap_def Let_def case_prod_beta)

lemma write_curr_sect_bitmap_frame:
  "block_offset (mvhd_write_curr_sect_bitmap vhdm) = block_offset vhdm"
  "alloc_log (mvhd_write_curr_sect_bitmap vhdm) = alloc_log vhdm"
  "fsize (f vhdm) \<le> fsize (f (mvhd_write_curr_sect_bitmap vhdm))"
  "sect_per_block (mvhd_write_curr_sect_bitmap vhdm) = sect_per_block vhdm"
  "bitmap (mvhd_write_curr_sect_bitmap vhdm) = bitmap vhdm"
  "footer (mvhd_write_curr_sect_bitmap vhdm) = footer vhdm"
  "sparse (mvhd_write_curr_sect_bitmap vhdm) = sparse vhdm"
  by (simp_all add: mvhd_write_curr_sect_bitmap_def Let_def fwrite_frame)

lemma create_block_frame:
  "alloc_log (mvhd_create_block vhdm blk) = alloc_log vhdm @ [blk]"
  "length (block_offset (mvhd_create_block vhdm blk)) = length (block_offset vhdm)"
  "i \<noteq> nat blk \<Longrightarrow> block_offset (mvhd_create_block vhdm blk) ! i = block_offset vhdm ! i"
  "sect_per_block (mvhd_create_block vhdm blk) = sect_per_block vhdm"
  "bitmap (mvhd_create_block vhdm blk) = bitmap vhdm"
  "footer (mvhd_create_block vhdm blk) = footer vhdm"
  "sparse (mvhd_create_block vhdm blk) = sparse vhdm"
  by (simp_all add: mvhd_create_block_def mvhd_write_bat_entry_def Let_def case_prod_beta)

lemma create_block_fsize_mono: "fsize (f vhdm) \<le> fsize (f (mvhd_create_block vhdm blk))"
proof -
  have m: "a \<le> fsize fl \<Longrightarrow> a \<le> fsize (stream_write buf boff sz n fl)" for a fl buf boff sz n
    using fsize_fwrite_mono [of fl buf boff sz n] by simp
  show ?thesis
    by (simp add: mvhd_create_block_def mvhd_write_bat_entry_def Let_def case_prod_beta
          mvhd_write_empty_sectors_eq write_padding_loop_eq m)
qed

lemma create_block_slot:
  assumes fsz: "512 \<le> fsize (f vhdm)" and blk: "nat blk < length (block_offset vhdm)"
      and lim: "fsize (f (mvhd_create_block vhdm blk)) \<le> 2199023255040"
  shows "block_offset (mvhd_create_block vhdm blk) ! nat blk \<noteq> MVHD_SPARSE_BLK"
proof -
  define e where "e = append_offset (f vhdm)"
  define p where "p = pad_to_sector e"
  define w :: "32 word" where "w = word_of_nat ((e + p) div 512)"
  have bo: "block_offset (mvhd_create_block vhdm blk) ! nat blk = w"
    using blk by (simp add: create_block_eq [OF fsz blk] Let_def w_def p_def e_def)
  have "e + p + 2560 \<le> fsize (f (mvhd_create_block vhdm blk))"
    using append_offset_bounds [OF fsz]
    by (simp add: create_block_eq [OF fsz blk] Let_def fsize_fwrite fpos_fwrite p_def e_def max_def)
  then have "e + p < 2199023255040" using lim by simp
  then have lt: "(e + p) div 512 < 4294967295" by simp
  then have "unat w = (e + p) div 512"
    unfolding w_def by (simp add: unat_of_nat)
  then have "unat w \<noteq> unat MVHD_SPARSE_BLK"
    using lt by (simp add: MVHD_SPARSE_BLK_def)
  then show ?thesis unfolding bo by auto
qed

lemma write_frame_after_alloc: "write_frame vhdm (after_alloc vhdm s)"
  using create_block_fsize_mono [of "mvhd_read_sect_bitmap vhdm (s sdiv sect_per_block vhdm)"
          "s sdiv sect_per_block vhdm"]
  by (simp add: after_alloc_def Let_def write_frame_def create_block_frame read_sect_bitmap_frame)

lemma sparse_write_body_frame:
  "block_offset (fst (sparse_write_body vhdm s p buf boff)) = block_offset (after_alloc vhdm s)"
  "alloc_log (fst (sparse_write_body vhdm s p buf boff)) = alloc_log (after_alloc vhdm s)"
  "write_frame (after_alloc vhdm s) (fst (sparse_write_body vhdm s p buf boff))"
proof -
  define a where "a = after_alloc vhdm s"
  have a: "(if block_offset vhdm ! nat (s sdiv sect_per_block vhdm) = MVHD_SPARSE_BLK
            then mvhd_create_block (mvhd_read_sect_bitmap vhdm (s sdiv sect_per_block vhdm))
                   (s sdiv sect_per_block vhdm)
            else vhdm) = a"
    by (simp add: a_def after_alloc_def Let_def)
  have m: "fsize (f a) \<le> fsize (f (mvhd_write_curr_sect_bitmap a))"
    by (rule write_curr_sect_bitmap_frame)
  show "block_offset (fst (sparse_write_body vhdm s p buf boff)) = block_offset (after_alloc vhdm s)"
    unfolding sparse_write_body_def Let_def a a_def [symmetric]
    by (simp add: case_prod_beta read_sect_bitmap_frame write_curr_sect_bitmap_frame)
  show "alloc_log (fst (sparse_write_body vhdm s p buf boff)) = alloc_log (after_alloc vhdm s)"
    unfolding sparse_write_body_def Let_def a a_def [symmetric]
    by (simp add: case_prod_beta read_sect_bitmap_frame write_curr_sect_bitmap_frame)
  show "write_frame (after_alloc vhdm s) (fst (sparse_write_body vhdm s p buf boff))"
    unfolding sparse_write_body_def Let_def a a_def [symmetric] write_frame_def
    using m
    by (simp add: case_prod_beta read_sect_bitmap_frame write_curr_sect_bitmap_frame fsize_fwrite_le)
qed

lemma sparse_write_body_alloc:
  assumes spb: "0 < sect_per_block vhdm" and s: "0 \<le> s"
      and blk: "nat (s div sect_per_block vhdm) < length (block_offset vhdm)"
      and fsz: "512 \<le> fsize (f vhdm)"
      and lim: "fsize (f (fst (sparse_write_body vhdm s p buf boff))) \<le> 2199023255040"
  shows "write_frame vhdm (fst (sparse_write_body vhdm s p buf boff))"
    and "block_offset vhdm ! nat (s div sect_per_block vhdm) = MVHD_SPARSE_BLK \<Longrightarrow>
           alloc_log (fst (sparse_write_body vhdm s p buf boff)) = alloc_log vhdm @ [s div sect_per_block vhdm] \<and>
           block_offset (fst (sparse_write_body vhdm s p buf boff)) ! nat (s div sect_per_block vhdm) \<noteq> MVHD_SPARSE_BLK \<and>
           (\<forall>i. i \<noteq> nat (s div sect_per_block vhdm) \<longrightarrow>
              block_offset (fst (sparse_write_body vhdm s p buf boff)) ! i = block_offset vhdm ! i)"
    and "block_offset vhdm ! nat (s div sect_per_block vhdm) \<noteq> MVHD_SPARSE_BLK \<Longrightarrow>
           alloc_log (fst (sparse_write_body vhdm s p buf boff)) = alloc_log vhdm \<and>
           block_offset (fst (sparse_write_body vhdm s p buf boff)) = block_offset vhdm"
proof -
  let ?blk = "s div sect_per_block vhdm"
  let ?v1 = "fst (sparse_write_body vhdm s p buf boff)"
  have dm: "s sdiv sect_per_block vhdm = ?blk" using s spb by (simp add: sdiv_nonneg)
  show "write_frame vhdm ?v1"
    using write_frame_trans [OF write_frame_after_alloc sparse_write_body_frame(3)] .
  {
    assume hole: "block_offset vhdm ! nat ?blk = MVHD_SPARSE_BLK"
    let ?r = "mvhd_read_sect_bitmap vhdm ?blk"
    have aa: "after_alloc vhdm s = mvhd_create_block ?r ?blk"
      using hole by (simp add: after_alloc_def dm Let_def)
    have "fsize (f (mvhd_create_block ?r ?blk)) \<le> fsize (f ?v1)"
      using sparse_write_body_frame(3) [of vhdm s p buf boff] by (simp add: aa write_frame_def)
    then have l: "fsize (f (mvhd_create_block ?r ?blk)) \<le> 2199023255040" using lim by simp
    have "block_offset (mvhd_create_block ?r ?blk) ! nat ?blk \<noteq> MVHD_SPARSE_BLK"
      using create_block_slot [of ?r ?blk] fsz blk l by (simp add: read_sect_bitmap_frame)
    then show "alloc_log ?v1 = alloc_log vhdm @ [?blk] \<and>
           block_offset ?v1 ! nat ?blk \<noteq> MVHD_SPARSE_BLK \<and>
           (\<forall>i. i \<noteq> nat ?blk \<longrightarrow> block_offset ?v1 ! i = block_offset vhdm ! i)"
      by (simp add: sparse_write_body_frame aa create_block_frame read_sect_bitmap_frame)
  }
  {
    assume "block_offset vhdm ! nat ?blk \<noteq> MVHD_SPARSE_BLK"
    then have "after_alloc vhdm s = vhdm" by (simp add: after_alloc_def dm Let_def)
    then show "alloc_log ?v1 = alloc_log vhdm \<and> block_offset ?v1 = block_offset vhdm"
      by (simp add: sparse_write_body_frame)
  }
qed

lemma sparse_write_loop_alloc:
  assumes "0 < sect_per_block vhdm" "0 \<le> s"
      and "ls \<le> int (length (block_offset vhdm)) * sect_per_block vhdm"
      and "512 \<le> fsize (f vhdm)"
      and "fsize (f (sparse_write_loop vhdm s ls p buf boff)) \<le> 2199023255040"
  shows "\<exists>new. alloc_log (sparse_write_loop vhdm s ls p buf boff) = alloc_log vhdm @ new \<and>
           distinct new \<and>
           (\<forall>b \<in> set new. (\<exists>s'. s \<le> s' \<and> s' < ls \<and> b = s' div sect_per_block vhdm) \<and>
              0 \<le> b \<and> nat b < length (block_offset vhdm) \<and>
              block_offset vhdm ! nat b = MVHD_SPARSE_BLK \<and>
              block_offset (sparse_write_loop vhdm s ls p buf boff) ! nat b \<noteq> MVHD_SPARSE_BLK) \<and>
           (\<forall>i. i \<notin> nat ` set new \<longrightarrow>
              block_offset (sparse_write_loop vhdm s ls p buf boff) ! i = block_offset vhdm ! i) \<and>
           write_frame vhdm (sparse_write_loop vhdm s ls p buf boff)"
  using assms
proof (induction "nat (ls - s)" arbitrary: vhdm s p boff)
  case 0
  then have "\<not> s < ls" by simp
  then show ?case by (simp add: sparse_write_loop_done)
next
  case (Suc n)
  then have lt: "s < ls" by linarith
  let ?spb = "sect_per_block vhdm"
  let ?blk = "s div ?spb"
  obtain v1 p1 where b: "sparse_write_body vhdm s p buf boff = (v1, p1)"
    by (cases "sparse_write_body vhdm s p buf boff")
  let ?v' = "sparse_write_loop v1 (s + 1) ls p1 buf (boff + 512)"
  have step: "sparse_write_loop vhdm s ls p buf boff = ?v'"
    using lt by (simp add: sparse_write_loop_step b)
  have blk: "nat ?blk < length (block_offset vhdm)" "0 \<le> ?blk"
    using block_in_bat [OF Suc.prems(1,2) lt Suc.prems(3)] Suc.prems(1,2)
    by (simp_all add: pos_imp_zdiv_nonneg_iff)
  have v1: "v1 = fst (sparse_write_body vhdm s p buf boff)" by (simp add: b)
  have fr1: "write_frame vhdm v1"
    unfolding v1 using write_frame_trans [OF write_frame_after_alloc sparse_write_body_frame(3)] .
  have n: "n = nat (ls - (s + 1))" using Suc(2) by simp
  have pre: "0 < sect_per_block v1" "0 \<le> s + 1"
    "ls \<le> int (length (block_offset v1)) * sect_per_block v1" "512 \<le> fsize (f v1)"
    "fsize (f ?v') \<le> 2199023255040"
    using fr1 Suc.prems step by (simp_all add: write_frame_def)
  from Suc(1) [OF n pre]
  obtain new' where ih: "alloc_log ?v' = alloc_log v1 @ new'" "distinct new'"
      "\<forall>b \<in> set new'. (\<exists>s'. s + 1 \<le> s' \<and> s' < ls \<and> b = s' div sect_per_block v1) \<and>
              0 \<le> b \<and> nat b < length (block_offset v1) \<and>
              block_offset v1 ! nat b = MVHD_SPARSE_BLK \<and>
              block_offset ?v' ! nat b \<noteq> MVHD_SPARSE_BLK"
      "\<forall>i. i \<notin> nat ` set new' \<longrightarrow> block_offset ?v' ! i = block_offset v1 ! i"
      "write_frame v1 ?v'"
    by blast
  have spb1: "sect_per_block v1 = ?spb" "length (block_offset v1) = length (block_offset vhdm)"
    using fr1 by (simp_all add: write_frame_def)
  have lim1: "fsize (f (fst (sparse_write_body vhdm s p buf boff))) \<le> 2199023255040"
    using ih(5) pre(5) by (simp add: v1 [symmetric] write_frame_def)
  note body = sparse_write_body_alloc [OF Suc.prems(1,2) blk(1) Suc.prems(4) lim1, folded v1]
  have fr: "write_frame vhdm ?v'" using write_frame_trans [OF fr1 ih(5)] .
  show ?case
  proof (cases "block_offset vhdm ! nat ?blk = MVHD_SPARSE_BLK")
    case True
    from body(2) [OF True] have c: "alloc_log v1 = alloc_log vhdm @ [?blk]"
        "block_offset v1 ! nat ?blk \<noteq> MVHD_SPARSE_BLK"
        "\<forall>i. i \<noteq> nat ?blk \<longrightarrow> block_offset v1 ! i = block_offset vhdm ! i"
      by simp_all
    have notin: "nat ?blk \<notin> nat ` set new'" using ih(3) c(2) by auto
    have "?blk \<notin> set new'" using notin by auto
    moreover have "\<forall>b \<in> set (?blk # new'). (\<exists>s'. s \<le> s' \<and> s' < ls \<and> b = s' div ?spb) \<and>
              0 \<le> b \<and> nat b < length (block_offset vhdm) \<and>
              block_offset vhdm ! nat b = MVHD_SPARSE_BLK \<and>
              block_offset ?v' ! nat b \<noteq> MVHD_SPARSE_BLK"
    proof
      fix b assume "b \<in> set (?blk # new')"
      then consider "b = ?blk" | "b \<in> set new'" by auto
      then show "(\<exists>s'. s \<le> s' \<and> s' < ls \<and> b = s' div ?spb) \<and>
              0 \<le> b \<and> nat b < length (block_offset vhdm) \<and>
              block_offset vhdm ! nat b = MVHD_SPARSE_BLK \<and>
              block_offset ?v' ! nat b \<noteq> MVHD_SPARSE_BLK"
      proof cases
        case 1
        then show ?thesis using lt blk True ih(4) notin c(2) by auto
      next
        case 2
        then have nb: "nat b \<noteq> nat ?blk" using ih(3) c(2) by auto
        obtain s' where "s + 1 \<le> s'" "s' < ls" "b = s' div ?spb"
          using ih(3) 2 spb1 by auto
        then have "\<exists>s'. s \<le> s' \<and> s' < ls \<and> b = s' div ?spb" by (intro exI [of _ s']) simp
        then show ?thesis using 2 ih(3) c(3) nb spb1 by auto
      qed
    qed
    moreover have "\<forall>i. i \<notin> nat ` set (?blk # new') \<longrightarrow> block_offset ?v' ! i = block_offset vhdm ! i"
      using ih(4) c(3) by auto
    ultimately have "alloc_log ?v' = alloc_log vhdm @ (?blk # new') \<and> distinct (?blk # new') \<and>
        (\<forall>b \<in> set (?blk # new'). (\<exists>s'. s \<le> s' \<and> s' < ls \<and> b = s' div ?spb) \<and>
              0 \<le> b \<and> nat b < length (block_offset vhdm) \<and>
              block_offset vhdm ! nat b = MVHD_SPARSE_BLK \<and>
              block_offset ?v' ! nat b \<noteq> MVHD_SPARSE_BLK) \<and>
        (\<forall>i. i \<notin> nat ` set (?blk # new') \<longrightarrow> block_offset ?v' ! i = block_offset vhdm ! i) \<and>
        write_frame vhdm ?v'"
      using ih(1,2) c(1) fr by simp
    then show ?thesis unfolding step by (intro exI [of _ "?blk # new'"])
  next
    case False
    from body(3) [OF False] have c: "alloc_log v1 = alloc_log vhdm" "block_offset v1 = block_offset vhdm"
      by simp_all
    have "\<forall>b \<in> set new'. (\<exists>s'. s \<le> s' \<and> s' < ls \<and> b = s' div ?spb) \<and>
              0 \<le> b \<and> nat b < length (block_offset vhdm) \<and>
              block_offset vhdm ! nat b = MVHD_SPARSE_BLK \<and>
              block_offset ?v' ! nat b \<noteq> MVHD_SPARSE_BLK"
    proof
      fix b assume 2: "b \<in> set new'"
      obtain s' where "s + 1 \<le> s'" "s' < ls" "b = s' div ?spb"
        using ih(3) 2 spb1 by auto
      then have "\<exists>s'. s \<le> s' \<and> s' < ls \<and> b = s' div ?spb" by (intro exI [of _ s']) simp
      then show "(\<exists>s'. s \<le> s' \<and> s' < ls \<and> b = s' div ?spb) \<and>
              0 \<le> b \<and> nat b < length (block_offset vhdm) \<and>
              block_offset vhdm ! nat b = MVHD_SPARSE_BLK \<and>
              block_offset ?v' ! nat b \<noteq> MVHD_SPARSE_BLK"
        using 2 ih(3) c(2) by auto
    qed
    then have "alloc_log ?v' = alloc_log vhdm @ new' \<and> distinct new' \<and>
        (\<forall>b \<in> set new'. (\<exists>s'. s \<le> s' \<and> s' < ls \<and> b = s' div ?spb) \<and>
              0 \<le> b \<and> nat b < length (block_offset vhdm) \<and>
              block_offset vhdm ! nat b = MVHD_SPARSE_BLK \<and>
              block_offset ?v' ! nat b \<noteq> MVHD_SPARSE_BLK) \<and>
        (\<forall>i. i \<notin> nat ` set new' \<longrightarrow> block_offset ?v' ! i = block_offset vhdm ! i) \<and>
        write_frame vhdm ?v'"
      using ih(1,2,4) c fr by simp
    then show ?thesis unfolding step by (intro exI [of _ new'])
  qed
qed

text \<open>
  C3. Allocator idempotence. During a \<^verbatim>\<open>mvhd_sparse_diff_write\<close> (on an image whose BAT
  covers the capacity, the file staying at or below \<open>(2^32 - 1) * 512\<close> bytes, so that a
  sector offset never equals the sentinel) the history of allocator calls grows by a list
  \<open>new\<close> of distinct blocks; each of them lies in the requested range, had the sentinel in
  its BAT slot before the call and has another value after it; all other BAT entries are
  unchanged, so an allocated entry never changes. Hence a write whose sectors lie in
  allocated blocks calls the allocator for no block and leaves the BAT alone, and over any
  sequence of writes no block is allocated twice (\<open>log_ok\<close> is preserved).
\<close>

theorem allocator_never_twice:
  assumes spb: "0 < sect_per_block vhdm" and off: "0 \<le> off"
      and bat: "total_sectors vhdm \<le> int (length (block_offset vhdm)) * sect_per_block vhdm"
      and fsz: "512 \<le> fsize (f vhdm)"
      and lim: "fsize (f (fst (mvhd_sparse_diff_write vhdm off num buf boff))) \<le> 2199023255040"
  shows "let v' = fst (mvhd_sparse_diff_write vhdm off num buf boff)
         in (\<exists>new. alloc_log v' = alloc_log vhdm @ new \<and> distinct new \<and>
               (\<forall>b \<in> set new.
                  (\<exists>s. off \<le> s \<and> s < off + num \<and> b = s div sect_per_block vhdm) \<and>
                  block_offset vhdm ! nat b = MVHD_SPARSE_BLK \<and>
                  block_offset v' ! nat b \<noteq> MVHD_SPARSE_BLK) \<and>
               (\<forall>i. i \<notin> nat ` set new \<longrightarrow> block_offset v' ! i = block_offset vhdm ! i)) \<and>
            (\<forall>i. block_offset vhdm ! i \<noteq> MVHD_SPARSE_BLK \<longrightarrow>
                 block_offset v' ! i = block_offset vhdm ! i) \<and>
            ((\<forall>s. off \<le> s \<and> s < off + num \<longrightarrow>
                 block_offset vhdm ! nat (s div sect_per_block vhdm) \<noteq> MVHD_SPARSE_BLK) \<longrightarrow>
               alloc_log v' = alloc_log vhdm \<and> block_offset v' = block_offset vhdm) \<and>
            (log_ok vhdm \<longrightarrow> log_ok v')"
proof -
  obtain t u where c: "mvhd_check_sectors off num (total_sectors vhdm) = (t, u)"
    by (cases "mvhd_check_sectors off num (total_sectors vhdm)")
  have t: "t \<le> num" "off + t \<le> total_sectors vhdm"
    using c by (auto simp: mvhd_check_sectors_def split: if_splits)
  define w where "w = sparse_write_loop vhdm off (off + t) (- 1) buf boff"
  define v' where "v' = fst (mvhd_sparse_diff_write vhdm off num buf boff)"
  have v': "v' = mvhd_write_curr_sect_bitmap w"
    by (simp add: v'_def mvhd_sparse_diff_write_def c w_def)
  have bl: "block_offset v' = block_offset w" "alloc_log v' = alloc_log w"
    "fsize (f w) \<le> fsize (f v')"
    unfolding v' by (rule write_curr_sect_bitmap_frame)+
  have ls: "off + t \<le> int (length (block_offset vhdm)) * sect_per_block vhdm"
    using t(2) bat by linarith
  have lw: "fsize (f (sparse_write_loop vhdm off (off + t) (- 1) buf boff)) \<le> 2199023255040"
    using lim bl(3) by (simp add: v'_def [symmetric] w_def [symmetric])
  from sparse_write_loop_alloc [OF spb off ls fsz lw, folded w_def]
  obtain new where n: "alloc_log w = alloc_log vhdm @ new" "distinct new"
      "\<forall>b \<in> set new. (\<exists>s'. off \<le> s' \<and> s' < off + t \<and> b = s' div sect_per_block vhdm) \<and>
              0 \<le> b \<and> nat b < length (block_offset vhdm) \<and>
              block_offset vhdm ! nat b = MVHD_SPARSE_BLK \<and>
              block_offset w ! nat b \<noteq> MVHD_SPARSE_BLK"
      "\<forall>i. i \<notin> nat ` set new \<longrightarrow> block_offset w ! i = block_offset vhdm ! i"
      "write_frame vhdm w"
    by blast
  have len: "length (block_offset w) = length (block_offset vhdm)"
    using n(5) by (simp add: write_frame_def)
  have n3: "\<forall>b \<in> set new. (\<exists>s. off \<le> s \<and> s < off + num \<and> b = s div sect_per_block vhdm) \<and>
              block_offset vhdm ! nat b = MVHD_SPARSE_BLK \<and>
              block_offset w ! nat b \<noteq> MVHD_SPARSE_BLK"
  proof
    fix b assume b: "b \<in> set new"
    then obtain s' where "off \<le> s'" "s' < off + t" "b = s' div sect_per_block vhdm"
      using n(3) by blast
    then have "\<exists>s. off \<le> s \<and> s < off + num \<and> b = s div sect_per_block vhdm"
      using t(1) by (intro exI [of _ s']) simp
    moreover have "block_offset vhdm ! nat b = MVHD_SPARSE_BLK"
      "block_offset w ! nat b \<noteq> MVHD_SPARSE_BLK"
      using n(3) b by simp_all
    ultimately show "(\<exists>s. off \<le> s \<and> s < off + num \<and> b = s div sect_per_block vhdm) \<and>
              block_offset vhdm ! nat b = MVHD_SPARSE_BLK \<and>
              block_offset w ! nat b \<noteq> MVHD_SPARSE_BLK"
      by simp
  qed
  have A: "\<exists>new. alloc_log w = alloc_log vhdm @ new \<and> distinct new \<and>
               (\<forall>b \<in> set new.
                  (\<exists>s. off \<le> s \<and> s < off + num \<and> b = s div sect_per_block vhdm) \<and>
                  block_offset vhdm ! nat b = MVHD_SPARSE_BLK \<and>
                  block_offset w ! nat b \<noteq> MVHD_SPARSE_BLK) \<and>
               (\<forall>i. i \<notin> nat ` set new \<longrightarrow> block_offset w ! i = block_offset vhdm ! i)"
    using n(1,2,4) n3 by blast
  have B: "\<forall>i. block_offset vhdm ! i \<noteq> MVHD_SPARSE_BLK \<longrightarrow> block_offset w ! i = block_offset vhdm ! i"
  proof (intro allI impI)
    fix i assume i: "block_offset vhdm ! i \<noteq> MVHD_SPARSE_BLK"
    have "i \<notin> nat ` set new"
    proof
      assume "i \<in> nat ` set new"
      then obtain b where "b \<in> set new" "i = nat b" by auto
      with n(3) i show False by auto
    qed
    with n(4) show "block_offset w ! i = block_offset vhdm ! i" by simp
  qed
  have C: "alloc_log w = alloc_log vhdm \<and> block_offset w = block_offset vhdm"
    if all: "\<forall>s. off \<le> s \<and> s < off + num \<longrightarrow>
                 block_offset vhdm ! nat (s div sect_per_block vhdm) \<noteq> MVHD_SPARSE_BLK"
  proof -
    have "new = []"
    proof (cases new)
      case (Cons b bs)
      then have "b \<in> set new" by simp
      with n3 obtain s where s: "off \<le> s" "s < off + num" "b = s div sect_per_block vhdm"
        and h: "block_offset vhdm ! nat b = MVHD_SPARSE_BLK"
        by blast
      from all s(1,2) have "block_offset vhdm ! nat (s div sect_per_block vhdm) \<noteq> MVHD_SPARSE_BLK"
        by simp
      with h s(3) show ?thesis by simp
    qed simp
    then show ?thesis using n(1,4) len by (simp add: nth_equalityI)
  qed
  have D: "log_ok w" if ok: "log_ok vhdm"
  proof -
    have "set (alloc_log vhdm) \<inter> set new = {}"
    proof (rule ccontr)
      assume "set (alloc_log vhdm) \<inter> set new \<noteq> {}"
      then obtain b where b: "b \<in> set (alloc_log vhdm)" "b \<in> set new" by auto
      from b(1) ok have "block_offset vhdm ! nat b \<noteq> MVHD_SPARSE_BLK"
        by (simp add: log_ok_def)
      with b(2) n(3) show False by simp
    qed
    then have d: "distinct (alloc_log vhdm @ new)"
      using ok n(2) by (simp add: log_ok_def)
    have "\<forall>b \<in> set (alloc_log vhdm @ new). 0 \<le> b \<and> nat b < length (block_offset w) \<and>
        block_offset w ! nat b \<noteq> MVHD_SPARSE_BLK"
    proof
      fix b assume "b \<in> set (alloc_log vhdm @ new)"
      then consider "b \<in> set (alloc_log vhdm)" | "b \<in> set new" by auto
      then show "0 \<le> b \<and> nat b < length (block_offset w) \<and> block_offset w ! nat b \<noteq> MVHD_SPARSE_BLK"
      proof cases
        case 1
        with ok have "0 \<le> b" "nat b < length (block_offset vhdm)"
          "block_offset vhdm ! nat b \<noteq> MVHD_SPARSE_BLK"
          by (simp_all add: log_ok_def)
        then show ?thesis using B len by simp
      next
        case 2
        with n(3) have "0 \<le> b" "nat b < length (block_offset vhdm)"
          "block_offset w ! nat b \<noteq> MVHD_SPARSE_BLK"
          by simp_all
        then show ?thesis using len by simp
      qed
    qed
    then show ?thesis using d by (simp add: log_ok_def n(1))
  qed
  have E: "log_ok v' = log_ok w" by (simp add: log_ok_def bl)
  show ?thesis
    unfolding Let_def v'_def [symmetric] E bl(1,2)
    using A B C D by (intro conjI impI) simp_all
qed

subsection \<open>Writing across a block boundary into new blocks\<close>

lemma write_body_alloc_eq:
  assumes "block_offset vhdm ! nat (s sdiv sect_per_block vhdm) = MVHD_SPARSE_BLK"
      and "s sdiv sect_per_block vhdm \<noteq> p"
  shows "sparse_write_body vhdm s p buf boff =
     (let blk = s sdiv sect_per_block vhdm;
          c = mvhd_create_block (mvhd_read_sect_bitmap vhdm blk) blk;
          addr = uint (block_offset c ! nat blk + word_of_int (sector_count (bitmap c))
                        + word_of_int (s smod sect_per_block vhdm)) * 512
      in (c\<lparr>f := stream_write buf boff 512 1 (fseeko64 (f c) addr SEEK_SET),
            bitmap := (bitmap c)\<lparr>curr_bitmap :=
               VHD_SETBIT (curr_bitmap (bitmap c)) (s smod sect_per_block vhdm)\<rparr>\<rparr>,
          blk))"
  using assms
  by (simp add: sparse_write_body_def Let_def create_block_frame read_sect_bitmap_frame)

lemma write_body_same_eq:
  assumes "block_offset vhdm ! nat (s sdiv sect_per_block vhdm) \<noteq> MVHD_SPARSE_BLK"
      and "s sdiv sect_per_block vhdm = p"
  shows "sparse_write_body vhdm s p buf boff =
     (vhdm\<lparr>f := stream_write buf boff 512 1 (f vhdm),
           bitmap := (bitmap vhdm)\<lparr>curr_bitmap :=
              VHD_SETBIT (curr_bitmap (bitmap vhdm)) (s smod sect_per_block vhdm)\<rparr>\<rparr>, p)"
  using assms by (simp add: sparse_write_body_def Let_def)

lemma write_body_miss_eq:
  assumes "block_offset vhdm ! nat (s sdiv sect_per_block vhdm) \<noteq> MVHD_SPARSE_BLK"
      and "s sdiv sect_per_block vhdm \<noteq> p" "p < 0"
      and "curr_block (bitmap vhdm) \<noteq> s sdiv sect_per_block vhdm"
  shows "sparse_write_body vhdm s p buf boff =
     (let blk = s sdiv sect_per_block vhdm;
          v1 = mvhd_read_sect_bitmap vhdm blk
      in (v1\<lparr>f := stream_write buf boff 512 1
                   (fseeko64 (f v1) (s smod sect_per_block vhdm * 512) SEEK_CUR),
             bitmap := (bitmap v1)\<lparr>curr_bitmap :=
               VHD_SETBIT (curr_bitmap (bitmap v1)) (s smod sect_per_block vhdm)\<rparr>\<rparr>,
          blk))"
  using assms by (simp add: sparse_write_body_def Let_def)

lemma read_sect_bitmap_alloc:
  assumes "block_offset vhdm ! nat blk \<noteq> MVHD_SPARSE_BLK"
  shows "mvhd_read_sect_bitmap vhdm blk =
     (let fl = fseeko64 (f vhdm) (uint (block_offset vhdm ! nat blk * 512)) SEEK_SET;
          n = size_t (sector_count (bitmap vhdm) * 512)
      in vhdm\<lparr>f := snd (fread (curr_bitmap (bitmap vhdm)) 0 n 1 fl),
              bitmap := (bitmap vhdm)\<lparr>curr_bitmap := fst (fread (curr_bitmap (bitmap vhdm)) 0 n 1 fl),
                                         curr_block := blk\<rparr>\<rparr>)"
  using assms by (simp add: mvhd_read_sect_bitmap_def Let_def case_prod_beta)

lemma create_block_at:
  assumes "512 \<le> fsize (f vhdm)" "fsize (f vhdm) < 2 ^ 40"
      and "0 \<le> blk" "nat blk < length (block_offset vhdm)"
      and "0 \<le> sector_count (bitmap vhdm)"
      and "bat_offset (sparse vhdm) + 4 * nat blk + 4 \<le> fsize (f vhdm) - 512"
      and "append_offset (f vhdm) + pad_to_sector (append_offset (f vhdm)) = start"
      and "(nat (sector_count (bitmap vhdm)) + block_sz (sparse vhdm) div 512 + 5) * 512 = region"
  shows "block_offset (mvhd_create_block vhdm blk) = (block_offset vhdm)[nat blk := word_of_nat (start div 512)]"
    and "fsize (f (mvhd_create_block vhdm blk)) = start + region + 512"
    and "\<And>i. append_offset (f vhdm) \<le> i \<Longrightarrow> i < start + region \<Longrightarrow> content (f (mvhd_create_block vhdm blk)) i = 0"
    and "\<And>i. i < 512 \<Longrightarrow> content (f (mvhd_create_block vhdm blk)) (start + region + i) = kept_footer (f vhdm) i"
    and "\<And>i. i < 4 \<Longrightarrow> content (f (mvhd_create_block vhdm blk)) (bat_offset (sparse vhdm) + 4 * nat blk + i)
            = be32_bytes (word_of_nat (start div 512)) i"
    and "\<And>i. i < append_offset (f vhdm) \<Longrightarrow>
            \<not> (bat_offset (sparse vhdm) + 4 * nat blk \<le> i \<and> i < bat_offset (sparse vhdm) + 4 * nat blk + 4) \<Longrightarrow>
            content (f (mvhd_create_block vhdm blk)) i = content (f vhdm) i"
proof -
  note e = create_block_effect [OF assms(1-6), unfolded Let_def assms(7,8)]
  show bo: "block_offset (mvhd_create_block vhdm blk) = (block_offset vhdm)[nat blk := word_of_nat (start div 512)]"
    using e by blast
  show "fsize (f (mvhd_create_block vhdm blk)) = start + region + 512" using e by blast
  show "\<And>i. append_offset (f vhdm) \<le> i \<Longrightarrow> i < start + region \<Longrightarrow> content (f (mvhd_create_block vhdm blk)) i = 0"
    using e by blast
  show "\<And>i. i < 512 \<Longrightarrow> content (f (mvhd_create_block vhdm blk)) (start + region + i) = kept_footer (f vhdm) i"
    using e by blast
  have "block_offset (mvhd_create_block vhdm blk) ! nat blk = word_of_nat (start div 512)"
    unfolding bo using assms(4) by simp
  then show "\<And>i. i < 4 \<Longrightarrow> content (f (mvhd_create_block vhdm blk)) (bat_offset (sparse vhdm) + 4 * nat blk + i)
            = be32_bytes (word_of_nat (start div 512)) i"
    using e by simp
  show "\<And>i. i < append_offset (f vhdm) \<Longrightarrow>
            \<not> (bat_offset (sparse vhdm) + 4 * nat blk \<le> i \<and> i < bat_offset (sparse vhdm) + 4 * nat blk + 4) \<Longrightarrow>
            content (f (mvhd_create_block vhdm blk)) i = content (f vhdm) i"
    using e by blast
qed

lemma conectix_char: "mvhd_is_conectix_str b \<longleftrightarrow>
   b 0 = 99 \<and> b 1 = 111 \<and> b 2 = 110 \<and> b 3 = 101 \<and> b 4 = 99 \<and> b 5 = 116 \<and> b 6 = 105 \<and> b 7 = 120"
  by (simp add: mvhd_is_conectix_str_def upt_8)

lemma valid_footer_offsets:
  assumes "mvhd_is_conectix_str (\<lambda>j. content fl (fsize fl - 512 + j))"
  shows "append_offset fl = fsize fl - 512" "kept_footer fl = file_tail fl"
proof -
  have "mvhd_is_conectix_str (file_tail fl)"
    using assms by (simp add: conectix_char file_tail_def)
  then show "append_offset fl = fsize fl - 512" "kept_footer fl = file_tail fl"
    by (simp_all add: append_offset_def kept_footer_def)
qed

lemma read_sect_bitmap_sparse_fields:
  assumes "block_offset vhdm ! nat blk = MVHD_SPARSE_BLK"
  shows "f (mvhd_read_sect_bitmap vhdm blk) = f vhdm"
    and "curr_bitmap (bitmap (mvhd_read_sect_bitmap vhdm blk)) =
           memset (curr_bitmap (bitmap vhdm)) 0 0 (size_t (sector_count (bitmap vhdm) * 512))"
  by (simp_all add: read_sect_bitmap_sparse [OF assms])

lemma empty_fields:
  "fsize (f empty_sparse_image) = 2560" "block_offset empty_sparse_image = [MVHD_SPARSE_BLK, MVHD_SPARSE_BLK]"
  "sector_count (bitmap empty_sparse_image) = 1" "sect_per_block empty_sparse_image = 4096"
  "curr_block (bitmap empty_sparse_image) = - 1" "total_sectors empty_sparse_image = 8192"
  "sparse empty_sparse_image = \<lparr>bat_offset = 1536, block_sz = 2097152\<rparr>"
  "alloc_log empty_sparse_image = []"
  by (simp_all add: empty_sparse_image_def total_sectors_def)

lemma empty_footer_valid:
  "mvhd_is_conectix_str (\<lambda>j. content (f empty_sparse_image) (2048 + j))"
  by (simp add: conectix_char empty_sparse_image_def)

lemma scn_c1_frame:
  "alloc_log scn_c1 = [0]" "sect_per_block scn_c1 = 4096" "sector_count (bitmap scn_c1) = 1"
  "curr_block (bitmap scn_c1) = 0" "sparse scn_c1 = \<lparr>bat_offset = 1536, block_sz = 2097152\<rparr>"
  "footer scn_c1 = footer empty_sparse_image"
  "curr_bitmap (bitmap scn_c1) j = 0"
  by (simp_all add: scn_c1_def create_block_frame read_sect_bitmap_frame empty_fields
        read_sect_bitmap_sparse_fields size_t_id memset_def)
     (simp add: empty_sparse_image_def)

lemma scn_c1_file:
  shows "block_offset scn_c1 = [4, MVHD_SPARSE_BLK]"
    and "fsize (f scn_c1) = 2102784"
    and "\<And>i. 2048 \<le> i \<Longrightarrow> i < 2102272 \<Longrightarrow> content (f scn_c1) i = 0"
    and "\<And>i. i < 512 \<Longrightarrow> content (f scn_c1) (2102272 + i) = content (f empty_sparse_image) (2048 + i)"
proof -
  let ?r = "mvhd_read_sect_bitmap empty_sparse_image 0"
  have fr: "f ?r = f empty_sparse_image"
    by (simp add: read_sect_bitmap_sparse_fields empty_fields)
  have ao: "append_offset (f ?r) = 2048" "kept_footer (f ?r) = file_tail (f empty_sparse_image)"
    using valid_footer_offsets [of "f empty_sparse_image"] empty_footer_valid
    by (simp_all add: fr empty_fields)
  have p: "pad_to_sector 2048 = 0" by (simp add: pad_to_sector_def)
  note c = create_block_at [of ?r 0 2048 2100224, folded scn_c1_def]
  have pre: "512 \<le> fsize (f ?r)" "fsize (f ?r) < 2 ^ 40" "(0::int) \<le> 0" "nat 0 < length (block_offset ?r)"
    "0 \<le> sector_count (bitmap ?r)" "bat_offset (sparse ?r) + 4 * nat 0 + 4 \<le> fsize (f ?r) - 512"
    "append_offset (f ?r) + pad_to_sector (append_offset (f ?r)) = 2048"
    "(nat (sector_count (bitmap ?r)) + block_sz (sparse ?r) div 512 + 5) * 512 = 2100224"
    by (simp_all add: read_sect_bitmap_frame empty_fields ao p)
  show "block_offset scn_c1 = [4, MVHD_SPARSE_BLK]"
    using c(1) [OF pre] by (simp add: read_sect_bitmap_frame empty_fields)
  show "fsize (f scn_c1) = 2102784" using c(2) [OF pre] by simp
  show "\<And>i. 2048 \<le> i \<Longrightarrow> i < 2102272 \<Longrightarrow> content (f scn_c1) i = 0"
    using c(3) [OF pre] by (simp add: ao)
  show "\<And>i. i < 512 \<Longrightarrow> content (f scn_c1) (2102272 + i) = content (f empty_sparse_image) (2048 + i)"
    using c(4) [OF pre] by (simp add: ao file_tail_def empty_fields)
qed

lemma scn1_eq:
  "sparse_write_body empty_sparse_image 4095 (- 1) scenario_data 0 =
     (scn_c1\<lparr>f := stream_write scenario_data 0 512 1 ((f scn_c1)\<lparr>fpos := 2099200\<rparr>),
             bitmap := (bitmap scn_c1)\<lparr>curr_bitmap := VHD_SETBIT (curr_bitmap (bitmap scn_c1)) 4095\<rparr>\<rparr>, 0)"
proof -
  have a: "uint ((4::32 word) + word_of_int 1 + word_of_int 4095) * 512 = 2099200" by simp
  show ?thesis
    by (subst write_body_alloc_eq)
       (simp_all add: empty_fields sdiv_nonneg smod_nonneg Let_def scn_c1_def [symmetric]
          scn_c1_file scn_c1_frame a fseeko64_SET)
qed

lemma scn1_fields:
  "block_offset scn1 = [4, MVHD_SPARSE_BLK]" "alloc_log scn1 = [0]"
  "sect_per_block scn1 = 4096" "sector_count (bitmap scn1) = 1"
  "curr_block (bitmap scn1) = 0" "sparse scn1 = \<lparr>bat_offset = 1536, block_sz = 2097152\<rparr>"
  "footer scn1 = footer empty_sparse_image" "fsize (f scn1) = 2102784"
  "curr_bitmap (bitmap scn1) j = (if j = 511 then 1 else 0)"
  by (simp_all add: scn1_def scn1_eq scn_c1_frame scn_c1_file fsize_fwrite
        VHD_SETBIT_def bit_mask_def sdiv_nonneg smod_nonneg)

lemma scn1_body: "sparse_write_body empty_sparse_image 4095 (- 1) scenario_data 0 = (scn1, 0)"
  by (simp add: scn1_def scn1_eq)

lemma scn1_content:
  "\<not> (2099200 \<le> i \<and> i < 2099712) \<Longrightarrow> content (f scn1) i = content (f scn_c1) i"
  by (auto simp add: scn1_def scn1_eq content_fwrite scn_c1_file(2))

lemma scn1_footer_valid:
  "mvhd_is_conectix_str (\<lambda>j. content (f scn1) (2102272 + j))"
proof -
  have "content (f scn1) k = content (f empty_sparse_image) (k - 2100224)"
    if "2102272 \<le> k" "k < 2102784" for k
    using that scn_c1_file(4) [of "k - 2102272"] by (simp add: scn1_content)
  then show ?thesis using empty_footer_valid by (simp add: conectix_char)
qed

lemma scn_c2_frame:
  "alloc_log scn_c2 = [0, 1]" "sect_per_block scn_c2 = 4096" "sector_count (bitmap scn_c2) = 1"
  "curr_block (bitmap scn_c2) = 1" "sparse scn_c2 = \<lparr>bat_offset = 1536, block_sz = 2097152\<rparr>"
  "footer scn_c2 = footer empty_sparse_image"
  "curr_bitmap (bitmap scn_c2) j = 0"
  by (simp_all add: scn_c2_def create_block_frame read_sect_bitmap_frame scn1_fields
        read_sect_bitmap_sparse_fields size_t_id memset_def)

lemma scn_c2_file:
  shows "block_offset scn_c2 = [4, 4106]"
    and "fsize (f scn_c2) = 4203008"
    and "\<And>i. 2102272 \<le> i \<Longrightarrow> i < 4202496 \<Longrightarrow> content (f scn_c2) i = 0"
    and "\<And>i. i < 2102272 \<Longrightarrow> \<not> (1540 \<le> i \<and> i < 1544) \<Longrightarrow> content (f scn_c2) i = content (f scn1) i"
proof -
  let ?r = "mvhd_read_sect_bitmap scn1 1"
  have fr: "f ?r = f scn1"
    by (simp add: read_sect_bitmap_sparse_fields scn1_fields)
  have ao: "append_offset (f ?r) = 2102272"
    using valid_footer_offsets [of "f scn1"] scn1_footer_valid
    by (simp_all add: fr scn1_fields)
  have p: "pad_to_sector 2102272 = 0" by (simp add: pad_to_sector_def)
  note c = create_block_at [of ?r 1 2102272 2100224, folded scn_c2_def]
  have pre: "512 \<le> fsize (f ?r)" "fsize (f ?r) < 2 ^ 40" "(0::int) \<le> 1" "nat 1 < length (block_offset ?r)"
    "0 \<le> sector_count (bitmap ?r)" "bat_offset (sparse ?r) + 4 * nat 1 + 4 \<le> fsize (f ?r) - 512"
    "append_offset (f ?r) + pad_to_sector (append_offset (f ?r)) = 2102272"
    "(nat (sector_count (bitmap ?r)) + block_sz (sparse ?r) div 512 + 5) * 512 = 2100224"
    by (simp_all add: read_sect_bitmap_frame scn1_fields ao p)
  show "block_offset scn_c2 = [4, 4106]"
    using c(1) [OF pre] by (simp add: read_sect_bitmap_frame scn1_fields)
  show "fsize (f scn_c2) = 4203008" using c(2) [OF pre] by simp
  show "\<And>i. 2102272 \<le> i \<Longrightarrow> i < 4202496 \<Longrightarrow> content (f scn_c2) i = 0"
    using c(3) [OF pre] by (simp add: ao)
  show "\<And>i. i < 2102272 \<Longrightarrow> \<not> (1540 \<le> i \<and> i < 1544) \<Longrightarrow> content (f scn_c2) i = content (f scn1) i"
    using c(6) [OF pre] ao by (simp add: fr read_sect_bitmap_frame scn1_fields)
qed

lemma scn2_eq:
  "sparse_write_body scn1 4096 0 scenario_data 512 =
     (scn_c2\<lparr>f := stream_write scenario_data 512 512 1 ((f scn_c2)\<lparr>fpos := 2102784\<rparr>),
             bitmap := (bitmap scn_c2)\<lparr>curr_bitmap := VHD_SETBIT (curr_bitmap (bitmap scn_c2)) 0\<rparr>\<rparr>, 1)"
proof -
  have a: "uint ((4106::32 word) + word_of_int 1 + word_of_int 0) * 512 = 2102784" by simp
  show ?thesis
    by (subst write_body_alloc_eq)
       (simp_all add: scn1_fields sdiv_nonneg smod_nonneg Let_def scn_c2_def [symmetric]
          scn_c2_file scn_c2_frame a fseeko64_SET)
qed

lemma scn2_body: "sparse_write_body scn1 4096 0 scenario_data 512 = (scn2, 1)"
  by (simp add: scn2_def scn2_eq)

lemma scn2_fields:
  "block_offset scn2 = [4, 4106]" "alloc_log scn2 = [0, 1]"
  "sect_per_block scn2 = 4096" "sector_count (bitmap scn2) = 1"
  "curr_block (bitmap scn2) = 1" "sparse scn2 = \<lparr>bat_offset = 1536, block_sz = 2097152\<rparr>"
  "footer scn2 = footer empty_sparse_image" "fsize (f scn2) = 4203008" "fpos (f scn2) = 2103296"
  "curr_bitmap (bitmap scn2) j = (if j = 0 then 0x80 else 0)"
  by (simp_all add: scn2_def scn2_eq scn_c2_frame scn_c2_file fsize_fwrite fpos_fwrite
        VHD_SETBIT_def bit_mask_def)

lemma scn2_content:
  "content (f scn2) i = (if 2102784 \<le> i \<and> i < 2103296 then scenario_data (512 + (i - 2102784))
                         else content (f scn_c2) i)"
  by (auto simp add: scn2_def scn2_eq content_fwrite scn_c2_file(2))

lemma scn3_eq:
  "sparse_write_body scn2 4097 1 scenario_data 1024 =
     (scn2\<lparr>f := stream_write scenario_data 1024 512 1 (f scn2),
           bitmap := (bitmap scn2)\<lparr>curr_bitmap := VHD_SETBIT (curr_bitmap (bitmap scn2)) 1\<rparr>\<rparr>, 1)"
  by (subst write_body_same_eq)
     (simp_all add: scn2_fields sdiv_nonneg smod_nonneg MVHD_SPARSE_BLK_def)

lemma scn3_body: "sparse_write_body scn2 4097 1 scenario_data 1024 = (scn3, 1)"
  by (simp add: scn3_def scn3_eq)

lemma scn3_fields:
  "block_offset scn3 = [4, 4106]" "alloc_log scn3 = [0, 1]"
  "sect_per_block scn3 = 4096" "sector_count (bitmap scn3) = 1"
  "curr_block (bitmap scn3) = 1" "sparse scn3 = \<lparr>bat_offset = 1536, block_sz = 2097152\<rparr>"
  "footer scn3 = footer empty_sparse_image" "fsize (f scn3) = 4203008" "fpos (f scn3) = 2103808"
  "curr_bitmap (bitmap scn3) j = (if j = 0 then 0xC0 else 0)"
  by (simp_all add: scn3_def scn3_eq scn2_fields fsize_fwrite fpos_fwrite
        VHD_SETBIT_def bit_mask_def sdiv_nonneg smod_nonneg)

lemma scn3_content:
  "content (f scn3) i = (if 2103296 \<le> i \<and> i < 2103808 then scenario_data (1024 + (i - 2103296))
                         else content (f scn2) i)"
  by (auto simp add: scn3_def scn3_eq content_fwrite scn2_fields)

lemma written_image_eq:
  "mvhd_sparse_diff_write empty_sparse_image 4095 3 scenario_data 0 =
     (scn3\<lparr>f := stream_write (curr_bitmap (bitmap scn3)) 0 512 1 ((f scn3)\<lparr>fpos := 2102272\<rparr>)\<rparr>, 0)"
proof -
  have a: "uint ((4106::32 word) * 512) = 2102272" by simp
  have l: "sparse_write_loop empty_sparse_image 4095 4098 (- 1) scenario_data 0 = scn3"
    by (simp add: sparse_write_loop_step sparse_write_loop_done scn1_body scn2_body scn3_body)
  show ?thesis
    by (simp add: mvhd_sparse_diff_write_def mvhd_check_sectors_def empty_fields l
          write_curr_sect_bitmap_cached scn3_fields a fseeko64_SET size_t_id)
qed

lemma written_fields:
  "block_offset written_image = [4, 4106]" "alloc_log written_image = [0, 1]"
  "sect_per_block written_image = 4096" "sector_count (bitmap written_image) = 1"
  "curr_block (bitmap written_image) = 1"
  "footer written_image = footer empty_sparse_image" "fsize (f written_image) = 4203008"
  "curr_bitmap (bitmap written_image) j = (if j = 0 then 0xC0 else 0)"
  by (simp_all add: written_image_def written_image_eq scn3_fields fsize_fwrite)

lemma written_content:
  "content (f written_image) i =
     (if 2102272 \<le> i \<and> i < 2102784 then (if i = 2102272 then 0xC0 else 0)
      else content (f scn3) i)"
  by (auto simp add: written_image_def written_image_eq content_fwrite scn3_fields)

lemma written_bitmap0_on_disk: "2048 \<le> i \<Longrightarrow> i < 2560 \<Longrightarrow> content (f written_image) i = 0"
  by (simp add: written_content scn3_content scn2_content scn_c2_file scn1_content scn_c1_file)

lemma written_data_on_disk:
  "2102784 \<le> i \<Longrightarrow> i < 2103808 \<Longrightarrow> content (f written_image) i = scenario_data (512 + (i - 2102784))"
  by (auto simp add: written_content scn3_content scn2_content)

lemma read_sect_bitmap_same_image: "same_image (mvhd_read_sect_bitmap vhdm blk) vhdm"
  by (simp add: same_image_def read_sect_bitmap_frame)

lemma sparse_read_body_same_image: "same_image (fst (sparse_read_body vhdm s p buf boff)) vhdm"
  by (simp add: sparse_read_body_def Let_def case_prod_beta same_image_def read_sect_bitmap_frame)

lemma uint_sector_4: "uint ((4::32 word) * 512) = 2048" "uint ((4106::32 word) * 512) = 2102272"
  by simp_all

lemma rd1_body:
  "sparse_read_body written_image 4095 (- 1) scn_out 0 = (rd1, 0, memset scn_out 0 0 512)"
proof -
  let ?v = "mvhd_read_sect_bitmap written_image 0"
  have bm: "curr_bitmap (bitmap ?v) 511 = 0"
    by (simp add: read_sect_bitmap_alloc written_fields MVHD_SPARSE_BLK_def Let_def uint_sector_4
          fseeko64_SET size_t_id fread_fst written_bitmap0_on_disk)
  have tb: "\<not> VHD_TESTBIT (curr_bitmap (bitmap ?v)) 4095"
    by (rule testbit_zero) (simp add: sdiv_nonneg bm)
  have "sparse_read_body written_image 4095 (- 1) scn_out 0 =
          (?v\<lparr>f := fseeko64 (f ?v) (4095 * 512) SEEK_CUR\<rparr>, 0, memset scn_out 0 0 512)"
    using tb
    by (simp add: sparse_read_body_def Let_def written_fields sdiv_nonneg smod_nonneg)
  then show ?thesis by (simp add: rd1_def)
qed

lemma rd1_fields:
  "block_offset rd1 = [4, 4106]" "sect_per_block rd1 = 4096" "sector_count (bitmap rd1) = 1"
  "curr_block (bitmap rd1) = 0" "fsize (f rd1) = 4203008" "content (f rd1) = content (f written_image)"
proof -
  have "same_image rd1 written_image" unfolding rd1_def by (rule sparse_read_body_same_image)
  then show "block_offset rd1 = [4, 4106]" "sect_per_block rd1 = 4096" "sector_count (bitmap rd1) = 1"
    "fsize (f rd1) = 4203008" "content (f rd1) = content (f written_image)"
    by (simp_all add: same_image_def written_fields)
  show "curr_block (bitmap rd1) = 0"
    by (simp add: rd1_def sparse_read_body_def Let_def written_fields sdiv_nonneg smod_nonneg
          case_prod_beta read_sect_bitmap_frame)
qed

lemma rd2_read_bitmap:
  "fpos (f (mvhd_read_sect_bitmap rd1 1)) = 2102784"
  "curr_bitmap (bitmap (mvhd_read_sect_bitmap rd1 1)) 0 = 0xC0"
  "fsize (f (mvhd_read_sect_bitmap rd1 1)) = 4203008"
  "content (f (mvhd_read_sect_bitmap rd1 1)) = content (f written_image)"
  by (simp_all add: read_sect_bitmap_alloc rd1_fields MVHD_SPARSE_BLK_def Let_def uint_sector_4
        fseeko64_SET size_t_id fread_fst fread_snd written_content)

lemma rd2_body:
  "sparse_read_body rd1 4096 0 (memset scn_out 0 0 512) 512 = (rd2, 1, scn_out2)"
proof -
  let ?v = "mvhd_read_sect_bitmap rd1 1"
  have tb: "VHD_TESTBIT (curr_bitmap (bitmap ?v)) 0"
    by (simp add: VHD_TESTBIT_def bit_mask_def rd2_read_bitmap)
  have sk: "fseeko64 (f ?v) 0 SEEK_CUR = (f ?v)\<lparr>fpos := 2102784\<rparr>"
    by (simp add: fseeko64_CUR rd2_read_bitmap)
  have "sparse_read_body rd1 4096 0 (memset scn_out 0 0 512) 512 =
          (?v\<lparr>f := snd (stream_read (memset scn_out 0 0 512) 512 512 1 ((f ?v)\<lparr>fpos := 2102784\<rparr>))\<rparr>, 1, scn_out2)"
    using tb
    by (simp add: sparse_read_body_def Let_def rd1_fields sdiv_nonneg smod_nonneg sk
          case_prod_beta scn_out2_def)
  then show ?thesis by (simp add: rd2_def)
qed

lemma rd2_fields:
  "sect_per_block rd2 = 4096" "block_offset rd2 = [4, 4106]"
  "fsize (f rd2) = 4203008" "content (f rd2) = content (f written_image)"
  "fpos (f rd2) = 2103296" "curr_bitmap (bitmap rd2) 0 = 0xC0"
proof -
  have "same_image rd2 rd1" unfolding rd2_def by (rule sparse_read_body_same_image)
  then show "sect_per_block rd2 = 4096" "block_offset rd2 = [4, 4106]"
    "fsize (f rd2) = 4203008" "content (f rd2) = content (f written_image)"
    by (simp_all add: same_image_def rd1_fields)
  have e: "rd2 = (mvhd_read_sect_bitmap rd1 1)\<lparr>f := snd (stream_read (memset scn_out 0 0 512) 512 512 1
                     ((f (mvhd_read_sect_bitmap rd1 1))\<lparr>fpos := 2102784\<rparr>))\<rparr>"
  proof -
    have tb: "VHD_TESTBIT (curr_bitmap (bitmap (mvhd_read_sect_bitmap rd1 1))) 0"
      by (simp add: VHD_TESTBIT_def bit_mask_def rd2_read_bitmap)
    have sk: "fseeko64 (f (mvhd_read_sect_bitmap rd1 1)) 0 SEEK_CUR = (f (mvhd_read_sect_bitmap rd1 1))\<lparr>fpos := 2102784\<rparr>"
      by (simp add: fseeko64_CUR rd2_read_bitmap)
    show ?thesis
      using tb
      by (simp add: rd2_def sparse_read_body_def Let_def rd1_fields sdiv_nonneg smod_nonneg sk
            case_prod_beta)
  qed
  show "fpos (f rd2) = 2103296" by (simp add: e fread_snd rd2_read_bitmap)
  show "curr_bitmap (bitmap rd2) 0 = 0xC0" by (simp add: e rd2_read_bitmap)
qed

lemma scn_out2_bytes:
  "scn_out2 i = (if i < 512 then 0 else if i < 1024 then scenario_data i else 0xFF)"
  by (auto simp add: scn_out2_def fread_fst rd2_read_bitmap memset_def scn_out_def written_data_on_disk)

lemma rd3_body:
  "snd (sparse_read_body rd2 4097 1 scn_out2 1024) =
     (1, scn_out3)"
proof -
  have tb: "VHD_TESTBIT (curr_bitmap (bitmap rd2)) 1"
    by (simp add: VHD_TESTBIT_def bit_mask_def rd2_fields smod_nonneg sdiv_nonneg)
  show ?thesis
    using tb
    by (simp add: sparse_read_body_def Let_def rd2_fields sdiv_nonneg smod_nonneg case_prod_beta
          scn_out3_def)
qed

lemma scn_out3_bytes:
  "scn_out3 i = (if i < 512 then 0 else if i < 1536 then scenario_data i else 0xFF)"
  by (auto simp add: scn_out3_def fread_fst rd2_fields scn_out2_bytes written_data_on_disk)

lemma read_back:
  "snd (mvhd_sparse_read written_image 4095 3 scn_out 0) =
     (scn_out3, 0)"
proof -
  have t: "total_sectors written_image = 8192"
    by (simp add: total_sectors_def written_fields) (simp add: empty_sparse_image_def)
  obtain v3 where "sparse_read_body rd2 4097 1 scn_out2 1024 = (v3, 1, scn_out3)"
    using rd3_body by (cases "sparse_read_body rd2 4097 1 scn_out2 1024") auto
  then show ?thesis
    by (simp add: mvhd_sparse_read_def mvhd_check_sectors_def t sparse_read_loop_step
          sparse_read_loop_done rd1_body rd2_body)
qed

lemma scn4_read_bitmap:
  "fpos (f (mvhd_read_sect_bitmap written_image 0)) = 2560"
  "curr_bitmap (bitmap (mvhd_read_sect_bitmap written_image 0)) j = 0"
  by (auto simp add: read_sect_bitmap_alloc written_fields MVHD_SPARSE_BLK_def Let_def uint_sector_4
        fseeko64_SET size_t_id fread_fst fread_snd written_bitmap0_on_disk)

lemma scn4_eq:
  "sparse_write_body written_image 0 (- 1) scenario_data 0 =
     ((mvhd_read_sect_bitmap written_image 0)
        \<lparr>f := stream_write scenario_data 0 512 1 (f (mvhd_read_sect_bitmap written_image 0)),
         bitmap := (bitmap (mvhd_read_sect_bitmap written_image 0))\<lparr>curr_bitmap :=
            VHD_SETBIT (curr_bitmap (bitmap (mvhd_read_sect_bitmap written_image 0))) 0\<rparr>\<rparr>, 0)"
proof -
  have sk: "fseeko64 (f (mvhd_read_sect_bitmap written_image 0)) 0 SEEK_CUR =
              f (mvhd_read_sect_bitmap written_image 0)"
    by (simp add: fseeko64_CUR)
  show ?thesis
    by (subst write_body_miss_eq)
       (simp_all add: written_fields sdiv_nonneg smod_nonneg MVHD_SPARSE_BLK_def Let_def sk)
qed

lemma scn4_body: "sparse_write_body written_image 0 (- 1) scenario_data 0 = (scn4, 0)"
  by (simp add: scn4_def scn4_eq)

lemma scn4_fields:
  "block_offset scn4 = [4, 4106]" "alloc_log scn4 = [0, 1]" "sector_count (bitmap scn4) = 1"
  "curr_block (bitmap scn4) = 0" "fsize (f scn4) = 4203008"
  "curr_bitmap (bitmap scn4) j = (if j = 0 then 0x80 else 0)"
  by (simp_all add: scn4_def scn4_eq read_sect_bitmap_frame written_fields fsize_fwrite
        scn4_read_bitmap VHD_SETBIT_def bit_mask_def)

lemma scn4_content:
  "content (f scn4) i = (if 2560 \<le> i \<and> i < 3072 then scenario_data (i - 2560)
                         else content (f written_image) i)"
  by (auto simp add: scn4_def scn4_eq content_fwrite read_sect_bitmap_frame written_fields
        scn4_read_bitmap)

lemma revisited_image_eq:
  "mvhd_sparse_diff_write written_image 0 1 scenario_data 0 =
     (scn4\<lparr>f := stream_write (curr_bitmap (bitmap scn4)) 0 512 1 ((f scn4)\<lparr>fpos := 2048\<rparr>)\<rparr>, 0)"
proof -
  have t: "total_sectors written_image = 8192"
    by (simp add: total_sectors_def written_fields) (simp add: empty_sparse_image_def)
  have l: "sparse_write_loop written_image 0 1 (- 1) scenario_data 0 = scn4"
    by (simp add: sparse_write_loop_step sparse_write_loop_done scn4_body)
  show ?thesis
    by (simp add: mvhd_sparse_diff_write_def mvhd_check_sectors_def t l
          write_curr_sect_bitmap_cached scn4_fields uint_sector_4 fseeko64_SET size_t_id)
qed

lemma revisited_content:
  "content (f revisited_image) i =
     (if 2048 \<le> i \<and> i < 2560 then (if i = 2048 then 0x80 else 0)
      else content (f scn4) i)"
  by (auto simp add: revisited_image_def revisited_image_eq content_fwrite scn4_fields)

text \<open>
  C1 fails on the code. In the spec's scenario the write of sectors 4095 to 4097 returns 0
  and allocates blocks 0 and 1, but the read of the same sectors returns zero bytes for
  sector 4095 (whose data bytes are 1) and the written bytes only for sectors 4096 and
  4097: when the loop reaches the unallocated block 1 it calls \<^verbatim>\<open>mvhd_read_sect_bitmap\<close>,
  which zeroes the cached bitmap of block 0 before anything has flushed it, so the bit of
  sector 4095 never reaches the file.
\<close>

theorem roundtrip_loses_sector_before_new_block:
  "mvhd_sparse_diff_write empty_sparse_image 4095 3 scenario_data 0 = (written_image, 0) \<and>
   alloc_log written_image = [0, 1] \<and> block_offset written_image = [4, 4106] \<and>
   snd (mvhd_sparse_read written_image 4095 3 scn_out 0) =
     (\<lambda>i. if i < 512 then 0 else if i < 1536 then scenario_data i else 0xFF, 0) \<and>
   scenario_data 0 = 1 \<and> scenario_data 511 = 1 \<and>
   \<not> VHD_TESTBIT (\<lambda>j. content (f written_image) (2048 + j)) 4095"
proof -
  have w: "mvhd_sparse_diff_write empty_sparse_image 4095 3 scenario_data 0 = (written_image, 0)"
    by (simp add: written_image_def written_image_eq)
  have d: "scenario_data 0 = 1" "scenario_data 511 = 1"
    by (simp_all add: scenario_data_def)
  have o: "scn_out3 = (\<lambda>i. if i < 512 then 0 else if i < 1536 then scenario_data i else 0xFF)"
    by (rule ext) (simp add: scn_out3_bytes)
  have b: "\<not> VHD_TESTBIT (\<lambda>j. content (f written_image) (2048 + j)) 4095"
    by (rule testbit_zero) (simp add: sdiv_nonneg written_bitmap0_on_disk)
  show ?thesis using w d b by (simp add: written_fields read_back o)
qed

text \<open>
  C2 fails on the code. The writes visit block 0, block 1 (first call, sectors 4095 to 4097)
  and block 0 again (second call, sector 0). Afterwards the on-disk bitmap of block 1 has
  the bits of sectors 4096 and 4097 and the on-disk bitmap of block 0 has the bit of
  sector 0, but not the bit of sector 4095: the cache was repointed to the new block 1
  without a flush.
\<close>

theorem revisit_leaves_bitmap_bit_unset:
  "mvhd_sparse_diff_write empty_sparse_image 4095 3 scenario_data 0 = (written_image, 0) \<and>
   mvhd_sparse_diff_write written_image 0 1 scenario_data 0 = (revisited_image, 0) \<and>
   block_offset revisited_image = [4, 4106] \<and>
   VHD_TESTBIT (\<lambda>j. content (f revisited_image) (2048 + j)) 0 \<and>
   \<not> VHD_TESTBIT (\<lambda>j. content (f revisited_image) (2048 + j)) 4095 \<and>
   VHD_TESTBIT (\<lambda>j. content (f revisited_image) (2102272 + j)) 0 \<and>
   VHD_TESTBIT (\<lambda>j. content (f revisited_image) (2102272 + j)) 1"
proof -
  have w: "mvhd_sparse_diff_write empty_sparse_image 4095 3 scenario_data 0 = (written_image, 0)"
    by (simp add: written_image_def written_image_eq)
  have r: "mvhd_sparse_diff_write written_image 0 1 scenario_data 0 = (revisited_image, 0)"
    by (simp add: revisited_image_def revisited_image_eq)
  have b: "block_offset revisited_image = [4, 4106]"
    by (simp add: revisited_image_def revisited_image_eq scn4_fields)
  have c: "content (f revisited_image) 2048 = 0x80" "content (f revisited_image) 2559 = 0"
    "content (f revisited_image) 2102272 = 0xC0"
    by (simp_all add: revisited_content scn4_content written_content)
  show ?thesis
    using w r b c by (simp add: VHD_TESTBIT_def bit_mask_def sdiv_nonneg smod_nonneg)
qed

theorem allocator_never_twice_witness:
  "0 < sect_per_block empty_sparse_image \<and>
   total_sectors empty_sparse_image
     \<le> int (length (block_offset empty_sparse_image)) * sect_per_block empty_sparse_image \<and>
   512 \<le> fsize (f empty_sparse_image) \<and>
   fsize (f (fst (mvhd_sparse_diff_write empty_sparse_image 4095 3 scenario_data 0))) \<le> 2199023255040 \<and>
   log_ok empty_sparse_image \<and>
   alloc_log (fst (mvhd_sparse_diff_write empty_sparse_image 4095 3 scenario_data 0)) = [0, 1] \<and>
   log_ok (fst (mvhd_sparse_diff_write empty_sparse_image 4095 3 scenario_data 0)) \<and>
   block_offset written_image ! nat (0 div sect_per_block written_image) \<noteq> MVHD_SPARSE_BLK \<and>
   alloc_log (fst (mvhd_sparse_diff_write written_image 0 1 scenario_data 0)) = alloc_log written_image \<and>
   block_offset (fst (mvhd_sparse_diff_write written_image 0 1 scenario_data 0)) = block_offset written_image"
proof -
  have w: "fst (mvhd_sparse_diff_write empty_sparse_image 4095 3 scenario_data 0) = written_image"
    by (simp add: written_image_def)
  have r: "fst (mvhd_sparse_diff_write written_image 0 1 scenario_data 0) = revisited_image"
    by (simp add: revisited_image_def)
  have fr: "fsize (f revisited_image) = 4203008"
    by (simp add: revisited_image_def revisited_image_eq fsize_fwrite scn4_fields)
  have tw: "total_sectors written_image = 8192"
    by (simp add: total_sectors_def written_fields) (simp add: empty_sparse_image_def)
  have l0: "log_ok empty_sparse_image" by (simp add: log_ok_def empty_fields)
  have al: "\<forall>s. 0 \<le> s \<and> s < 0 + 1 \<longrightarrow>
        block_offset written_image ! nat (s div sect_per_block written_image) \<noteq> MVHD_SPARSE_BLK"
    by (auto simp add: written_fields MVHD_SPARSE_BLK_def)
  have a: "log_ok written_image"
    using allocator_never_twice [where vhdm = empty_sparse_image and off = 4095 and num = 3
        and buf = scenario_data and boff = 0] l0
    by (simp add: w Let_def empty_fields written_fields)
  have b: "alloc_log revisited_image = alloc_log written_image \<and>
           block_offset revisited_image = block_offset written_image"
  proof -
    note t = allocator_never_twice [where vhdm = written_image and off = 0 and num = 1
        and buf = scenario_data and boff = 0, unfolded r Let_def]
    have "(\<forall>s. 0 \<le> s \<and> s < 0 + 1 \<longrightarrow>
            block_offset written_image ! nat (s div sect_per_block written_image) \<noteq> MVHD_SPARSE_BLK) \<longrightarrow>
          alloc_log revisited_image = alloc_log written_image \<and>
          block_offset revisited_image = block_offset written_image"
      using t by (simp add: written_fields tw fr)
    with al show ?thesis by blast
  qed
  have al0: "block_offset written_image ! nat (0 div sect_per_block written_image) \<noteq> MVHD_SPARSE_BLK"
    by (simp add: written_fields MVHD_SPARSE_BLK_def)
  show ?thesis
    using a b al0 l0 by (simp add: w r empty_fields written_fields)
qed

subsection \<open>Reading through a differencing chain\<close>

lemma same_image_disk:
  assumes "same_image a b"
  shows "bitmap_base a s = bitmap_base b s" "disk_bit a s = disk_bit b s"
    "stored_sector a s = stored_sector b s" "flat_sector a s = flat_sector b s"
  using assms
  by (simp_all add: same_image_def bitmap_base_def disk_bit_def stored_sector_def flat_sector_def)

lemma testbit_cong:
  "A (nat (k sdiv 8)) = B (nat (k sdiv 8)) \<Longrightarrow> VHD_TESTBIT A k = VHD_TESTBIT B k"
  by (simp add: VHD_TESTBIT_def)

text \<open>Facts about the block of a sector of a readable image.\<close>

lemma readable_block:
  assumes r: "readable img" and s: "0 \<le> s" "s < total_sectors img"
  shows "0 \<le> s div sect_per_block img" "nat (s div sect_per_block img) < length (block_offset img)"
    "s sdiv sect_per_block img = s div sect_per_block img"
    "s smod sect_per_block img = s mod sect_per_block img"
    "0 \<le> s mod sect_per_block img" "s mod sect_per_block img < sect_per_block img"
    "nat ((s mod sect_per_block img) sdiv 8) < nat (sector_count (bitmap img)) * 512"
proof -
  have fits: "bitmap_fits img" using r by (simp add: readable_def)
  then have spb: "0 < sect_per_block img" by (simp add: bitmap_fits_def)
  show "0 \<le> s div sect_per_block img" using s(1) spb by (simp add: pos_imp_zdiv_nonneg_iff)
  have "total_sectors img \<le> int (length (block_offset img)) * sect_per_block img"
    using r by (simp add: readable_def)
  then show "nat (s div sect_per_block img) < length (block_offset img)"
    by (rule block_in_bat [OF spb s])
  show "s sdiv sect_per_block img = s div sect_per_block img"
    "s smod sect_per_block img = s mod sect_per_block img"
    using s(1) spb by (simp_all add: sdiv_nonneg smod_nonneg)
  show "0 \<le> s mod sect_per_block img" "s mod sect_per_block img < sect_per_block img"
    using spb by simp_all
  show "nat ((s mod sect_per_block img) sdiv 8) < nat (sector_count (bitmap img)) * 512"
    using bit_index_fits [OF fits s(1)] .
qed

lemma readable_region:
  assumes r: "readable img" and s: "0 \<le> s" "s < total_sectors img"
      and a: "block_offset img ! nat (s div sect_per_block img) \<noteq> MVHD_SPARSE_BLK"
  shows "bitmap_base img s + (nat (sector_count (bitmap img)) + nat (sect_per_block img)) * 512 \<le> fsize (f img)"
    and "fsize (f img) \<le> 2 ^ 32"
  using r a readable_block(2) [OF r s]
  by (simp_all add: readable_def bitmap_base_def algebra_simps)

lemma uint_times_512:
  fixes w :: "32 word"
  assumes "unat w * 512 < 2 ^ 32"
  shows "uint (w * 512) = int (unat w * 512)"
proof -
  have "unat (w * 512) = unat w * unat (512 :: 32 word)"
    using assms by (subst unat_mult_lem [symmetric]) simp
  then have "unat (w * 512) = unat w * 512" by simp
  then show ?thesis by (metis uint_nat)
qed

lemma uint_sum_sector:
  fixes w :: "32 word"
  assumes "unat w + a + b < 2 ^ 32"
  shows "uint (w + word_of_int (int a) + word_of_int (int b)) = int (unat w + a + b)"
proof -
  have "w + word_of_int (int a) + word_of_int (int b) = (word_of_nat (unat w + a + b) :: 32 word)"
    by simp
  moreover have "unat (word_of_nat (unat w + a + b) :: 32 word) = unat w + a + b"
    using assms unat_of_nat [of "unat w + a + b", where 'a = 32]
    by (simp del: of_nat_add of_nat_unat)
  ultimately show ?thesis by (metis uint_nat)
qed

lemma nat_uint_512: "nat (uint w * 512) = unat w * 512"
  by (simp add: nat_mult_distrib)

lemma cached_bit:
  assumes r: "readable img" and s: "0 \<le> s" "s < total_sectors img"
      and c: "curr_block (bitmap img) = s div sect_per_block img"
  shows "VHD_TESTBIT (curr_bitmap (bitmap img)) (s mod sect_per_block img) = disk_bit img s"
proof -
  note b = readable_block [OF r s]
  have co: "\<forall>j < nat (sector_count (bitmap img)) * 512.
           curr_bitmap (bitmap img) j =
             (if block_offset img ! nat (s div sect_per_block img) = MVHD_SPARSE_BLK then 0
              else content (f img) (bitmap_base img s + j))"
    using r b(1) by (simp add: readable_def cache_coherent_def c bitmap_base_def)
  show ?thesis
  proof (cases "block_offset img ! nat (s div sect_per_block img) = MVHD_SPARSE_BLK")
    case True
    then have "curr_bitmap (bitmap img) (nat ((s mod sect_per_block img) sdiv 8)) = 0"
      using co b(7) by simp
    then show ?thesis using True by (simp add: testbit_zero disk_bit_def)
  next
    case False
    then have "curr_bitmap (bitmap img) (nat ((s mod sect_per_block img) sdiv 8)) =
               content (f img) (bitmap_base img s + nat ((s mod sect_per_block img) sdiv 8))"
      using co b(7) by simp
    from testbit_cong [of "curr_bitmap (bitmap img)" _ "\<lambda>j. content (f img) (bitmap_base img s + j)", OF this]
    show ?thesis using False by (simp add: disk_bit_def)
  qed
qed

lemma read_sect_bitmap_allocated:
  assumes r: "readable img" and blk: "nat blk < length (block_offset img)"
      and a: "block_offset img ! nat blk \<noteq> MVHD_SPARSE_BLK"
  shows "fpos (f (mvhd_read_sect_bitmap img blk)) =
           (unat (block_offset img ! nat blk) + nat (sector_count (bitmap img))) * 512"
    and "\<forall>j < nat (sector_count (bitmap img)) * 512.
           curr_bitmap (bitmap (mvhd_read_sect_bitmap img blk)) j =
             content (f img) (unat (block_offset img ! nat blk) * 512 + j)"
proof -
  let ?w = "block_offset img ! nat blk"
  let ?sc = "sector_count (bitmap img)"
  have fits: "bitmap_fits img" using r by (simp add: readable_def)
  have reg: "(unat ?w + nat ?sc + nat (sect_per_block img)) * 512 \<le> fsize (f img)"
    "fsize (f img) \<le> 2 ^ 32"
    using r blk a by (simp_all add: readable_def)
  have spb: "0 < sect_per_block img" using fits by (simp add: bitmap_fits_def)
  have lt: "unat ?w * 512 < 2 ^ 32" using reg spb by simp
  have u: "uint (?w * 512) = int (unat ?w * 512)" using uint_times_512 [OF lt] .
  have sz: "size_t (?sc * 512) = nat ?sc * 512" using size_t_bitmap [OF fits] .
  have inside: "unat ?w * 512 + nat ?sc * 512 \<le> fsize (f img)" using reg(1) by simp
  have m: "min (nat ?sc * 512) (fsize (f img) - unat ?w * 512) = nat ?sc * 512"
    using inside by simp
  have "0 \<le> ?sc" "?sc < 4194304" using fits by (simp_all add: bitmap_fits_def)
  then have "nat ?sc < 4194304" by linarith
  then have small: "nat ?sc * 512 \<le> SSIZE_MAX" by simp
  show "fpos (f (mvhd_read_sect_bitmap img blk)) = (unat ?w + nat ?sc) * 512"
    using a small
    by (simp add: read_sect_bitmap_alloc Let_def u sz fseeko64_SET fread_snd m nat_uint_512)
  show "\<forall>j < nat ?sc * 512.
           curr_bitmap (bitmap (mvhd_read_sect_bitmap img blk)) j = content (f img) (unat ?w * 512 + j)"
    using a small
    by (simp add: read_sect_bitmap_alloc Let_def u sz fseeko64_SET fread_fst m nat_uint_512)
qed

lemma read_sect_bitmap_readable:
  assumes r: "readable img" and blk: "0 \<le> blk" "nat blk < length (block_offset img)"
  shows "readable (mvhd_read_sect_bitmap img blk)"
proof -
  let ?v = "mvhd_read_sect_bitmap img blk"
  have si: "same_image ?v img" by (rule read_sect_bitmap_same_image)
  have fits: "bitmap_fits img" using r by (simp add: readable_def)
  have co: "cache_coherent ?v"
  proof (cases "block_offset img ! nat blk = MVHD_SPARSE_BLK")
    case True
    then show ?thesis
      using blk size_t_bitmap [OF fits]
      by (simp add: cache_coherent_def read_sect_bitmap_frame read_sect_bitmap_sparse_fields memset_def)
  next
    case False
    then show ?thesis
      using blk read_sect_bitmap_allocated(2) [OF r blk(2) False]
      by (simp add: cache_coherent_def read_sect_bitmap_frame)
  qed
  show ?thesis
    using r co si same_image_fits [OF si] same_image_total [OF si]
    by (simp add: readable_def same_image_def)
qed

lemma readable_moved:
  assumes "readable v" "content fl = content (f v)" "fsize fl = fsize (f v)"
  shows "readable (v\<lparr>f := fl\<rparr>)" "same_image (v\<lparr>f := fl\<rparr>) v"
  using assms
  by (simp_all add: readable_def bitmap_fits_def total_sectors_def cache_coherent_def same_image_def)

lemma sector_inside:
  fixes a c d base F :: nat
  shows "a < d \<Longrightarrow> base + (c + d) * 512 \<le> F \<Longrightarrow> base + (c + a) * 512 + 512 \<le> F"
  by (simp add: add_mult_distrib)

lemma sparse_read_one_eq:
  "s < total_sectors img \<Longrightarrow>
   mvhd_sparse_read img s 1 buf boff =
     (case sparse_read_body img s (- 1) buf boff of (v1, p1, buf1) \<Rightarrow> (v1, buf1, 0))"
  by (simp add: mvhd_sparse_read_def mvhd_check_sectors_def sparse_read_loop_step
        sparse_read_loop_done case_prod_beta)

lemma sparse_read_one:
  assumes r: "readable img" and s: "0 \<le> s" "s < total_sectors img"
  shows "\<exists>img'. mvhd_sparse_read img s 1 buf boff =
           (img', (\<lambda>i. if boff \<le> i \<and> i < boff + 512
                        then (if disk_bit img s then stored_sector img s (i - boff) else 0)
                        else buf i), 0)
         \<and> same_image img' img \<and> readable img'"
proof -
  let ?spb = "sect_per_block img"
  let ?blk = "s div ?spb"
  let ?sib = "s mod ?spb"
  let ?sc = "sector_count (bitmap img)"
  let ?w = "block_offset img ! nat ?blk"
  note b = readable_block [OF r s]
  have fits: "bitmap_fits img" using r by (simp add: readable_def)
  have sc: "0 \<le> ?sc" using fits by (simp add: bitmap_fits_def)
  define v1 where "v1 =
     (if curr_block (bitmap img) \<noteq> ?blk
      then (let v = mvhd_read_sect_bitmap img ?blk in v\<lparr>f := fseeko64 (f v) (?sib * 512) SEEK_CUR\<rparr>)
      else img\<lparr>f := fseeko64 (f img) (uint (?w + word_of_int ?sc + word_of_int ?sib) * 512) SEEK_SET\<rparr>)"
  have body: "sparse_read_body img s (- 1) buf boff =
      (if VHD_TESTBIT (curr_bitmap (bitmap v1)) ?sib
       then (v1\<lparr>f := snd (stream_read buf boff 512 1 (f v1))\<rparr>, ?blk, fst (stream_read buf boff 512 1 (f v1)))
       else (v1, ?blk, memset buf boff 0 512))"
    using b(1) by (simp add: sparse_read_body_def Let_def b(3,4) v1_def case_prod_beta)
  have v1: "same_image v1 img" "readable v1" "curr_block (bitmap v1) = ?blk"
   and pos: "?w \<noteq> MVHD_SPARSE_BLK \<Longrightarrow>
               fpos (f v1) = bitmap_base img s + (nat ?sc + nat ?sib) * 512"
  proof -
    show "same_image v1 img"
      by (simp add: v1_def Let_def same_image_def read_sect_bitmap_frame)
    show "readable v1"
      using readable_moved(1) [OF read_sect_bitmap_readable [OF r b(1,2)]] readable_moved(1) [OF r]
      by (simp add: v1_def Let_def)
    show "curr_block (bitmap v1) = ?blk"
      by (simp add: v1_def Let_def read_sect_bitmap_frame)
    assume a: "?w \<noteq> MVHD_SPARSE_BLK"
    note reg = readable_region [OF r s a]
    show "fpos (f v1) = bitmap_base img s + (nat ?sc + nat ?sib) * 512"
    proof (cases "curr_block (bitmap img) \<noteq> ?blk")
      case True
      then show ?thesis
        using read_sect_bitmap_allocated(1) [OF r b(2) a] b(5)
        by (simp add: v1_def Let_def fseeko64_CUR bitmap_base_def nat_mult_distrib algebra_simps)
    next
      case False
      have n: "nat ?sib < nat ?spb" using b(5,6) by simp
      from reg have "unat ?w * 512 + (nat ?sc + nat ?spb) * 512 \<le> (2::nat) ^ 32"
        unfolding bitmap_base_def by (rule order_trans)
      then have "unat ?w + nat ?sc + nat ?spb \<le> 8388608" by simp
      with n have "unat ?w + nat ?sc + nat ?sib < 4294967296" by linarith
      then have "unat ?w + nat ?sc + nat ?sib < 2 ^ 32" by simp
      from uint_sum_sector [OF this]
      have "uint (?w + word_of_int ?sc + word_of_int ?sib) = int (unat ?w + nat ?sc + nat ?sib)"
        using sc b(5) by simp
      then show ?thesis
        using False
        by (simp add: v1_def fseeko64_SET bitmap_base_def nat_mult_distrib algebra_simps
              del: of_nat_add)
    qed
  qed
  have bit: "VHD_TESTBIT (curr_bitmap (bitmap v1)) ?sib = disk_bit img s"
  proof -
    have "VHD_TESTBIT (curr_bitmap (bitmap v1)) (s mod sect_per_block v1) = disk_bit v1 s"
      using v1 s same_image_total [OF v1(1)]
      by (intro cached_bit) (simp_all add: same_image_def)
    then show ?thesis using v1(1) same_image_disk(2) [OF v1(1)] by (simp add: same_image_def)
  qed
  show ?thesis
  proof (cases "disk_bit img s")
    case True
    then have a: "?w \<noteq> MVHD_SPARSE_BLK" by (simp add: disk_bit_def)
    note reg = readable_region [OF r s a]
    have n: "nat ?sib < nat ?spb" using b(5,6) by simp
    have "fsize (f v1) = fsize (f img)" using v1(1) by (simp add: same_image_def)
    with sector_inside [OF n reg(1)] have inside: "fpos (f v1) + 512 * 1 \<le> fsize (f v1)"
      using pos [OF a] by simp
    define img' where "img' = v1\<lparr>f := snd (stream_read buf boff 512 1 (f v1))\<rparr>"
    have res: "mvhd_sparse_read img s 1 buf boff = (img', fst (stream_read buf boff 512 1 (f v1)), 0)"
      using True s(2) by (simp add: sparse_read_one_eq body bit img'_def)
    have buf: "fst (stream_read buf boff 512 1 (f v1)) =
        (\<lambda>i. if boff \<le> i \<and> i < boff + 512 then stored_sector img s (i - boff) else buf i)"
      using inside v1(1)
      by (auto simp add: fread_inside fun_eq_iff stored_sector_def pos [OF a] same_image_def)
    have i': "same_image img' v1" "readable img'"
      using readable_moved [OF v1(2), of "snd (stream_read buf boff 512 1 (f v1))"]
      by (simp_all add: img'_def)
    show ?thesis
      using res buf i' True same_image_trans [OF i'(1) v1(1)] by (simp cong: if_cong)
  next
    case False
    have "mvhd_sparse_read img s 1 buf boff = (v1, memset buf boff 0 512, 0)"
      using False s(2) by (simp add: sparse_read_one_eq body bit)
    moreover have "memset buf boff 0 512 = (\<lambda>i. if boff \<le> i \<and> i < boff + 512 then 0 else buf i)"
      by (simp add: memset_def)
    ultimately show ?thesis using v1(1,2) False by (simp cong: if_cong)
  qed
qed

lemma chain_sector_cong:
  "list_all2 same_image a b \<Longrightarrow> chain_sector a s = chain_sector b s"
proof (induction a b rule: list_all2_induct)
  case Nil
  then show ?case by simp
next
  case (Cons x xs y ys)
  then show ?case
    using same_image_disk [OF Cons(1)] by (simp add: same_image_def)
qed

lemma same_image_sym: "same_image a b \<Longrightarrow> same_image b a"
  by (simp add: same_image_def)

lemma list_all2_same_image_refl: "list_all2 same_image xs xs"
  by (simp add: list_all2_refl)

lemma list_all2_same_image_update:
  "same_image x (xs ! k) \<Longrightarrow> list_all2 same_image (xs[k := x]) xs"
  by (cases "k < length xs") (auto simp add: list_all2_conv_all_nth nth_list_update)

lemma list_all2_same_image_trans:
  "list_all2 same_image a b \<Longrightarrow> list_all2 same_image b c \<Longrightarrow> list_all2 same_image a c"
  using list_all2_trans [of same_image same_image same_image a b c] same_image_trans by blast

lemma read_one:
  assumes ok: "image_ok img" and s: "0 \<le> s" "s < total_sectors img"
  shows "\<exists>img'. (if disk_type (footer img) = MVHD_TYPE_DIFF \<or> disk_type (footer img) = MVHD_TYPE_DYNAMIC
                 then mvhd_sparse_read img s 1 buf boff else mvhd_fixed_read img s 1 buf boff) =
           (img', (\<lambda>i. if boff \<le> i \<and> i < boff + 512 then chain_sector [img] s (i - boff) else buf i), 0)
         \<and> same_image img' img \<and> image_ok img'"
proof (cases "disk_type (footer img) = MVHD_TYPE_FIXED")
  case True
  then have fo: "fixed_ok img" using ok by (simp add: image_ok_def)
  have c: "mvhd_check_sectors s 1 (total_sectors img) = (1, 0)"
    using s(2) by (simp add: mvhd_check_sectors_def)
  have e: "mvhd_fixed_read img s 1 buf boff =
      (img\<lparr>f := (f img)\<lparr>fpos := nat ((s + 1) * 512)\<rparr>\<rparr>,
       (\<lambda>i. if boff \<le> i \<and> i < boff + nat (1 * 512)
             then content (f img) (nat (s * 512) + (i - boff)) else buf i), 0)"
    using fixed_io_effect [of s img 1 buf boff] s fo by (simp add: c fixed_ok_def)
  have b: "(\<lambda>i. if boff \<le> i \<and> i < boff + nat (1 * 512)
             then content (f img) (nat (s * 512) + (i - boff)) else buf i) =
           (\<lambda>i. if boff \<le> i \<and> i < boff + 512 then chain_sector [img] s (i - boff) else buf i)"
    using True s(1) by (auto simp add: fun_eq_iff flat_sector_def nat_mult_distrib)
  have "same_image (img\<lparr>f := (f img)\<lparr>fpos := nat ((s + 1) * 512)\<rparr>\<rparr>) img"
    "image_ok (img\<lparr>f := (f img)\<lparr>fpos := nat ((s + 1) * 512)\<rparr>\<rparr>)"
    using True fo by (simp_all add: same_image_def image_ok_def fixed_ok_def total_sectors_def)
  then show ?thesis using True e b by simp
next
  case False
  then have r: "readable img" using ok by (simp add: image_ok_def)
  have t: "disk_type (footer img) = MVHD_TYPE_DIFF \<or> disk_type (footer img) = MVHD_TYPE_DYNAMIC"
    using False by (cases "disk_type (footer img)") simp_all
  obtain img' where e: "mvhd_sparse_read img s 1 buf boff =
           (img', (\<lambda>i. if boff \<le> i \<and> i < boff + 512
                        then (if disk_bit img s then stored_sector img s (i - boff) else 0)
                        else buf i), 0)"
      and si: "same_image img' img" and r': "readable img'"
    using sparse_read_one [OF r s, of buf boff] by blast
  have b: "(\<lambda>i. if boff \<le> i \<and> i < boff + 512
                        then (if disk_bit img s then stored_sector img s (i - boff) else 0)
                        else buf i) =
           (\<lambda>i. if boff \<le> i \<and> i < boff + 512 then chain_sector [img] s (i - boff) else buf i)"
    using False by (auto simp add: fun_eq_iff)
  have "image_ok img'" using r' si False by (simp add: image_ok_def same_image_def)
  then show ?thesis using t e b si by simp
qed

lemma diff_walk_stop:
  "c < length chain \<Longrightarrow> disk_type (footer (chain ! c)) \<noteq> MVHD_TYPE_DIFF \<Longrightarrow>
   diff_walk chain c s = Some (chain, c)"
  by (subst diff_walk.simps) simp

lemma diff_walk_step:
  "c < length chain \<Longrightarrow> disk_type (footer (chain ! c)) = MVHD_TYPE_DIFF \<Longrightarrow>
   diff_walk chain c s =
     (let curr_vhdm = chain ! c;
          blk = s sdiv sect_per_block curr_vhdm;
          sib = s smod sect_per_block curr_vhdm;
          curr1 = (if curr_block (bitmap curr_vhdm) \<noteq> blk
                   then mvhd_read_sect_bitmap curr_vhdm blk else curr_vhdm)
      in if \<not> VHD_TESTBIT (curr_bitmap (bitmap curr1)) sib
         then diff_walk (chain[c := curr1]) (c + 1) s
         else Some (chain[c := curr1], c))"
  by (subst diff_walk.simps) simp

text \<open>The bitmap test of one round of the walk.\<close>

lemma walk_round:
  assumes r: "readable img" and s: "0 \<le> s" "s < total_sectors img"
  defines "img1 \<equiv> (if curr_block (bitmap img) \<noteq> s sdiv sect_per_block img
                     then mvhd_read_sect_bitmap img (s sdiv sect_per_block img) else img)"
  shows "same_image img1 img" "readable img1"
    "VHD_TESTBIT (curr_bitmap (bitmap img1)) (s smod sect_per_block img) = disk_bit img s"
proof -
  note b = readable_block [OF r s]
  show si: "same_image img1 img"
    by (simp add: img1_def read_sect_bitmap_same_image)
  show r1: "readable img1"
    using r read_sect_bitmap_readable [OF r b(1,2)] by (simp add: img1_def b(3))
  have cb: "curr_block (bitmap img1) = s div sect_per_block img1"
    using si by (simp add: img1_def b(3) read_sect_bitmap_frame)
  have "VHD_TESTBIT (curr_bitmap (bitmap img1)) (s mod sect_per_block img1) = disk_bit img1 s"
    using r1 s(1) _ cb by (rule cached_bit) (simp add: same_image_total [OF si] s(2))
  then show "VHD_TESTBIT (curr_bitmap (bitmap img1)) (s smod sect_per_block img) = disk_bit img s"
    using si same_image_disk(2) [OF si] by (simp add: b(4) same_image_def)
qed

lemma diff_walk_resolves:
  assumes "\<forall>img \<in> set chain. image_ok img" "\<forall>img \<in> set chain. s < total_sectors img" "0 \<le> s"
      and "c < length chain"
      and "\<exists>k. c \<le> k \<and> k < length chain \<and> disk_type (footer (chain ! k)) \<noteq> MVHD_TYPE_DIFF"
  shows "\<exists>chain' k. diff_walk chain c s = Some (chain', k) \<and> k < length chain \<and>
           list_all2 same_image chain' chain \<and> (\<forall>img \<in> set chain'. image_ok img) \<and>
           chain_sector (drop c chain) s = chain_sector [chain ! k] s"
  using assms
proof (induction "length chain - c" arbitrary: chain c)
  case 0
  then show ?case by simp
next
  case (Suc n)
  let ?cur = "chain ! c"
  have cur: "?cur \<in> set chain" using Suc.prems(4) by simp
  have dr: "drop c chain = ?cur # drop (Suc c) chain"
    using Suc.prems(4) by (simp add: Cons_nth_drop_Suc)
  show ?case
  proof (cases "disk_type (footer ?cur) = MVHD_TYPE_DIFF")
    case False
    have "chain_sector (drop c chain) s = chain_sector [?cur] s"
      using False by (simp add: dr)
    then show ?thesis
      using diff_walk_stop [OF Suc.prems(4) False] Suc.prems(1,4) list_all2_same_image_refl
      by auto
  next
    case True
    then have r: "readable ?cur" using Suc.prems(1) cur by (simp add: image_ok_def)
    have st: "s < total_sectors ?cur" using Suc.prems(2) cur by simp
    define cur1 where "cur1 = (if curr_block (bitmap ?cur) \<noteq> s sdiv sect_per_block ?cur
                     then mvhd_read_sect_bitmap ?cur (s sdiv sect_per_block ?cur) else ?cur)"
    note w = walk_round [OF r Suc.prems(3) st, folded cur1_def]
    define chain1 where "chain1 = chain[c := cur1]"
    have l1: "list_all2 same_image chain1 chain"
      unfolding chain1_def using w(1) by (rule list_all2_same_image_update)
    have ok1: "\<forall>img \<in> set chain1. image_ok img"
    proof
      fix img assume "img \<in> set chain1"
      then have "img = cur1 \<or> img \<in> set chain"
        unfolding chain1_def using set_update_subset_insert [of chain c cur1] by auto
      moreover have "image_ok cur1"
        using w(1,2) True by (simp add: image_ok_def same_image_def)
      ultimately show "image_ok img" using Suc.prems(1) by auto
    qed
    have step: "diff_walk chain c s =
        (if \<not> disk_bit ?cur s then diff_walk chain1 (c + 1) s else Some (chain1, c))"
      using diff_walk_step [OF Suc.prems(4) True, of s] w(3)
      by (simp add: Let_def cur1_def [symmetric] chain1_def [symmetric])
    show ?thesis
    proof (cases "disk_bit ?cur s")
      case bit: True
      have "chain_sector (drop c chain) s = chain_sector [?cur] s"
        using True bit by (simp add: dr)
      then show ?thesis
        using step bit l1 ok1 Suc.prems(4) by auto
    next
      case nobit: False
      obtain k where k: "c \<le> k" "k < length chain" "disk_type (footer (chain ! k)) \<noteq> MVHD_TYPE_DIFF"
        using Suc.prems(5) by blast
      then have kc: "Suc c \<le> k" using True by (cases "k = c") auto
      have len1: "length chain1 = length chain" by (simp add: chain1_def)
      have nth1: "chain1 ! j = chain ! j" if "j \<noteq> c" for j
        using that by (simp add: chain1_def)
      have p1: "\<forall>img \<in> set chain1. s < total_sectors img"
      proof
        fix img assume "img \<in> set chain1"
        then have "img = cur1 \<or> img \<in> set chain"
          unfolding chain1_def using set_update_subset_insert [of chain c cur1] by auto
        then show "s < total_sectors img"
          using Suc.prems(2) st same_image_total [OF w(1)] by auto
      qed
      have p4: "c + 1 < length chain1" using kc k(2) len1 by simp
      have p5: "\<exists>k. c + 1 \<le> k \<and> k < length chain1 \<and> disk_type (footer (chain1 ! k)) \<noteq> MVHD_TYPE_DIFF"
        using kc k(2,3) len1 nth1 [of k] by (intro exI [of _ k]) simp
      have n: "n = length chain1 - (c + 1)" using Suc(2) len1 by simp
      from Suc(1) [OF n ok1 p1 Suc.prems(3) p4 p5]
      obtain chain' k' where ih: "diff_walk chain1 (c + 1) s = Some (chain', k')" "k' < length chain1"
          "list_all2 same_image chain' chain1" "\<forall>img \<in> set chain'. image_ok img"
          "chain_sector (drop (c + 1) chain1) s = chain_sector [chain1 ! k'] s"
        by blast
      have d1: "drop (c + 1) chain1 = drop (Suc c) chain"
        by (simp add: chain1_def drop_update_cancel)
      have e3: "chain_sector [chain1 ! k'] s = chain_sector [chain ! k'] s"
      proof (rule chain_sector_cong)
        have "same_image (chain1 ! k') (chain ! k')"
          using l1 ih(2) by (simp add: list_all2_conv_all_nth)
        then show "list_all2 same_image [chain1 ! k'] [chain ! k']" by simp
      qed
      have e1: "chain_sector (drop c chain) s = chain_sector (drop (Suc c) chain) s"
        using True nobit by (simp add: dr)
      have e2: "chain_sector (drop (Suc c) chain) s = chain_sector [chain1 ! k'] s"
        using ih(5) unfolding d1 .
      have "chain_sector (drop c chain) s = chain_sector [chain ! k'] s"
        using e1 e2 e3 by (simp only:)
      then show ?thesis
        using step nobit ih(1,2,4) list_all2_same_image_trans [OF ih(3) l1] len1 by auto
    qed
  qed
qed

lemma diff_read_loop_step:
  "s < ls \<Longrightarrow> diff_read_loop chain s ls buf boff =
     (case diff_walk chain 0 s of
        None \<Rightarrow> None
      | Some (chain1, c) \<Rightarrow>
          (case (if disk_type (footer (chain1 ! c)) = MVHD_TYPE_DIFF
                    \<or> disk_type (footer (chain1 ! c)) = MVHD_TYPE_DYNAMIC
                 then mvhd_sparse_read (chain1 ! c) s 1 buf boff
                 else mvhd_fixed_read (chain1 ! c) s 1 buf boff) of
             (curr1, buf1, t) \<Rightarrow>
               diff_read_loop (chain1[c := curr1]) (s + 1) ls buf1 (boff + 512)))"
  by (subst diff_read_loop.simps) (simp split: option.split prod.split)

lemma chain_ok_same:
  assumes "chain_ok chain" "list_all2 same_image chain' chain" "\<forall>img \<in> set chain'. image_ok img"
  shows "chain_ok chain'"
proof -
  have len: "length chain' = length chain" using assms(2) by (rule list_all2_lengthD)
  have ty: "disk_type (footer (chain' ! i)) = disk_type (footer (chain ! i))" if "i < length chain" for i
    using assms(2) that by (simp add: list_all2_conv_all_nth same_image_def)
  have ne: "chain' \<noteq> []" "chain \<noteq> []" using assms(1) len by (auto simp: chain_ok_def)
  have "disk_type (footer (last chain')) \<noteq> MVHD_TYPE_DIFF"
    using assms(1) ne len ty [of "length chain - 1"] by (simp add: chain_ok_def last_conv_nth)
  moreover have "\<forall>img \<in> set (butlast chain'). disk_type (footer img) = MVHD_TYPE_DIFF"
  proof
    fix img assume "img \<in> set (butlast chain')"
    then obtain i where i: "i < length (butlast chain')" "img = butlast chain' ! i"
      by (auto simp: in_set_conv_nth)
    then have il: "i < length chain - 1" using len by simp
    then have "butlast chain ! i \<in> set (butlast chain)" by simp
    then have "disk_type (footer (butlast chain ! i)) = MVHD_TYPE_DIFF"
      using assms(1) by (simp add: chain_ok_def)
    then show "disk_type (footer img) = MVHD_TYPE_DIFF"
      using i il len ty [of i] by (simp add: nth_butlast)
  qed
  ultimately show ?thesis using ne assms(3) by (simp add: chain_ok_def)
qed

lemma chain_ok_root:
  assumes "chain_ok chain"
  shows "0 < length chain"
    "\<exists>k. 0 \<le> k \<and> k < length chain \<and> disk_type (footer (chain ! k)) \<noteq> MVHD_TYPE_DIFF"
proof -
  show l: "0 < length chain" using assms by (simp add: chain_ok_def)
  have ne: "chain \<noteq> []" and la: "disk_type (footer (last chain)) \<noteq> MVHD_TYPE_DIFF"
    using assms by (simp_all add: chain_ok_def)
  have "disk_type (footer (chain ! (length chain - 1))) \<noteq> MVHD_TYPE_DIFF"
    using la unfolding last_conv_nth [OF ne] .
  then show "\<exists>k. 0 \<le> k \<and> k < length chain \<and> disk_type (footer (chain ! k)) \<noteq> MVHD_TYPE_DIFF"
    using l by (intro exI [of _ "length chain - 1"]) simp
qed

lemma sector_buffer_step:
  fixes boff n :: nat
  shows "(\<lambda>i. if boff + 512 \<le> i \<and> i < boff + 512 + n * 512
              then g (s + 1 + int ((i - (boff + 512)) div 512)) ((i - (boff + 512)) mod 512)
              else if boff \<le> i \<and> i < boff + 512 then g s (i - boff) else buf i) =
         (\<lambda>i. if boff \<le> i \<and> i < boff + Suc n * 512
              then g (s + int ((i - boff) div 512)) ((i - boff) mod 512) else buf i)"
proof (rule ext)
  fix i
  show "(if boff + 512 \<le> i \<and> i < boff + 512 + n * 512
              then g (s + 1 + int ((i - (boff + 512)) div 512)) ((i - (boff + 512)) mod 512)
              else if boff \<le> i \<and> i < boff + 512 then g s (i - boff) else buf i) =
         (if boff \<le> i \<and> i < boff + Suc n * 512
              then g (s + int ((i - boff) div 512)) ((i - boff) mod 512) else buf i)"
  proof (cases "boff + 512 \<le> i")
    case True
    then obtain d where d: "i = boff + 512 + d" using le_Suc_ex by blast
    have "(512 + d) div 512 = Suc (d div 512)" "(512 + d) mod 512 = d mod 512"
      by simp_all
    then show ?thesis unfolding d by (simp add: add.assoc)
  next
    case False
    then show ?thesis by (cases "boff \<le> i") simp_all
  qed
qed

lemma list_all2_same_image_total:
  assumes "list_all2 same_image a b" "\<forall>img \<in> set b. ls \<le> total_sectors img"
  shows "\<forall>img \<in> set a. ls \<le> total_sectors img"
proof
  fix img assume "img \<in> set a"
  then obtain i where i: "i < length a" "img = a ! i" by (auto simp: in_set_conv_nth)
  have len: "length a = length b" using assms(1) by (rule list_all2_lengthD)
  have "same_image (a ! i) (b ! i)" using assms(1) i(1) by (simp add: list_all2_conv_all_nth)
  then have "total_sectors (a ! i) = total_sectors (b ! i)" by (rule same_image_total)
  moreover have "b ! i \<in> set b" using i(1) len by simp
  ultimately show "ls \<le> total_sectors img" using assms(2) i(2) by simp
qed

lemma diff_read_loop_resolves:
  assumes "chain_ok chain" "\<forall>img \<in> set chain. ls \<le> total_sectors img" "0 \<le> s"
  shows "\<exists>chain'. diff_read_loop chain s ls buf boff =
            Some (chain', (\<lambda>i. if boff \<le> i \<and> i < boff + nat (ls - s) * 512
                               then chain_sector chain (s + int ((i - boff) div 512)) ((i - boff) mod 512)
                               else buf i)) \<and>
          list_all2 same_image chain' chain \<and> (\<forall>img \<in> set chain'. image_ok img)"
  using assms
proof (induction "nat (ls - s)" arbitrary: chain s buf boff)
  case 0
  then have d: "\<not> s < ls" by simp
  have ok: "\<forall>img \<in> set chain. image_ok img" using 0(2) by (simp add: chain_ok_def)
  have n: "nat (ls - s) = 0" using d by simp
  have e: "(\<lambda>i. if boff \<le> i \<and> i < boff + 0 * 512
                 then chain_sector chain (s + int ((i - boff) div 512)) ((i - boff) mod 512)
                 else buf i) = buf"
    by (rule ext) auto
  show ?case
    unfolding diff_read_loop_done [OF d] n e
    using ok by (simp add: list_all2_same_image_refl)
next
  case (Suc n)
  have lt: "s < ls" and n: "nat (ls - (s + 1)) = n" using Suc(2) by linarith+
  have ok: "\<forall>img \<in> set chain. image_ok img" using Suc(3) by (simp add: chain_ok_def)
  have tot: "\<forall>img \<in> set chain. s < total_sectors img" using Suc(4) lt by fastforce
  from diff_walk_resolves [OF ok tot Suc(5) chain_ok_root [OF Suc(3)]]
  obtain chain1 k where w: "diff_walk chain 0 s = Some (chain1, k)" "k < length chain"
      "list_all2 same_image chain1 chain" "\<forall>img \<in> set chain1. image_ok img"
      "chain_sector (drop 0 chain) s = chain_sector [chain ! k] s"
    by blast
  have len1: "length chain1 = length chain" using w(3) by (rule list_all2_lengthD)
  have sk: "same_image (chain1 ! k) (chain ! k)"
    using w(3) w(2) by (simp add: list_all2_conv_all_nth)
  have in1: "chain1 ! k \<in> set chain1" using w(2) len1 by simp
  have okk: "image_ok (chain1 ! k)" using w(4) in1 by simp
  have "chain ! k \<in> set chain" using w(2) by simp
  then have "s < total_sectors (chain ! k)" using tot by simp
  then have sk_tot: "s < total_sectors (chain1 ! k)" using same_image_total [OF sk] by simp
  from read_one [OF okk Suc(5) sk_tot, of buf boff]
  obtain curr1 where r: "(if disk_type (footer (chain1 ! k)) = MVHD_TYPE_DIFF
                             \<or> disk_type (footer (chain1 ! k)) = MVHD_TYPE_DYNAMIC
                          then mvhd_sparse_read (chain1 ! k) s 1 buf boff
                          else mvhd_fixed_read (chain1 ! k) s 1 buf boff) =
           (curr1, (\<lambda>i. if boff \<le> i \<and> i < boff + 512 then chain_sector [chain1 ! k] s (i - boff) else buf i), 0)"
      and c1: "same_image curr1 (chain1 ! k)" "image_ok curr1"
    by blast
  have es: "chain_sector [chain1 ! k] s = chain_sector chain s"
  proof -
    have "list_all2 same_image [chain1 ! k] [chain ! k]" using sk by simp
    then have "chain_sector [chain1 ! k] s = chain_sector [chain ! k] s" by (rule chain_sector_cong)
    then show ?thesis using w(5) by simp
  qed
  define chain2 where "chain2 = chain1[k := curr1]"
  define buf1 where "buf1 = (\<lambda>i. if boff \<le> i \<and> i < boff + 512 then chain_sector chain s (i - boff) else buf i)"
  have s21: "list_all2 same_image chain2 chain1"
    unfolding chain2_def using c1(1) by (rule list_all2_same_image_update)
  have s2: "list_all2 same_image chain2 chain"
    using s21 w(3) by (rule list_all2_same_image_trans)
  have ok2: "\<forall>img \<in> set chain2. image_ok img"
  proof
    fix img assume "img \<in> set chain2"
    then have "img \<in> insert curr1 (set chain1)"
      unfolding chain2_def using set_update_subset_insert by fastforce
    then show "image_ok img" using c1(2) w(4) by auto
  qed
  have cok2: "chain_ok chain2" using Suc(3) s2 ok2 by (rule chain_ok_same)
  have tot2: "\<forall>img \<in> set chain2. ls \<le> total_sectors img"
    using s2 Suc(4) by (rule list_all2_same_image_total)
  have s0: "0 \<le> s + 1" using Suc(5) by simp
  from Suc(1) [OF n [symmetric] cok2 tot2 s0, of buf1 "boff + 512"]
  obtain chain' where l: "diff_read_loop chain2 (s + 1) ls buf1 (boff + 512) =
            Some (chain', (\<lambda>i. if boff + 512 \<le> i \<and> i < boff + 512 + nat (ls - (s + 1)) * 512
                               then chain_sector chain2 (s + 1 + int ((i - (boff + 512)) div 512)) ((i - (boff + 512)) mod 512)
                               else buf1 i))"
      and l2: "list_all2 same_image chain' chain2" "\<forall>img \<in> set chain'. image_ok img"
    by blast
  have e2: "chain_sector chain2 x = chain_sector chain x" for x
    using s2 by (rule chain_sector_cong)
  have step: "diff_read_loop chain s ls buf boff = diff_read_loop chain2 (s + 1) ls buf1 (boff + 512)"
    by (simp only: diff_read_loop_step [OF lt] w(1) option.case prod.case r es chain2_def buf1_def)
  have nn: "nat (ls - s) = Suc n" using Suc(2) by simp
  have "diff_read_loop chain s ls buf boff =
          Some (chain', (\<lambda>i. if boff \<le> i \<and> i < boff + nat (ls - s) * 512
                               then chain_sector chain (s + int ((i - boff) div 512)) ((i - boff) mod 512)
                               else buf i))"
    unfolding step l n e2 nn
    unfolding buf1_def
    by (simp only: sector_buffer_step [where g = "chain_sector chain"])
  moreover have "list_all2 same_image chain' chain"
    using l2(1) s2 by (rule list_all2_same_image_trans)
  ultimately show ?case using l2(2) by blast
qed

lemma chain_sector_skip:
  "k \<le> length chain \<Longrightarrow>
   \<forall>j<k. disk_type (footer (chain ! j)) = MVHD_TYPE_DIFF \<and> \<not> disk_bit (chain ! j) s \<Longrightarrow>
   chain_sector chain s = chain_sector (drop k chain) s"
proof (induction k arbitrary: chain)
  case 0
  show ?case by simp
next
  case (Suc k)
  then obtain x xs where c: "chain = x # xs" by (cases chain) auto
  have x: "disk_type (footer x) = MVHD_TYPE_DIFF" "\<not> disk_bit x s"
    using Suc(3) [rule_format, of 0] c by simp_all
  have k: "k \<le> length xs" using Suc(2) c by simp
  have r: "\<forall>j<k. disk_type (footer (xs ! j)) = MVHD_TYPE_DIFF \<and> \<not> disk_bit (xs ! j) s"
  proof (intro allI impI)
    fix j assume "j < k"
    then show "disk_type (footer (xs ! j)) = MVHD_TYPE_DIFF \<and> \<not> disk_bit (xs ! j) s"
      using Suc(3) [rule_format, of "Suc j"] c by simp
  qed
  have "chain_sector chain s = chain_sector xs s" using x c by simp
  also have "\<dots> = chain_sector (drop k xs) s" using k r by (rule Suc(1))
  finally show ?case using c by simp
qed

lemma chain_ok_diff:
  assumes "chain_ok chain" "j < length chain - 1"
  shows "disk_type (footer (chain ! j)) = MVHD_TYPE_DIFF"
proof -
  have "butlast chain ! j \<in> set (butlast chain)" using assms(2) by simp
  then have "disk_type (footer (butlast chain ! j)) = MVHD_TYPE_DIFF"
    using assms(1) by (simp add: chain_ok_def)
  then show ?thesis using assms(2) by (simp add: nth_butlast)
qed

lemma chain_sector_ancestor:
  assumes ok: "chain_ok chain" and k: "k < length chain"
      and un: "\<forall>j<k. \<not> disk_bit (chain ! j) s"
      and st: "disk_bit (chain ! k) s" "disk_type (footer (chain ! k)) \<noteq> MVHD_TYPE_FIXED"
  shows "chain_sector chain s = stored_sector (chain ! k) s"
proof -
  have d: "\<forall>j<k. disk_type (footer (chain ! j)) = MVHD_TYPE_DIFF \<and> \<not> disk_bit (chain ! j) s"
    using un k chain_ok_diff [OF ok] by simp
  have "chain_sector chain s = chain_sector (drop k chain) s"
    using k d by (intro chain_sector_skip) simp_all
  also have "drop k chain = chain ! k # drop (Suc k) chain"
    using k by (simp add: Cons_nth_drop_Suc)
  also have "chain_sector (chain ! k # drop (Suc k) chain) s = stored_sector (chain ! k) s"
    using st by simp
  finally show ?thesis .
qed

lemma chain_sector_root:
  assumes ok: "chain_ok chain"
      and un: "\<forall>j<length chain - 1. \<not> disk_bit (chain ! j) s"
  shows "chain_sector chain s = chain_sector [last chain] s"
proof -
  have ne: "chain \<noteq> []" using ok by (simp add: chain_ok_def)
  have d: "\<forall>j<length chain - 1. disk_type (footer (chain ! j)) = MVHD_TYPE_DIFF \<and> \<not> disk_bit (chain ! j) s"
    using un chain_ok_diff [OF ok] by simp
  have "chain_sector chain s = chain_sector (drop (length chain - 1) chain) s"
    using d by (intro chain_sector_skip) simp_all
  also have "drop (length chain - 1) chain = [last chain]"
    using ne by (metis append_butlast_last_id append_eq_conv_conj length_butlast)
  finally show ?thesis .
qed

lemma chain_sector_absent:
  assumes ok: "chain_ok chain"
      and un: "\<forall>j<length chain. \<not> disk_bit (chain ! j) s"
      and ty: "disk_type (footer (last chain)) \<noteq> MVHD_TYPE_FIXED"
  shows "chain_sector chain s = (\<lambda>j. 0)"
proof -
  have ne: "chain \<noteq> []" using ok by (simp add: chain_ok_def)
  have "\<not> disk_bit (chain ! (length chain - 1)) s" using un ne by simp
  then have l: "\<not> disk_bit (last chain) s" by (simp add: last_conv_nth [OF ne])
  have "chain_sector chain s = chain_sector [last chain] s"
    using ok un by (intro chain_sector_root) simp_all
  also have "\<dots> = (\<lambda>j. 0)" using l ty by simp
  finally show ?thesis .
qed

lemma chain_sector_fixed_root:
  assumes ok: "chain_ok chain"
      and un: "\<forall>j<length chain - 1. \<not> disk_bit (chain ! j) s"
      and ty: "disk_type (footer (last chain)) = MVHD_TYPE_FIXED"
  shows "chain_sector chain s = flat_sector (last chain) s"
proof -
  have "chain_sector chain s = chain_sector [last chain] s"
    using ok un by (rule chain_sector_root)
  also have "\<dots> = flat_sector (last chain) s" using ty by simp
  finally show ?thesis .
qed

lemma sector_index:
  fixes n j :: nat
  assumes "j < 512"
  shows "(n * 512 + j) div 512 = n" "(n * 512 + j) mod 512 = j"
  using assms by simp_all

lemma diff_read_effect:
  assumes ok: "chain_ok chain" and off: "0 \<le> off"
      and cap: "\<forall>img \<in> set chain. total_sectors (hd chain) \<le> total_sectors img"
  shows "\<exists>chain' out.
     mvhd_diff_read chain off num buf boff =
       Some (chain', out, snd (mvhd_check_sectors off num (total_sectors (hd chain)))) \<and>
     list_all2 same_image chain' chain \<and>
     (\<forall>i. \<not> (boff \<le> i \<and> i < boff + nat num * 512) \<longrightarrow> out i = buf i) \<and>
     (\<forall>s. off \<le> s \<and> s < off + num \<and> s < total_sectors (hd chain) \<longrightarrow>
        (\<forall>j<512. out (boff + nat (s - off) * 512 + j) = chain_sector chain s j))"
proof -
  obtain x xs where c: "chain = x # xs" using ok by (cases chain) (auto simp: chain_ok_def)
  obtain t u where cs: "mvhd_check_sectors off num (total_sectors x) = (t, u)"
    by (cases "mvhd_check_sectors off num (total_sectors x)")
  have t: "t = min num (total_sectors x - off)"
    using cs by (auto simp: mvhd_check_sectors_def split: if_splits)
  have ls: "\<forall>img \<in> set chain. off + t \<le> total_sectors img"
  proof
    fix img assume "img \<in> set chain"
    then have "total_sectors x \<le> total_sectors img" using cap c by auto
    then show "off + t \<le> total_sectors img" using t by simp
  qed
  define out where "out = (\<lambda>i. if boff \<le> i \<and> i < boff + nat (off + t - off) * 512
                               then chain_sector chain (off + int ((i - boff) div 512)) ((i - boff) mod 512)
                               else buf i)"
  from diff_read_loop_resolves [OF ok ls off, of buf boff]
  obtain chain' where l: "diff_read_loop chain off (off + t) buf boff = Some (chain', out)"
      and s: "list_all2 same_image chain' chain"
    unfolding out_def by blast
  have r: "mvhd_diff_read chain off num buf boff =
       Some (chain', out, snd (mvhd_check_sectors off num (total_sectors (hd chain))))"
    using l by (simp add: mvhd_diff_read_def c cs)
  have o1: "out i = buf i" if "\<not> (boff \<le> i \<and> i < boff + nat num * 512)" for i
  proof -
    have "nat t \<le> nat num" using t by simp
    then have "nat t * 512 \<le> nat num * 512" by simp
    then have "\<not> (boff \<le> i \<and> i < boff + nat t * 512)" using that by linarith
    then show ?thesis by (auto simp add: out_def)
  qed
  have o2: "out (boff + nat (s - off) * 512 + j) = chain_sector chain s j"
    if s: "off \<le> s \<and> s < off + num \<and> s < total_sectors (hd chain)" and j: "j < 512" for s j
  proof -
    have "nat (s - off) < nat t" using s t c by simp
    then have "Suc (nat (s - off)) \<le> nat t" by (rule Suc_leI)
    then have "Suc (nat (s - off)) * 512 \<le> nat t * 512" by (rule mult_le_mono1)
    then have in_r: "nat (s - off) * 512 + j < nat t * 512" using j by simp
    have e: "boff + nat (s - off) * 512 + j - boff = nat (s - off) * 512 + j" by simp
    show ?thesis using in_r j s by (simp add: out_def e)
  qed
  show ?thesis using r s o1 o2 by blast
qed

lemma diff_image_readable: "readable (diff_image m v)"
  by (simp add: readable_def bitmap_fits_def cache_coherent_def total_sectors_def diff_image_def
        MVHD_SPARSE_BLK_def)

lemma diff_chain_ok: "chain_ok diff_chain"
  by (simp add: chain_ok_def diff_chain_def image_ok_def diff_image_readable)
     (simp add: diff_image_def fixed_image_def fixed_ok_def total_sectors_def)

lemma diff_chain_cap: "\<forall>img \<in> set diff_chain. total_sectors (hd diff_chain) \<le> total_sectors img"
  by (simp add: diff_chain_def diff_image_def fixed_image_def total_sectors_def)

lemma diff_image_bit:
  assumes "0 \<le> s" "s < 4096"
  shows "disk_bit (diff_image m v) s = VHD_TESTBIT (\<lambda>j. if j = 0 then m else if 512 \<le> j then v else 0) s"
proof -
  have d: "s div 4096 = 0" "s mod 4096 = s" using assms by simp_all
  have "(\<lambda>j. content (f (diff_image m v)) (bitmap_base (diff_image m v) s + j)) =
        (\<lambda>j. if j = 0 then m else if 512 \<le> j then v else 0)"
    by (rule ext) (simp add: diff_image_def bitmap_base_def d)
  then show ?thesis by (simp add: disk_bit_def) (simp add: diff_image_def MVHD_SPARSE_BLK_def d)
qed

lemma diff_chain_bits:
  "disk_bit (diff_chain ! 0) 0" "\<not> disk_bit (diff_chain ! 0) 1" "disk_bit (diff_chain ! Suc 0) 1"
  "\<not> disk_bit (diff_chain ! 0) 2" "\<not> disk_bit (diff_chain ! Suc 0) 2"
  by (simp_all add: diff_chain_def diff_image_bit VHD_TESTBIT_def bit_mask_def sdiv_nonneg smod_nonneg)

lemma diff_chain_sectors:
  "stored_sector (diff_chain ! 0) 0 j = 0xAA" "stored_sector (diff_chain ! Suc 0) 1 j = 0xBB"
  "j < 512 \<Longrightarrow> flat_sector (last diff_chain) 2 j = 2"
proof -
  show "stored_sector (diff_chain ! 0) 0 j = 0xAA" "stored_sector (diff_chain ! Suc 0) 1 j = 0xBB"
    by (simp_all add: diff_chain_def stored_sector_def bitmap_base_def diff_image_def)
  assume "j < 512"
  then have "(1024 + j) div 512 = 2" by linarith
  then show "flat_sector (last diff_chain) 2 j = 2"
    by (simp add: diff_chain_def flat_sector_def fixed_image_def)
qed

text \<open>
  Resolution through a chain of files of at most 4 GiB. Let the chain be well formed
  (\<open>chain_ok\<close>: in particular every sparse or differencing file is no longer than \<open>2^32\<close>
  bytes), the start sector non-negative and no image of the chain smaller than the target
  image. Then \<^verbatim>\<open>mvhd_diff_read\<close> returns, with the truncation count of the bounds checker,
  and leaves every image file and BAT as it was; it writes nothing outside the requested
  part of the buffer; and for every sector \<open>s\<close> of the request that lies inside the
  capacity: if the bit of \<open>s\<close> is unset in every image before an ancestor \<open>A\<close> (counted
  from the target image, index 0) and set in \<open>A\<close>, the sector returned is the sector
  stored in \<open>A\<close>; if the bit is unset in every image of the chain, the root being a
  sparse image, the sector returned is all zero; if the bit is unset in every
  differencing image and the root is a fixed image (which has no bitmap), the sector
  returned is the sector of the root's flat file. Every sector is resolved from the
  head of the chain, whatever image the sector before it was found in.
\<close>

lemma diff_chain_resolution_small_files:
  assumes "chain_ok chain" and "0 \<le> off"
      and "\<forall>img \<in> set chain. total_sectors (hd chain) \<le> total_sectors img"
  shows "\<exists>chain' out.
     mvhd_diff_read chain off num buf boff =
       Some (chain', out, snd (mvhd_check_sectors off num (total_sectors (hd chain)))) \<and>
     list_all2 same_image chain' chain \<and>
     (\<forall>i. \<not> (boff \<le> i \<and> i < boff + nat num * 512) \<longrightarrow> out i = buf i) \<and>
     (\<forall>s. off \<le> s \<and> s < off + num \<and> s < total_sectors (hd chain) \<longrightarrow>
        (\<forall>A < length chain.
            (\<forall>j<A. \<not> disk_bit (chain ! j) s) \<and> disk_bit (chain ! A) s \<and>
            disk_type (footer (chain ! A)) \<noteq> MVHD_TYPE_FIXED \<longrightarrow>
            (\<forall>j<512. out (boff + nat (s - off) * 512 + j) = stored_sector (chain ! A) s j)) \<and>
        ((\<forall>j<length chain. \<not> disk_bit (chain ! j) s) \<and>
            disk_type (footer (last chain)) \<noteq> MVHD_TYPE_FIXED \<longrightarrow>
            (\<forall>j<512. out (boff + nat (s - off) * 512 + j) = 0)) \<and>
        ((\<forall>j<length chain - 1. \<not> disk_bit (chain ! j) s) \<and>
            disk_type (footer (last chain)) = MVHD_TYPE_FIXED \<longrightarrow>
            (\<forall>j<512. out (boff + nat (s - off) * 512 + j) = flat_sector (last chain) s j)) \<and>
        (\<forall>j<512. out (boff + nat (s - off) * 512 + j) = chain_sector chain s j))"
proof -
  from diff_read_effect [OF assms, of num buf boff]
  obtain chain' out where r: "mvhd_diff_read chain off num buf boff =
       Some (chain', out, snd (mvhd_check_sectors off num (total_sectors (hd chain))))"
      "list_all2 same_image chain' chain"
      "\<forall>i. \<not> (boff \<le> i \<and> i < boff + nat num * 512) \<longrightarrow> out i = buf i"
    and o: "\<forall>s. off \<le> s \<and> s < off + num \<and> s < total_sectors (hd chain) \<longrightarrow>
        (\<forall>j<512. out (boff + nat (s - off) * 512 + j) = chain_sector chain s j)"
    by blast
  have "(\<forall>A < length chain.
            (\<forall>j<A. \<not> disk_bit (chain ! j) s) \<and> disk_bit (chain ! A) s \<and>
            disk_type (footer (chain ! A)) \<noteq> MVHD_TYPE_FIXED \<longrightarrow>
            (\<forall>j<512. out (boff + nat (s - off) * 512 + j) = stored_sector (chain ! A) s j)) \<and>
        ((\<forall>j<length chain. \<not> disk_bit (chain ! j) s) \<and>
            disk_type (footer (last chain)) \<noteq> MVHD_TYPE_FIXED \<longrightarrow>
            (\<forall>j<512. out (boff + nat (s - off) * 512 + j) = 0)) \<and>
        ((\<forall>j<length chain - 1. \<not> disk_bit (chain ! j) s) \<and>
            disk_type (footer (last chain)) = MVHD_TYPE_FIXED \<longrightarrow>
            (\<forall>j<512. out (boff + nat (s - off) * 512 + j) = flat_sector (last chain) s j)) \<and>
        (\<forall>j<512. out (boff + nat (s - off) * 512 + j) = chain_sector chain s j)"
    if s: "off \<le> s \<and> s < off + num \<and> s < total_sectors (hd chain)" for s
  proof -
    have e: "\<forall>j<512. out (boff + nat (s - off) * 512 + j) = chain_sector chain s j"
      using o s by blast
    have a: "\<forall>j<512. out (boff + nat (s - off) * 512 + j) = stored_sector (chain ! A) s j"
      if "A < length chain" "\<forall>j<A. \<not> disk_bit (chain ! j) s" "disk_bit (chain ! A) s"
         "disk_type (footer (chain ! A)) \<noteq> MVHD_TYPE_FIXED" for A
      using e chain_sector_ancestor [OF assms(1) that] by simp
    have b: "\<forall>j<512. out (boff + nat (s - off) * 512 + j) = 0"
      if "\<forall>j<length chain. \<not> disk_bit (chain ! j) s"
         "disk_type (footer (last chain)) \<noteq> MVHD_TYPE_FIXED"
      using e chain_sector_absent [OF assms(1) that] by simp
    have c: "\<forall>j<512. out (boff + nat (s - off) * 512 + j) = flat_sector (last chain) s j"
      if "\<forall>j<length chain - 1. \<not> disk_bit (chain ! j) s"
         "disk_type (footer (last chain)) = MVHD_TYPE_FIXED"
      using e chain_sector_fixed_root [OF assms(1) that] by simp
    show ?thesis using a b c e by blast
  qed
  then show ?thesis using r by blast
qed

lemma diff_chain_resolution_example:
  "chain_ok diff_chain \<and>
   map_option (\<lambda>(c, out, t). (out 0, out 511, out 512, out 1023, out 1024, out 1535, out 1536, t))
     (mvhd_diff_read diff_chain 0 3 (\<lambda>_. 0xFF) 0) =
   Some (0xAA, 0xAA, 0xBB, 0xBB, 2, 2, 0xFF, 0)"
proof -
  from diff_chain_resolution_small_files [OF diff_chain_ok _ diff_chain_cap, of 0 3 "\<lambda>_. 0xFF" 0]
  obtain chain' out where r: "mvhd_diff_read diff_chain 0 3 (\<lambda>_. 0xFF) 0 =
       Some (chain', out, snd (mvhd_check_sectors 0 3 (total_sectors (hd diff_chain))))"
    and u: "\<forall>i. \<not> (0 \<le> i \<and> i < 0 + nat 3 * 512) \<longrightarrow> out i = 0xFF"
    and o: "\<forall>s. 0 \<le> s \<and> s < 0 + 3 \<and> s < total_sectors (hd diff_chain) \<longrightarrow>
        (\<forall>A < length diff_chain.
            (\<forall>j<A. \<not> disk_bit (diff_chain ! j) s) \<and> disk_bit (diff_chain ! A) s \<and>
            disk_type (footer (diff_chain ! A)) \<noteq> MVHD_TYPE_FIXED \<longrightarrow>
            (\<forall>j<512. out (0 + nat (s - 0) * 512 + j) = stored_sector (diff_chain ! A) s j)) \<and>
        ((\<forall>j<length diff_chain - 1. \<not> disk_bit (diff_chain ! j) s) \<and>
            disk_type (footer (last diff_chain)) = MVHD_TYPE_FIXED \<longrightarrow>
            (\<forall>j<512. out (0 + nat (s - 0) * 512 + j) = flat_sector (last diff_chain) s j))"
    by auto
  have tot: "total_sectors (hd diff_chain) = 1000"
    by (simp add: diff_chain_def diff_image_def total_sectors_def)
  have len: "length diff_chain = 3" by (simp add: diff_chain_def)
  have ty: "disk_type (footer (diff_chain ! 0)) \<noteq> MVHD_TYPE_FIXED"
    "disk_type (footer (diff_chain ! 1)) \<noteq> MVHD_TYPE_FIXED"
    "disk_type (footer (last diff_chain)) = MVHD_TYPE_FIXED"
    by (simp_all add: diff_chain_def diff_image_def fixed_image_def)
  have t: "snd (mvhd_check_sectors 0 3 (total_sectors (hd diff_chain))) = 0"
    by (simp add: tot mvhd_check_sectors_def)
  have s0: "\<forall>j<512. out (0 + nat (0 - 0) * 512 + j) = stored_sector (diff_chain ! 0) 0 j"
    using o [rule_format, of 0, THEN conjunct1, rule_format, of 0] tot len ty diff_chain_bits
    by simp
  have un1: "\<forall>j<1. \<not> disk_bit (diff_chain ! j) 1" using diff_chain_bits by simp
  have s1: "\<forall>j<512. out (0 + nat (1 - 0) * 512 + j) = stored_sector (diff_chain ! 1) 1 j"
    using o [rule_format, of 1, THEN conjunct1, rule_format, of 1] tot len ty diff_chain_bits un1
    by simp
  have un2: "\<forall>j<length diff_chain - 1. \<not> disk_bit (diff_chain ! j) 2"
  proof (intro allI impI)
    fix j assume "j < length diff_chain - 1"
    then have "j = 0 \<or> j = 1" using len by auto
    then show "\<not> disk_bit (diff_chain ! j) 2" using diff_chain_bits by auto
  qed
  have s2: "\<forall>j<512. out (0 + nat (2 - 0) * 512 + j) = flat_sector (last diff_chain) 2 j"
    using o [rule_format, of 2, THEN conjunct2, rule_format] tot ty un2
    by simp
  have "out 0 = 0xAA" "out 511 = 0xAA"
    using s0 [rule_format, of 0] s0 [rule_format, of 511] by (simp_all add: diff_chain_sectors)
  moreover have "out 512 = 0xBB" "out 1023 = 0xBB"
    using s1 [rule_format, of 0] s1 [rule_format, of 511] by (simp_all add: diff_chain_sectors)
  moreover have "out 1024 = 2" "out 1535 = 2"
    using s2 [rule_format, of 0] s2 [rule_format, of 511] by (simp_all add: diff_chain_sectors)
  moreover have "out 1536 = 0xFF" using u [rule_format, of 1536] by simp
  ultimately show ?thesis using diff_chain_ok by (simp add: r t)
qed

subsection \<open>A block beyond 4 GiB in a differencing chain\<close>

lemma far_fields:
  "block_offset far_diff_image = [8388612]" "sect_per_block far_diff_image = 4096"
  "sector_count (bitmap far_diff_image) = 1" "curr_block (bitmap far_diff_image) = - 1"
  "disk_type (footer far_diff_image) = MVHD_TYPE_DIFF" "fsize (f far_diff_image) = 4297067520"
  "fpos (f far_diff_image) = 0" "total_sectors far_diff_image = 1000"
  "curr_bitmap (bitmap far_diff_image) = (\<lambda>_. 0)"
  by (simp_all add: far_diff_image_def total_sectors_def)

lemma far_low_bytes: "i < 4294969344 \<Longrightarrow> content (f far_diff_image) i = 0"
  by (simp add: far_diff_image_def)

lemma far_wrapped_offset: "uint ((8388612 :: 32 word) * 512) = 2048"
  by simp

lemma far_read_bitmap:
  "curr_bitmap (bitmap (mvhd_read_sect_bitmap far_diff_image 0)) = (\<lambda>_. 0)"
proof
  fix i
  have "block_offset far_diff_image ! nat 0 \<noteq> MVHD_SPARSE_BLK"
    by (simp add: far_fields MVHD_SPARSE_BLK_def)
  from read_sect_bitmap_alloc [OF this]
  show "curr_bitmap (bitmap (mvhd_read_sect_bitmap far_diff_image 0)) i = 0"
    by (simp add: Let_def far_fields far_wrapped_offset fseeko64_SET size_t_def fread_fst
          far_low_bytes)
qed

lemma far_walk:
  "diff_walk far_chain 0 1 =
     Some ([mvhd_read_sect_bitmap far_diff_image 0, fixed_image 10 10 10], Suc 0)"
proof -
  have t: "\<not> VHD_TESTBIT (\<lambda>_. 0) 1" by (simp add: VHD_TESTBIT_def)
  have "diff_walk far_chain 0 1 =
          diff_walk [mvhd_read_sect_bitmap far_diff_image 0, fixed_image 10 10 10] (Suc 0) 1"
    by (subst diff_walk_step)
       (simp_all add: far_chain_def far_fields Let_def sdiv_nonneg smod_nonneg far_read_bitmap t)
  also have "\<dots> = Some ([mvhd_read_sect_bitmap far_diff_image 0, fixed_image 10 10 10], Suc 0)"
    by (subst diff_walk_stop) (simp_all add: fixed_image_def)
  finally show ?thesis .
qed

lemma far_fixed_read:
  "mvhd_fixed_read (fixed_image 10 10 10) 1 1 (\<lambda>_. 0xFF) 0 =
     ((fixed_image 10 10 10)\<lparr>f := (f (fixed_image 10 10 10))\<lparr>fpos := 1024\<rparr>\<rparr>,
      (\<lambda>i. if i < 512 then 1 else 0xFF), 0)"
proof -
  have t: "total_sectors (fixed_image 10 10 10) = 1000"
    by (simp add: total_sectors_def fixed_image_def)
  have c: "mvhd_check_sectors 1 1 1000 = (1, 0)" by (simp add: mvhd_check_sectors_def)
  have b: "(\<lambda>i. if i < 512 then content (f (fixed_image 10 10 10)) (512 + i) else 0xFF) =
           (\<lambda>i. if i < 512 then 1 else 0xFF)"
  proof
    fix i :: nat
    have "i < 512 \<Longrightarrow> (512 + i) div 512 = 1" by linarith
    then show "(if i < 512 then content (f (fixed_image 10 10 10)) (512 + i) else 0xFF) =
               (if i < 512 then 1 else 0xFF)"
      by (simp add: fixed_image_def)
  qed
  have s: "size_t 512 = 512" by (simp add: size_t_def)
  have i: "fpos ((f (fixed_image 10 10 10))\<lparr>fpos := 512\<rparr>) + 512 * Suc 0 \<le>
           fsize ((f (fixed_image 10 10 10))\<lparr>fpos := 512\<rparr>)"
    by (simp add: fixed_image_def)
  have fr: "stream_read (\<lambda>_. 0xFF) 0 512 (Suc 0) ((f (fixed_image 10 10 10))\<lparr>fpos := 512\<rparr>) =
              (\<lambda>i. if i < 512 then 1 else 0xFF, (f (fixed_image 10 10 10))\<lparr>fpos := 1024\<rparr>)"
    unfolding fread_inside [OF i] using b by (simp cong: if_cong)
  show ?thesis
    by (simp add: mvhd_fixed_read_def t c fseeko64_SET s fr)
qed

text \<open>
  C4 fails on the code for a block beyond 4 GiB. In \<open>far_chain\<close> the bit of sector 1 is
  set in the child, which stores \<open>0xAA\<close> bytes for it, and the request is within the
  capacity; but \<^verbatim>\<open>mvhd_diff_read\<close> of sector 1 returns the bytes of the parent's sector 1
  (all \<open>0x01\<close>), with truncated count 0. \<^verbatim>\<open>mvhd_read_sect_bitmap\<close> computes the byte offset
  of the bitmap as \<^verbatim>\<open>block_offset[blk] * MVHD_SECTOR_SIZE\<close> in 32 bits, which is 2048 instead
  of \<open>2^32 + 2048\<close>: it reads zero bytes from there, the walk takes the bit for unset and
  moves on to the parent.
\<close>

theorem diff_read_misses_block_beyond_4GiB:
  "disk_bit (far_chain ! 0) 1 \<and>
   stored_sector (far_chain ! 0) 1 = (\<lambda>_. 0xAA) \<and>
   flat_sector (far_chain ! 1) 1 0 = 1 \<and>
   map_option (\<lambda>(chain', out, truncated). (out 0, out 511, out 512, truncated))
     (mvhd_diff_read far_chain 1 1 (\<lambda>_. 0xFF) 0) = Some (1, 1, 0xFF, 0)"
proof -
  have b: "bitmap_base far_diff_image 1 = 4294969344"
    by (simp add: bitmap_base_def far_fields)
  have d: "disk_bit (far_chain ! 0) 1"
    by (simp add: far_chain_def disk_bit_def b far_fields MVHD_SPARSE_BLK_def)
       (simp add: far_diff_image_def VHD_TESTBIT_def bit_mask_def sdiv_nonneg smod_nonneg)
  have s: "stored_sector (far_chain ! 0) 1 = (\<lambda>_. 0xAA)"
    by (rule ext) (simp add: far_chain_def stored_sector_def b far_fields, simp add: far_diff_image_def)
  have fs: "flat_sector (far_chain ! 1) 1 0 = 1"
    by (simp add: far_chain_def flat_sector_def fixed_image_def)
  have c: "mvhd_check_sectors 1 1 1000 = (1, 0)" by (simp add: mvhd_check_sectors_def)
  have ty: "disk_type (footer (fixed_image 10 10 10)) = MVHD_TYPE_FIXED"
    by (simp add: fixed_image_def)
  have l: "diff_read_loop far_chain 1 2 (\<lambda>_. 0xFF) 0 =
             Some ([mvhd_read_sect_bitmap far_diff_image 0,
                    (fixed_image 10 10 10)\<lparr>f := (f (fixed_image 10 10 10))\<lparr>fpos := 1024\<rparr>\<rparr>],
                   (\<lambda>i. if i < 512 then 1 else 0xFF))"
    by (simp add: diff_read_loop_step far_walk ty far_fixed_read diff_read_loop_done)
  have r: "mvhd_diff_read far_chain 1 1 (\<lambda>_. 0xFF) 0 =
             Some ([mvhd_read_sect_bitmap far_diff_image 0,
                    (fixed_image 10 10 10)\<lparr>f := (f (fixed_image 10 10 10))\<lparr>fpos := 1024\<rparr>\<rparr>],
                   (\<lambda>i. if i < 512 then 1 else 0xFF), 0)"
    using l by (simp add: mvhd_diff_read_def far_chain_def far_fields c)
  show ?thesis using d s fs by (simp add: r)
qed

end
